(* ===== verification/Prelude.thy ===== *)
theory Prelude
  imports Main "HOL-Library.Word"
begin

text \<open>
  Shared vocabulary of the development: the machine integer types of the Rust code, the
  outcome type that makes panics, endless loops and undefined behaviour values, checked
  subslice access, instants of the monotonic clock, hash-map operations, and the generic
  lemmas the component theories share.
\<close>

unbundle bit_operations_syntax

section \<open>Machine integers\<close>

type_synonym u8 = "8 word"
type_synonym u16 = "16 word"
type_synonym u32 = "32 word"
type_synonym u64 = "64 word"
type_synonym bytes = "u8 list"

named_theorems eval_defs \<open>definitions unfolded to evaluate the model on a concrete input\<close>
named_theorems octet_simps \<open>facts about the octets of an address and the bytes of a word\<close>

section \<open>Outcomes of a thread\<close>

text \<open>
  A function of the code either returns, panics (an index out of range, an \<open>unwrap\<close> of
  \<open>None\<close>), never returns, or executes undefined behaviour in an \<open>unsafe\<close> block.
\<close>

datatype 'a outcome = Return 'a | Panic | Hang | Ub

fun obind :: "'a outcome \<Rightarrow> ('a \<Rightarrow> 'b outcome) \<Rightarrow> 'b outcome" where
  "obind (Return x) f = f x"
| "obind Panic f = Panic"
| "obind Hang f = Hang"
| "obind Ub f = Ub"

fun returns :: "'a outcome \<Rightarrow> bool" where
  "returns (Return x) = True"
| "returns _ = False"

lemma obind_eq_Return:
  "obind m f = Return y \<longleftrightarrow> (\<exists>x. m = Return x \<and> f x = Return y)"
  by (cases m) auto

lemma obind_eq_Panic:
  "obind m f = Panic \<longleftrightarrow> m = Panic \<or> (\<exists>x. m = Return x \<and> f x = Panic)"
  by (cases m) auto

lemma returns_iff: "returns m \<longleftrightarrow> (\<exists>x. m = Return x)"
  by (cases m) auto

lemma obind_assoc: "obind (obind m f) g = obind m (\<lambda>x. obind (f x) g)"
  by (cases m) auto

text \<open>\<open>xs[i]\<close> and \<open>xs[a..b]\<close> of a subslice: out of range is a panic.\<close>

definition index :: "'a list \<Rightarrow> nat \<Rightarrow> 'a outcome" where
  "index xs i = (if i < length xs then Return (xs ! i) else Panic)"

definition subslice :: "'a list \<Rightarrow> nat \<Rightarrow> nat \<Rightarrow> 'a list outcome" where
  "subslice xs a b = (if a \<le> b \<and> b \<le> length xs then Return (take (b - a) (drop a xs)) else Panic)"

lemma index_in_range [simp]: "i < length xs \<Longrightarrow> index xs i = Return (xs ! i)"
  by (simp add: index_def)

lemma subslice_in_range [simp]:
  "a \<le> b \<Longrightarrow> b \<le> length xs \<Longrightarrow> subslice xs a b = Return (take (b - a) (drop a xs))"
  by (simp add: subslice_def)

lemma take_drop_nth2:
  "Suc i < length xs \<Longrightarrow> take 2 (drop i xs) = [xs ! i, xs ! Suc i]"
  by (simp add: numeral_2_eq_2 Cons_nth_drop_Suc [symmetric] Suc_lessD)

lemma take_drop_nth4:
  "i + 3 < length xs \<Longrightarrow> take 4 (drop i xs) = [xs ! i, xs ! (i + 1), xs ! (i + 2), xs ! (i + 3)]"
  by (rule nth_equalityI) (auto simp: nth_Cons' less_Suc_eq numeral_eq_Suc)

section \<open>Results\<close>

text \<open>\<open>Result<A, E>\<close> is \<open>'e + 'a\<close>: \<open>Inl\<close> for \<open>Err\<close>, \<open>Inr\<close> for \<open>Ok\<close>.\<close>

fun rbind :: "'e + 'a \<Rightarrow> ('a \<Rightarrow> 'e + 'b) \<Rightarrow> 'e + 'b" where
  "rbind (Inl e) f = Inl e"
| "rbind (Inr x) f = f x"

lemma rbind_eq_Inr:
  "rbind m f = Inr y \<longleftrightarrow> (\<exists>x. m = Inr x \<and> f x = Inr y)"
  by (cases m) auto

lemma rbind_eq_Inl:
  "rbind m f = Inl e \<longleftrightarrow> m = Inl e \<or> (\<exists>x. m = Inr x \<and> f x = Inl e)"
  by (cases m) auto

section \<open>The monotonic clock\<close>

text \<open>
  An \<open>Instant\<close> is a number of nanoseconds; \<open>elapsed\<close> saturates at zero, and
  \<open>as_millis\<close> drops the fraction of a millisecond.
\<close>

type_synonym instant = nat

definition elapsed_ms :: "instant \<Rightarrow> instant \<Rightarrow> nat" where
  "elapsed_ms now t = (now - t) div 1000000"

lemma elapsed_ms_mono: "now \<le> now' \<Longrightarrow> elapsed_ms now t \<le> elapsed_ms now' t"
  by (simp add: elapsed_ms_def div_le_mono diff_le_mono)

lemma elapsed_ms_self [simp]: "elapsed_ms t t = 0"
  by (simp add: elapsed_ms_def)

lemma elapsed_ms_less_iff:
  "0 < n \<Longrightarrow> elapsed_ms now t < n \<longleftrightarrow> now < t + n * 1000000"
  by (auto simp: elapsed_ms_def div_less_iff_less_mult)

section \<open>Hash maps\<close>

text \<open>\<open>HashMap::retain\<close> keeps the entries that satisfy a predicate.\<close>

definition map_retain :: "('k \<Rightarrow> 'v \<Rightarrow> bool) \<Rightarrow> ('k \<rightharpoonup> 'v) \<Rightarrow> ('k \<rightharpoonup> 'v)" where
  "map_retain P m = (\<lambda>k. case m k of None \<Rightarrow> None | Some v \<Rightarrow> if P k v then Some v else None)"

lemma map_retain_Some:
  "map_retain P m k = Some v \<longleftrightarrow> m k = Some v \<and> P k v"
  by (auto simp: map_retain_def split: option.splits)

lemma map_retain_None:
  "map_retain P m k = None \<longleftrightarrow> (\<forall>v. m k = Some v \<longrightarrow> \<not> P k v)"
  by (auto simp: map_retain_def split: option.splits)

lemma map_retain_True: "(\<And>k v. m k = Some v \<Longrightarrow> P k v) \<Longrightarrow> map_retain P m = m"
  by (auto simp: map_retain_def fun_eq_iff split: option.splits)

text \<open>
  The iteration order of a hash map is not specified: an iteration is any list that holds
  each entry once.
\<close>

definition is_iteration :: "('k \<rightharpoonup> 'v) \<Rightarrow> ('k \<times> 'v) list \<Rightarrow> bool" where
  "is_iteration m xs \<longleftrightarrow> distinct (map fst xs) \<and> map_of xs = m"

lemma is_iteration_mem: "is_iteration m xs \<Longrightarrow> (k, v) \<in> set xs \<longleftrightarrow> m k = Some v"
  by (auto simp: is_iteration_def)

section \<open>Lists and options\<close>

lemma find_append:
  "List.find P (xs @ ys) = (case List.find P xs of None \<Rightarrow> List.find P ys | Some x \<Rightarrow> Some x)"
  by (induction xs) auto

lemma find_filter:
  "(\<And>x. x \<in> set xs \<Longrightarrow> P x \<Longrightarrow> Q x) \<Longrightarrow> List.find P (filter Q xs) = List.find P xs"
  by (induction xs) auto

lemma find_map_upd:
  "(\<And>x. x \<in> set xs \<Longrightarrow> P (f x) \<longleftrightarrow> P x) \<Longrightarrow> List.find P (map f xs) = map_option f (List.find P xs)"
  by (induction xs) auto

lemma find_cong_pred: "(\<And>x. x \<in> set xs \<Longrightarrow> P x \<longleftrightarrow> Q x) \<Longrightarrow> List.find P xs = List.find Q xs"
  by (induction xs) auto

text \<open>\<open>iter_mut().find(p)\<close> followed by an assignment updates the first match only.\<close>

fun update_first :: "('a \<Rightarrow> bool) \<Rightarrow> ('a \<Rightarrow> 'a) \<Rightarrow> 'a list \<Rightarrow> 'a list" where
  "update_first p f [] = []"
| "update_first p f (x # xs) = (if p x then f x # xs else x # update_first p f xs)"

lemma length_update_first [simp]: "length (update_first p f xs) = length xs"
  by (induction xs) auto

lemma update_first_id: "(\<forall>x \<in> set xs. \<not> p x) \<Longrightarrow> update_first p f xs = xs"
  by (induction xs) auto

lemma map_update_first:
  "(\<And>x. g (f x) = g x) \<Longrightarrow> map g (update_first p f xs) = map g xs"
  by (induction xs) auto

lemma set_update_first: "set (update_first p f xs) \<subseteq> set xs \<union> f ` {x \<in> set xs. p x}"
  by (induction xs) auto

end
