(* ===== verification/Bytes.thy ===== *)
theory Bytes
  imports Prelude
begin

text \<open>
  The byte order conversions of the standard library. The program is built for
  little-endian Linux targets (x86-64, aarch64), so the native order (\<open>to_ne_bytes\<close>,
  \<open>from_ne_bytes\<close>) is least significant byte first; an address \<open>a.b.c.d\<close> in network
  order is then a \<open>u32\<close> whose least significant byte is \<open>a\<close>. Ports travel in big-endian
  order.
\<close>

definition u32_to_ne_bytes :: "u32 \<Rightarrow> bytes" where
  "u32_to_ne_bytes w = map (\<lambda>i. word_of_nat (unat w div 256 ^ i)) [0, 1, 2, 3]"

fun u32_from_ne_bytes :: "bytes \<Rightarrow> u32 option" where
  "u32_from_ne_bytes [a, b, c, d] =
     Some (word_of_nat (unat a + 256 * unat b + 65536 * unat c + 16777216 * unat d))"
| "u32_from_ne_bytes _ = None"

definition u16_to_be_bytes :: "u16 \<Rightarrow> bytes" where
  "u16_to_be_bytes w = [word_of_nat (unat w div 256), word_of_nat (unat w)]"

fun u16_from_be_bytes :: "bytes \<Rightarrow> u16 option" where
  "u16_from_be_bytes [a, b] = Some (word_of_nat (256 * unat a + unat b))"
| "u16_from_be_bytes _ = None"

definition u16_to_ne_bytes :: "u16 \<Rightarrow> bytes" where
  "u16_to_ne_bytes w = [word_of_nat (unat w), word_of_nat (unat w div 256)]"

fun u16_from_ne_bytes :: "bytes \<Rightarrow> u16 option" where
  "u16_from_ne_bytes [a, b] = Some (word_of_nat (unat a + 256 * unat b))"
| "u16_from_ne_bytes _ = None"

lemmas byte_defs [eval_defs] = u32_to_ne_bytes_def u16_to_be_bytes_def u16_to_ne_bytes_def

section \<open>Arithmetic of octets\<close>

lemma unat_u8_less [simp]: "unat (b :: u8) < 256"
  using unsigned_less [of b] by simp

lemma unat_u16_less [simp]: "unat (w :: u16) < 65536"
  using unsigned_less [of w] by simp

lemma unat_u32_less [simp]: "unat (w :: u32) < 4294967296"
  using unsigned_less [of w] by simp

lemma unat_u8_le [simp]: "unat (b :: u8) \<le> 255"
  using unat_u8_less [of b] by linarith

lemma unat_u16_le [simp]: "unat (w :: u16) \<le> 65535"
  using unat_u16_less [of w] by linarith

lemma unat_u32_le [simp]: "unat (w :: u32) \<le> 4294967295"
  using unat_u32_less [of w] by linarith

lemma unat_of_nat_u8: "unat (word_of_nat n :: u8) = n mod 256"
  by (simp add: unat_of_nat)

lemma unat_of_nat_u16: "unat (word_of_nat n :: u16) = n mod 65536"
  by (simp add: unat_of_nat)

lemma unat_of_nat_u32: "unat (word_of_nat n :: u32) = n mod 4294967296"
  by (simp add: unat_of_nat)

lemmas unat_of_nat_small = unat_of_nat_u8 unat_of_nat_u16 unat_of_nat_u32

lemma div_256_powers:
  "n div 65536 = n div 256 div (256::nat)" "n div 16777216 = n div 256 div 256 div (256::nat)"
  "n div 4294967296 = n div 256 div 256 div 256 div (256::nat)"
  by (simp_all add: div_mult2_eq [symmetric])

lemma four_octets:
  fixes n :: nat
  assumes "n < 4294967296"
  shows "n mod 256 + 256 * (n div 256 mod 256) + 65536 * (n div 65536 mod 256)
         + 16777216 * (n div 16777216 mod 256) = n"
proof -
  define q1 where "q1 = n div 256"
  define q2 where "q2 = q1 div 256"
  define q3 where "q3 = q2 div 256"
  have "q3 div 256 = 0"
    using assms div_256_powers(3) [of n] by (simp add: q1_def q2_def q3_def)
  then have "q3 mod 256 = q3" by simp
  moreover have "n mod 256 + 256 * q1 = n" "q1 mod 256 + 256 * q2 = q1" "q2 mod 256 + 256 * q3 = q2"
    by (simp_all add: q1_def q2_def q3_def)
  ultimately show ?thesis
    unfolding div_256_powers by (simp add: q1_def [symmetric] q2_def [symmetric] q3_def [symmetric])
qed

lemma octet_cons:
  fixes a m :: nat
  assumes "a < 256"
  shows "(a + 256 * m) mod 256 = a" "(a + 256 * m) div 256 = m"
  using assms by simp_all

lemma four_octets_unique:
  fixes a b c d :: nat
  assumes "a < 256" "b < 256" "c < 256" "d < 256"
    and n: "n = a + 256 * b + 65536 * c + 16777216 * d"
  shows "n mod 256 = a" "n div 256 mod 256 = b" "n div 65536 mod 256 = c"
    "n div 16777216 mod 256 = d" "n < 4294967296"
proof -
  have "n = a + 256 * (b + 256 * (c + 256 * d))" using n by simp
  then show "n mod 256 = a" "n div 256 mod 256 = b" "n div 65536 mod 256 = c"
    "n div 16777216 mod 256 = d"
    unfolding div_256_powers using assms(1-4) by (simp_all only: octet_cons mod_less)
  show "n < 4294967296" using assms by simp
qed

lemma two_octets: "(n::nat) < 65536 \<Longrightarrow> n mod 256 + 256 * (n div 256 mod 256) = n"
  using div_256_powers(1) [of n] by simp

section \<open>Round trips\<close>

lemma length_u32_to_ne_bytes [simp]: "length (u32_to_ne_bytes w) = 4"
  by (simp add: u32_to_ne_bytes_def)

lemma length_u16_to_be_bytes [simp]: "length (u16_to_be_bytes w) = 2"
  by (simp add: u16_to_be_bytes_def)

lemma u32_to_ne_bytes_eq:
  "u32_to_ne_bytes w = [word_of_nat (unat w), word_of_nat (unat w div 256),
     word_of_nat (unat w div 65536), word_of_nat (unat w div 16777216)]"
  by (simp add: u32_to_ne_bytes_def)

lemma u32_ne_roundtrip [simp]: "u32_from_ne_bytes (u32_to_ne_bytes w) = Some w"
  unfolding u32_to_ne_bytes_eq u32_from_ne_bytes.simps unat_of_nat_u8
  by (simp only: four_octets [OF unat_u32_less] of_nat_unat ucast_id)

lemma u16_be_roundtrip [simp]: "u16_from_be_bytes (u16_to_be_bytes w) = Some w"
  unfolding u16_to_be_bytes_def u16_from_be_bytes.simps unat_of_nat_u8
  by (simp only: two_octets [OF unat_u16_less] add.commute of_nat_unat ucast_id)

lemma u16_ne_roundtrip [simp]: "u16_from_ne_bytes (u16_to_ne_bytes w) = Some w"
  unfolding u16_to_ne_bytes_def u16_from_ne_bytes.simps unat_of_nat_u8
  by (simp only: two_octets [OF unat_u16_less] of_nat_unat ucast_id)

lemma u32_bytes_roundtrip:
  assumes "u32_from_ne_bytes bs = Some w"
  shows "u32_to_ne_bytes w = bs"
proof -
  from assms obtain a b c d where bs: "bs = [a, b, c, d]"
    and w: "w = word_of_nat (unat a + 256 * unat b + 65536 * unat c + 16777216 * unat d)"
    by (cases bs rule: u32_from_ne_bytes.cases) auto
  note q = four_octets_unique [OF unat_u8_less [of a] unat_u8_less [of b] unat_u8_less [of c]
      unat_u8_less [of d] refl]
  have "unat w = unat a + 256 * unat b + 65536 * unat c + 16777216 * unat d"
    unfolding w unat_of_nat_u32 using q(5) by (rule mod_less)
  then show ?thesis
    unfolding bs u32_to_ne_bytes_eq list.inject word_unat_eq_iff unat_of_nat_u8 by (simp only: q simp_thms)
qed

lemma u16_bytes_roundtrip:
  assumes "u16_from_be_bytes bs = Some w"
  shows "u16_to_be_bytes w = bs"
proof -
  from assms obtain a b where bs: "bs = [a, b]" and w: "w = word_of_nat (256 * unat a + unat b)"
    by (cases bs rule: u16_from_be_bytes.cases) auto
  have "256 * unat a + unat b < 65536"
    using unat_u8_less [of a] unat_u8_less [of b] by linarith
  then have "unat w = unat b + 256 * unat a"
    unfolding w unat_of_nat_u16 by (simp only: mod_less add.commute)
  then show ?thesis
    unfolding bs u16_to_be_bytes_def list.inject word_unat_eq_iff unat_of_nat_u8
    by (simp only: octet_cons unat_u8_less mod_less simp_thms)
qed

lemma u32_from_ne_bytes_Some_iff: "(\<exists>w. u32_from_ne_bytes bs = Some w) \<longleftrightarrow> length bs = 4"
  by (induction bs rule: u32_from_ne_bytes.induct) auto

lemma u16_from_be_bytes_Some_iff: "(\<exists>w. u16_from_be_bytes bs = Some w) \<longleftrightarrow> length bs = 2"
  by (induction bs rule: u16_from_be_bytes.induct) auto

end
