(* ===== verification/Rust_Str.thy ===== *)
theory Rust_Str
  imports Bytes
begin

text \<open>
  Rust strings and the string operations the program calls. A \<open>str\<close> is UTF-8, so it is
  modelled by its bytes: a HOL \<open>string\<close>, each \<open>char\<close> one byte, \<open>length\<close> the
  \<open>len()\<close> of the code. The theory holds splitting, trimming of Unicode white space,
  boundary-checked slicing, ASCII case folding, upper-casing, integer parsing and printing,
  and the lossy decoding of bytes; then the lemmas on them that the components share.
\<close>

abbreviation code :: "char \<Rightarrow> nat" where
  "code c \<equiv> of_char c"

definition str_bytes :: "string \<Rightarrow> bytes" where
  "str_bytes s = map (\<lambda>c. word_of_nat (code c)) s"

definition bytes_str :: "bytes \<Rightarrow> string" where
  "bytes_str bs = map (\<lambda>b. char_of (unat b)) bs"

section \<open>Splitting\<close>

text \<open>\<open>s.split(p)\<close>: one piece more than there are separators, empty pieces included.\<close>

fun str_split :: "(char \<Rightarrow> bool) \<Rightarrow> string \<Rightarrow> string list" where
  "str_split p [] = [[]]"
| "str_split p (c # cs) =
     (if p c then [] # str_split p cs
      else (case str_split p cs of [] \<Rightarrow> [[c]] | w # ws \<Rightarrow> (c # w) # ws))"

text \<open>\<open>s.rsplit(p).next().unwrap_or(s)\<close>: the pieces from the right, the first of them.\<close>

definition rsplit_next_or :: "(char \<Rightarrow> bool) \<Rightarrow> string \<Rightarrow> string" where
  "rsplit_next_or p s = (case rev (str_split p s) of [] \<Rightarrow> s | w # _ \<Rightarrow> w)"

text \<open>\<open>s.split_once(c)\<close>: at the first occurrence.\<close>

fun split_once :: "char \<Rightarrow> string \<Rightarrow> (string \<times> string) option" where
  "split_once c [] = None"
| "split_once c (x # xs) =
     (if x = c then Some ([], xs)
      else map_option (\<lambda>(a, b). (x # a, b)) (split_once c xs))"

text \<open>\<open>s.find(pat)\<close>: the byte offset of the first occurrence.\<close>

fun starts_with :: "string \<Rightarrow> string \<Rightarrow> bool" where
  "starts_with [] s = True"
| "starts_with (p # ps) [] = False"
| "starts_with (p # ps) (c # cs) = (p = c \<and> starts_with ps cs)"

fun str_find :: "string \<Rightarrow> string \<Rightarrow> nat option" where
  "str_find pat [] = (if pat = [] then Some 0 else None)"
| "str_find pat (c # cs) =
     (if starts_with pat (c # cs) then Some 0 else map_option Suc (str_find pat cs))"

definition ends_with_char :: "char \<Rightarrow> string \<Rightarrow> bool" where
  "ends_with_char c s = (s \<noteq> [] \<and> last s = c)"

definition starts_with_char :: "char \<Rightarrow> string \<Rightarrow> bool" where
  "starts_with_char c s = (s \<noteq> [] \<and> hd s = c)"

section \<open>Slicing at character boundaries\<close>

definition is_cont_byte :: "char \<Rightarrow> bool" where
  "is_cont_byte c = (128 \<le> code c \<and> code c < 192)"

definition is_char_boundary :: "string \<Rightarrow> nat \<Rightarrow> bool" where
  "is_char_boundary s i =
     (i = 0 \<or> i = length s \<or> (i < length s \<and> \<not> is_cont_byte (s ! i)))"

text \<open>\<open>s.get(a..b)\<close>, and its one-sided forms: \<open>None\<close> out of range or off a boundary.\<close>

definition str_get :: "string \<Rightarrow> nat \<Rightarrow> nat \<Rightarrow> string option" where
  "str_get s a b =
     (if a \<le> b \<and> is_char_boundary s a \<and> is_char_boundary s b
      then Some (take (b - a) (drop a s)) else None)"

definition str_get_to :: "string \<Rightarrow> nat \<Rightarrow> string option" where
  "str_get_to s b = (if is_char_boundary s b then Some (take b s) else None)"

definition str_get_from :: "string \<Rightarrow> nat \<Rightarrow> string option" where
  "str_get_from s a = (if is_char_boundary s a then Some (drop a s) else None)"

section \<open>White space\<close>

text \<open>
  \<open>ws_width s\<close> is the number of bytes of the white-space character (the Unicode property
  White\_Space, in UTF-8) at the head of \<open>s\<close>, 0 when there is none.
\<close>

definition ws_ascii :: "char \<Rightarrow> bool" where
  "ws_ascii c = (code c \<in> {9, 10, 11, 12, 13, 32})"

definition ws_two :: "char \<Rightarrow> char \<Rightarrow> bool" where
  "ws_two a b = (code a = 194 \<and> code b \<in> {133, 160})"

definition ws_three :: "char \<Rightarrow> char \<Rightarrow> char \<Rightarrow> bool" where
  "ws_three a b c =
     ((code a, code b, code c) \<in> {(225, 154, 128), (226, 128, 168), (226, 128, 169),
        (226, 128, 175), (226, 129, 159), (227, 128, 128)}
      \<or> code a = 226 \<and> code b = 128 \<and> 128 \<le> code c \<and> code c \<le> 138)"

fun ws_width :: "string \<Rightarrow> nat" where
  "ws_width [] = 0"
| "ws_width (a # s) =
     (if code a < 128 then (if ws_ascii a then 1 else 0)
      else (case s of [] \<Rightarrow> 0
            | b # s' \<Rightarrow> if ws_two a b then 2
                else (case s' of [] \<Rightarrow> 0 | c # _ \<Rightarrow> if ws_three a b c then 3 else 0)))"

text \<open>The same reading a string from its end (the bytes in reverse).\<close>

fun ws_width_rev :: "string \<Rightarrow> nat" where
  "ws_width_rev [] = 0"
| "ws_width_rev (c # s) =
     (if code c < 128 then (if ws_ascii c then 1 else 0)
      else (case s of [] \<Rightarrow> 0
            | b # s' \<Rightarrow> if ws_two b c then 2
                else (case s' of [] \<Rightarrow> 0 | a # _ \<Rightarrow> if ws_three a b c then 3 else 0)))"

lemma ws_width_progress: "0 < ws_width s \<Longrightarrow> length s - ws_width s < length s"
  by (cases s) simp_all

lemma ws_width_rev_progress: "0 < ws_width_rev s \<Longrightarrow> length s - ws_width_rev s < length s"
  by (cases s) simp_all

function trim_start :: "string \<Rightarrow> string" where
  "trim_start s = (if ws_width s = 0 then s else trim_start (drop (ws_width s) s))"
  by pat_completeness auto
termination
  by (relation "measure length") (auto simp: ws_width_progress)

function trim_start_rev :: "string \<Rightarrow> string" where
  "trim_start_rev s = (if ws_width_rev s = 0 then s else trim_start_rev (drop (ws_width_rev s) s))"
  by pat_completeness auto
termination
  by (relation "measure length") (auto simp: ws_width_rev_progress)

declare trim_start.simps [simp del] trim_start_rev.simps [simp del]

definition trim :: "string \<Rightarrow> string" where
  "trim s = rev (trim_start_rev (rev (trim_start s)))"

text \<open>\<open>split_whitespace\<close>: the non-empty pieces between white space.\<close>

function split_ws_pieces :: "string \<Rightarrow> string \<Rightarrow> string list" where
  "split_ws_pieces cur [] = [rev cur]"
| "split_ws_pieces cur (c # s) =
     (if ws_width (c # s) = 0 then split_ws_pieces (c # cur) s
      else rev cur # split_ws_pieces [] (drop (ws_width (c # s)) (c # s)))"
  by pat_completeness auto
termination
  by (relation "measure (\<lambda>(cur, s). length s)") (auto simp del: ws_width.simps)

definition split_whitespace :: "string \<Rightarrow> string list" where
  "split_whitespace s = filter (\<lambda>w. w \<noteq> []) (split_ws_pieces [] s)"

section \<open>Case\<close>

definition ascii_lower :: "char \<Rightarrow> char" where
  "ascii_lower c = (if 65 \<le> code c \<and> code c \<le> 90 then char_of (code c + 32) else c)"

definition eq_ignore_ascii_case :: "string \<Rightarrow> string \<Rightarrow> bool" where
  "eq_ignore_ascii_case s t = (map ascii_lower s = map ascii_lower t)"

text \<open>
  \<open>to_uppercase\<close>, used only to compare with ASCII keywords. The characters outside ASCII
  whose upper case is ASCII text are U+017F, U+0131, U+00DF and the ligatures U+FB00 to
  U+FB06; they are mapped. Any other character outside ASCII is left as it is: its upper
  case is never ASCII, so no comparison with a keyword changes.
\<close>

definition ascii_upper :: "char \<Rightarrow> char" where
  "ascii_upper c = (if 97 \<le> code c \<and> code c \<le> 122 then char_of (code c - 32) else c)"

definition ligature_upper :: "char \<Rightarrow> string option" where
  "ligature_upper c =
     (if code c = 128 then Some ''FF'' else if code c = 129 then Some ''FI''
      else if code c = 130 then Some ''FL'' else if code c = 131 then Some ''FFI''
      else if code c = 132 then Some ''FFL'' else if code c = 133 then Some ''ST''
      else if code c = 134 then Some ''ST'' else None)"

fun to_uppercase :: "string \<Rightarrow> string" where
  "to_uppercase [] = []"
| "to_uppercase (a # s) =
     (if code a < 128 then ascii_upper a # to_uppercase s
      else (case s of [] \<Rightarrow> [a]
            | b # s' \<Rightarrow>
                if code a = 197 \<and> code b = 191 then CHR ''S'' # to_uppercase s'
                else if code a = 196 \<and> code b = 177 then CHR ''I'' # to_uppercase s'
                else if code a = 195 \<and> code b = 159 then ''SS'' @ to_uppercase s'
                else (case s' of [] \<Rightarrow> a # to_uppercase s
                      | c # s'' \<Rightarrow>
                          if code a = 239 \<and> code b = 172 \<and> ligature_upper c \<noteq> None
                          then the (ligature_upper c) @ to_uppercase s''
                          else a # to_uppercase s)))"

section \<open>Integers\<close>

text \<open>
  \<open>parse::<uN>()\<close> and \<open>from_str_radix\<close>: an optional \<open>+\<close>, then at least one digit,
  with checked multiplication and addition; any other input is an error.
\<close>

definition to_digit :: "nat \<Rightarrow> char \<Rightarrow> nat option" where
  "to_digit radix c =
     (let d = (if 48 \<le> code c \<and> code c \<le> 57 then code c - 48
               else if 97 \<le> code c \<and> code c \<le> 122 then code c - 87
               else if 65 \<le> code c \<and> code c \<le> 90 then code c - 55
               else radix)
      in if d < radix then Some d else None)"

fun parse_digits :: "nat \<Rightarrow> nat \<Rightarrow> nat \<Rightarrow> string \<Rightarrow> nat option" where
  "parse_digits radix lim acc [] = Some acc"
| "parse_digits radix lim acc (c # s) =
     (case to_digit radix c of
        None \<Rightarrow> None
      | Some d \<Rightarrow> if acc * radix + d \<le> lim then parse_digits radix lim (acc * radix + d) s else None)"

definition from_str_radix :: "nat \<Rightarrow> nat \<Rightarrow> string \<Rightarrow> nat option" where
  "from_str_radix radix lim s =
     (if s = [] then None
      else if s = ''+'' \<or> s = ''-'' then None
      else if hd s = CHR ''+'' then parse_digits radix lim 0 (tl s)
      else parse_digits radix lim 0 s)"

definition parse_u8 :: "string \<Rightarrow> u8 option" where
  "parse_u8 s = map_option word_of_nat (from_str_radix 10 255 s)"

definition parse_u16 :: "string \<Rightarrow> u16 option" where
  "parse_u16 s = map_option word_of_nat (from_str_radix 10 65535 s)"

definition parse_u16_hex :: "string \<Rightarrow> u16 option" where
  "parse_u16_hex s = map_option word_of_nat (from_str_radix 16 65535 s)"

definition parse_u32 :: "string \<Rightarrow> u32 option" where
  "parse_u32 s = map_option word_of_nat (from_str_radix 10 4294967295 s)"

definition parse_u64 :: "string \<Rightarrow> u64 option" where
  "parse_u64 s = map_option word_of_nat (from_str_radix 10 18446744073709551615 s)"

definition unwrap_or :: "'a option \<Rightarrow> 'a \<Rightarrow> 'a" where
  "unwrap_or m d = (case m of None \<Rightarrow> d | Some x \<Rightarrow> x)"

text \<open>\<open>{}\<close> of an unsigned integer.\<close>

definition digit_char :: "nat \<Rightarrow> char" where
  "digit_char d = char_of (48 + d)"

fun show_nat :: "nat \<Rightarrow> string" where
  "show_nat n = (if n < 10 then [digit_char n] else show_nat (n div 10) @ [digit_char (n mod 10)])"

declare show_nat.simps [simp del]

section \<open>Decoding bytes\<close>

text \<open>
  One step of the standard library's UTF-8 scan of a non-empty byte string: whether the
  bytes at the head form a character, and how many of them are consumed (a whole character,
  or the longest prefix of one). A missing byte reads as 0.
\<close>

definition byte_or_0 :: "bytes \<Rightarrow> nat \<Rightarrow> nat" where
  "byte_or_0 bs i = (if i < length bs then unat (bs ! i) else 0)"

definition in_range :: "nat \<Rightarrow> nat \<Rightarrow> nat \<Rightarrow> bool" where
  "in_range lo hi n = (lo \<le> n \<and> n \<le> hi)"

definition utf8_second_ok :: "nat \<Rightarrow> nat \<Rightarrow> bool" where
  "utf8_second_ok a b =
     (if a = 224 then in_range 160 191 b
      else if a = 237 then in_range 128 159 b
      else if a = 240 then in_range 144 191 b
      else if a = 244 then in_range 128 143 b
      else in_range 128 191 b)"

definition utf8_step :: "bytes \<Rightarrow> bool \<times> nat" where
  "utf8_step bs =
     (let a = byte_or_0 bs 0; b = byte_or_0 bs 1; c = byte_or_0 bs 2; d = byte_or_0 bs 3 in
      if a < 128 then (True, 1)
      else if in_range 194 223 a then (if in_range 128 191 b then (True, 2) else (False, 1))
      else if in_range 224 239 a then
        (if utf8_second_ok a b then (if in_range 128 191 c then (True, 3) else (False, 2))
         else (False, 1))
      else if in_range 240 244 a then
        (if utf8_second_ok a b then
           (if in_range 128 191 c then (if in_range 128 191 d then (True, 4) else (False, 3))
            else (False, 2))
         else (False, 1))
      else (False, 1))"

lemma utf8_step_pos: "0 < snd (utf8_step bs)"
  by (simp add: utf8_step_def Let_def)

definition replacement_char :: bytes where
  "replacement_char = [239, 191, 189]"

function utf8_lossy :: "bytes \<Rightarrow> bytes" where
  "utf8_lossy bs =
     (if bs = [] then []
      else (if fst (utf8_step bs) then take (snd (utf8_step bs)) bs else replacement_char)
           @ utf8_lossy (drop (snd (utf8_step bs)) bs))"
  by pat_completeness auto
termination
  by (relation "measure length") (auto simp: utf8_step_pos)

function utf8_valid :: "bytes \<Rightarrow> bool" where
  "utf8_valid bs =
     (if bs = [] then True
      else fst (utf8_step bs) \<and> utf8_valid (drop (snd (utf8_step bs)) bs))"
  by pat_completeness auto
termination
  by (relation "measure length") (auto simp: utf8_step_pos)

declare utf8_lossy.simps [simp del] utf8_valid.simps [simp del]

definition from_utf8_lossy :: "bytes \<Rightarrow> string" where
  "from_utf8_lossy bs = bytes_str (utf8_lossy bs)"

text \<open>\<open>to_string_lossy\<close> of a file name, which is a byte string.\<close>

definition to_string_lossy :: "string \<Rightarrow> string" where
  "to_string_lossy s = from_utf8_lossy (str_bytes s)"

text \<open>
  \<open>BufReader::lines\<close> of a file: split at line feeds (no line after a final one), a
  carriage return before the line feed dropped, a line that is not UTF-8 an error.
\<close>

definition buf_line :: "string \<Rightarrow> bool \<Rightarrow> string option" where
  "buf_line w ended =
     (let l = (if ended \<and> w \<noteq> [] \<and> code (last w) = 13 then butlast w else w)
      in if utf8_valid (str_bytes w) then Some l else None)"

fun buf_lines_of :: "string list \<Rightarrow> string option list" where
  "buf_lines_of [] = []"
| "buf_lines_of [w] = (if w = [] then [] else [buf_line w False])"
| "buf_lines_of (w # ws) = buf_line w True # buf_lines_of ws"

definition buf_lines :: "string \<Rightarrow> string option list" where
  "buf_lines s = buf_lines_of (str_split (\<lambda>c. code c = 10) s)"

lemmas str_defs [eval_defs] = str_bytes_def bytes_str_def rsplit_next_or_def ends_with_char_def
  starts_with_char_def is_cont_byte_def is_char_boundary_def str_get_def str_get_to_def
  str_get_from_def ws_ascii_def ws_two_def ws_three_def trim_def split_whitespace_def
  ascii_lower_def eq_ignore_ascii_case_def ascii_upper_def ligature_upper_def to_digit_def
  from_str_radix_def parse_u8_def parse_u16_def parse_u16_hex_def parse_u32_def parse_u64_def
  unwrap_or_def digit_char_def

lemma char_of_eq_sym: "c = char_of n \<longleftrightarrow> take_bit 8 n = of_char c"
  using char_of_eq_iff [of n c] by auto

lemmas char_eqs [eval_defs] = char_of_eq_iff char_of_eq_sym

lemmas str_loops [eval_defs] = trim_start.simps trim_start_rev.simps show_nat.simps

end
