(* ===== verification/Str_Facts.thy ===== *)
theory Str_Facts
  imports Rust_Str
begin

text \<open>
  Facts about the string operations of \<open>Rust_Str\<close>: splitting loses nothing, trimming
  leaves plain text alone, printed integers are read back, ASCII text is valid UTF-8.
\<close>

section \<open>Splitting\<close>

fun str_join :: "char \<Rightarrow> string list \<Rightarrow> string" where
  "str_join c [] = []"
| "str_join c [w] = w"
| "str_join c (w # v # ws) = w @ c # str_join c (v # ws)"

lemma str_split_nonempty [simp]: "str_split p s \<noteq> []"
  by (induction s) (auto split: list.splits)

lemma str_split_no_sep: "w \<in> set (str_split p s) \<Longrightarrow> x \<in> set w \<Longrightarrow> \<not> p x"
  by (induction s arbitrary: w) (fastforce split: list.splits if_splits)+

lemma length_str_split: "length (str_split p s) = Suc (length (filter p s))"
  by (induction s) (auto split: list.splits)

lemma str_split_plain: "(\<And>x. x \<in> set s \<Longrightarrow> \<not> p x) \<Longrightarrow> str_split p s = [s]"
  by (induction s) auto

lemma str_split_append_sep:
  "p x \<Longrightarrow> str_split p (a @ x # b) = str_split p a @ str_split p b"
  by (induction a) (auto split: list.splits)

lemma str_split_first:
  "p x \<Longrightarrow> (\<And>y. y \<in> set a \<Longrightarrow> \<not> p y) \<Longrightarrow> str_split p (a @ x # b) = a # str_split p b"
  by (simp add: str_split_append_sep str_split_plain)

lemma str_join_cons_char:
  "ws \<noteq> [] \<Longrightarrow> str_join c ((x # hd ws) # tl ws) = x # str_join c ws"
  by (cases "(c, ws)" rule: str_join.cases) auto

lemma str_join_split: "str_join c (str_split (\<lambda>x. x = c) s) = s"
proof (induction s)
  case (Cons x s)
  obtain w ws where ws: "str_split (\<lambda>x. x = c) s = w # ws"
    by (cases "str_split (\<lambda>x. x = c) s") auto
  with Cons.IH str_join_cons_char [of "w # ws" c x] show ?case by simp
qed simp

lemma str_split_join:
  assumes "p c" and "ws \<noteq> []" and "\<And>w x. w \<in> set ws \<Longrightarrow> x \<in> set w \<Longrightarrow> \<not> p x"
  shows "str_split p (str_join c ws) = ws"
  using assms
proof (induction c ws rule: str_join.induct)
  case (3 c w v ws)
  have "str_split p (str_join c (v # ws)) = v # ws"
    by (rule "3.IH") (use "3.prems" in auto)
  moreover have "\<And>y. y \<in> set w \<Longrightarrow> \<not> p y" using "3.prems" by auto
  ultimately show ?case
    using str_split_first [of p c w "str_join c (v # ws)"] "3.prems"(1) by simp
next
  case (2 c w)
  then have "\<And>y. y \<in> set w \<Longrightarrow> \<not> p y" by auto
  then show ?case using str_split_plain [of w p] by simp
qed simp

lemma set_str_join:
  "x \<in> set (str_join c ws) \<Longrightarrow> x = c \<or> (\<exists>w \<in> set ws. x \<in> set w)"
  by (induction c ws rule: str_join.induct) auto

lemma str_join_nonempty: "ws \<noteq> [] \<Longrightarrow> hd ws \<noteq> [] \<Longrightarrow> str_join c ws \<noteq> []"
  by (cases "(c, ws)" rule: str_join.cases) auto

lemma str_join_singleton_char:
  "str_join c ws = [x] \<Longrightarrow> x \<noteq> c \<Longrightarrow> ws \<noteq> [] \<Longrightarrow> (\<And>w. w \<in> set ws \<Longrightarrow> w \<noteq> []) \<Longrightarrow> ws = [[x]]"
  by (cases "(c, ws)" rule: str_join.cases) (auto simp: append_eq_Cons_conv)

lemma rsplit_next_or_eq:
  "rsplit_next_or p s = last (str_split p s)"
proof -
  obtain xs x where "str_split p s = xs @ [x]"
    using rev_exhaust [of "str_split p s"] by auto
  then show ?thesis by (simp add: rsplit_next_or_def)
qed

lemma rsplit_next_or_plain:
  "(\<And>x. x \<in> set s \<Longrightarrow> \<not> p x) \<Longrightarrow> rsplit_next_or p s = s"
  by (simp add: rsplit_next_or_eq str_split_plain)

lemma rsplit_next_or_append:
  "p x \<Longrightarrow> rsplit_next_or p (d @ x # f) = rsplit_next_or p f"
  by (simp add: rsplit_next_or_eq str_split_append_sep)

lemma rsplit_next_or_no_sep: "x \<in> set (rsplit_next_or p s) \<Longrightarrow> \<not> p x"
  using str_split_no_sep [of "last (str_split p s)" p s x] by (simp add: rsplit_next_or_eq)

lemma split_once_Some_iff:
  "split_once c s = Some (a, b) \<longleftrightarrow> s = a @ c # b \<and> c \<notin> set a"
proof (induction s arbitrary: a)
  case (Cons x s)
  have "split_once c (x # s) = Some (a, b) \<longleftrightarrow>
      (if x = c then a = [] \<and> s = b else \<exists>a'. a = x # a' \<and> split_once c s = Some (a', b))"
    by auto
  then show ?case by (cases a) (auto simp: Cons.IH)
qed simp

lemma split_once_None_iff: "split_once c s = None \<longleftrightarrow> c \<notin> set s"
  by (induction s) auto

lemma split_once_append: "c \<notin> set a \<Longrightarrow> split_once c (a @ c # b) = Some (a, b)"
  by (simp add: split_once_Some_iff)

lemma starts_with_iff: "starts_with p s \<longleftrightarrow> take (length p) s = p"
  by (induction p s rule: starts_with.induct) auto

lemma str_find_append:
  assumes "p \<noteq> []" and "\<And>n. n < length a \<Longrightarrow> \<not> starts_with p (drop n (a @ p @ b))"
  shows "str_find p (a @ p @ b) = Some (length a)"
  using assms(2)
proof (induction a)
  case Nil
  have "starts_with p (p @ b)" by (simp add: starts_with_iff)
  with assms(1) show ?case by (cases p) auto
next
  case (Cons x a)
  have "\<not> starts_with p (x # a @ p @ b)" using Cons.prems [of 0] by simp
  moreover have "str_find p (a @ p @ b) = Some (length a)"
    using Cons.IH Cons.prems [of "Suc _"] by auto
  ultimately show ?case by simp
qed

section \<open>White space\<close>

text \<open>Plain text: ASCII characters that are not white space.\<close>

definition plain_char :: "char \<Rightarrow> bool" where
  "plain_char c = (code c < 128 \<and> \<not> ws_ascii c)"

definition plain :: "string \<Rightarrow> bool" where
  "plain s = list_all plain_char s"

lemma plain_simps [simp]:
  "plain []" "plain (c # s) \<longleftrightarrow> plain_char c \<and> plain s" "plain (s @ t) \<longleftrightarrow> plain s \<and> plain t"
  by (auto simp: plain_def)

lemma plain_rev [simp]: "plain (rev s) \<longleftrightarrow> plain s"
  by (simp add: plain_def)

lemma plain_str_join: "plain_char c \<Longrightarrow> (\<And>w. w \<in> set ws \<Longrightarrow> plain w) \<Longrightarrow> plain (str_join c ws)"
  by (induction c ws rule: str_join.induct) auto

lemma ws_width_plain [simp]: "plain s \<Longrightarrow> ws_width s = 0"
  by (cases s) (auto simp: plain_char_def)

lemma ws_width_rev_plain [simp]: "plain s \<Longrightarrow> ws_width_rev s = 0"
  by (cases s) (auto simp: plain_char_def)

lemma trim_plain [simp]: "plain s \<Longrightarrow> trim s = s"
  by (simp add: trim_def trim_start.simps trim_start_rev.simps)

section \<open>Case\<close>

lemma eq_ignore_ascii_case_refl [simp]: "eq_ignore_ascii_case s s"
  by (simp add: eq_ignore_ascii_case_def)

lemma eq_ignore_ascii_case_sym: "eq_ignore_ascii_case s t \<longleftrightarrow> eq_ignore_ascii_case t s"
  by (auto simp: eq_ignore_ascii_case_def)

lemma eq_ignore_ascii_case_trans:
  "eq_ignore_ascii_case s t \<Longrightarrow> eq_ignore_ascii_case t u \<Longrightarrow> eq_ignore_ascii_case s u"
  by (simp add: eq_ignore_ascii_case_def)

lemma eq_ignore_ascii_case_length: "eq_ignore_ascii_case s t \<Longrightarrow> length s = length t"
  by (auto simp: eq_ignore_ascii_case_def dest: arg_cong [where f = length])

section \<open>Printing and reading integers\<close>

lemma code_digit_char: "d < 10 \<Longrightarrow> code (digit_char d) = 48 + d"
  by (simp add: digit_char_def)

lemma to_digit_digit_char: "d < 10 \<Longrightarrow> to_digit 10 (digit_char d) = Some d"
  by (simp add: to_digit_def code_digit_char)

definition digits :: "string \<Rightarrow> bool" where
  "digits s = (\<forall>c \<in> set s. 48 \<le> code c \<and> code c \<le> 57)"

lemma digits_show_nat: "digits (show_nat n)"
  by (induction n rule: show_nat.induct) (subst show_nat.simps, auto simp: digits_def code_digit_char)

lemma show_nat_nonempty [simp]: "show_nat n \<noteq> []"
  by (subst show_nat.simps) simp

lemma digits_plain: "digits s \<Longrightarrow> plain s"
  by (auto simp: digits_def plain_def list_all_iff plain_char_def ws_ascii_def)

lemma plain_show_nat [simp]: "plain (show_nat n)"
  by (rule digits_plain) (rule digits_show_nat)

lemma digits_not_mem: "digits s \<Longrightarrow> code c < 48 \<or> 57 < code c \<Longrightarrow> c \<notin> set s"
  by (auto simp: digits_def)

lemma show_nat_not_mem [simp]:
  "CHR ''.'' \<notin> set (show_nat n)" "CHR '':'' \<notin> set (show_nat n)" "CHR ''-'' \<notin> set (show_nat n)"
  "CHR ''*'' \<notin> set (show_nat n)" "CHR '';'' \<notin> set (show_nat n)" "CHR '','' \<notin> set (show_nat n)"
  "CHR ''+'' \<notin> set (show_nat n)"
  by (rule digits_not_mem [OF digits_show_nat], simp)+

lemma parse_digits_append:
  "parse_digits r lim a (xs @ ys) = Option.bind (parse_digits r lim a xs) (\<lambda>v. parse_digits r lim v ys)"
  by (induction xs arbitrary: a) (auto split: option.splits)

lemma parse_digits_show_nat: "n \<le> lim \<Longrightarrow> parse_digits 10 lim 0 (show_nat n) = Some n"
proof (induction n rule: show_nat.induct)
  case (1 n)
  show ?case
  proof (cases "n < 10")
    case True
    then show ?thesis
      using 1 by (subst show_nat.simps) (simp add: to_digit_digit_char)
  next
    case False
    then have "parse_digits 10 lim 0 (show_nat (n div 10)) = Some (n div 10)"
      using 1 by simp
    with False 1 show ?thesis
      by (subst show_nat.simps) (simp add: parse_digits_append to_digit_digit_char)
  qed
qed

lemma from_str_radix_show_nat: "n \<le> lim \<Longrightarrow> from_str_radix 10 lim (show_nat n) = Some n"
proof -
  assume "n \<le> lim"
  moreover have "hd (show_nat n) \<noteq> CHR ''+''"
    using show_nat_not_mem(7) [of n] hd_in_set [OF show_nat_nonempty, of n] by metis
  moreover have "show_nat n \<noteq> ''+''" "show_nat n \<noteq> ''-''"
    using show_nat_not_mem(3,7) [of n] by (metis list.set_intros(1))+
  ultimately show ?thesis
    by (simp add: from_str_radix_def parse_digits_show_nat)
qed

lemma parse_u8_show [simp]: "parse_u8 (show_nat (unat b)) = Some b"
  by (simp add: parse_u8_def from_str_radix_show_nat)

lemma parse_u16_show [simp]: "parse_u16 (show_nat (unat w)) = Some w"
  by (simp add: parse_u16_def from_str_radix_show_nat)

lemma parse_u32_show [simp]: "parse_u32 (show_nat (unat w)) = Some w"
  by (simp add: parse_u32_def from_str_radix_show_nat)

lemma show_nat_inject: "show_nat m = show_nat n \<longleftrightarrow> m = n"
proof
  assume "show_nat m = show_nat n"
  then have "from_str_radix 10 (max m n) (show_nat m) = from_str_radix 10 (max m n) (show_nat n)"
    by simp
  then show "m = n" by (simp add: from_str_radix_show_nat)
qed simp

lemma parse_digits_bound: "parse_digits r lim a s = Some v \<Longrightarrow> a \<le> lim \<Longrightarrow> v \<le> lim"
  by (induction s arbitrary: a) (auto split: option.splits if_splits)

lemma from_str_radix_bound: "from_str_radix r lim s = Some v \<Longrightarrow> v \<le> lim"
  by (auto simp: from_str_radix_def split: if_splits dest: parse_digits_bound)

section \<open>Bytes and text\<close>

lemma length_str_bytes [simp]: "length (str_bytes s) = length s"
  by (simp add: str_bytes_def)

lemma str_bytes_append [simp]: "str_bytes (s @ t) = str_bytes s @ str_bytes t"
  by (simp add: str_bytes_def)

lemma bytes_str_str_bytes [simp]: "bytes_str (str_bytes s) = s"
  by (induction s) (simp_all add: bytes_str_def str_bytes_def unat_of_nat_u8)

lemma str_bytes_inject [simp]: "str_bytes s = str_bytes t \<longleftrightarrow> s = t"
  by (metis bytes_str_str_bytes)

lemma utf8_step_ascii: "unat b < 128 \<Longrightarrow> utf8_step (b # bs) = (True, 1)"
  by (simp add: utf8_step_def byte_or_0_def)

lemma utf8_lossy_ascii: "list_all (\<lambda>b. unat b < 128) bs \<Longrightarrow> utf8_lossy bs = bs"
  by (induction bs) (subst utf8_lossy.simps, simp add: utf8_step_ascii)+

lemma utf8_lossy_ascii_append:
  "list_all (\<lambda>b. unat b < 128) xs \<Longrightarrow> utf8_lossy (xs @ ys) = xs @ utf8_lossy ys"
  by (induction xs) (simp, subst utf8_lossy.simps, simp add: utf8_step_ascii)

lemma utf8_valid_lossy: "utf8_valid bs \<Longrightarrow> utf8_lossy bs = bs"
proof (induction bs rule: utf8_lossy.induct)
  case (1 bs)
  then show ?case
    by (subst utf8_lossy.simps) (use 1 in \<open>auto simp: utf8_valid.simps [of bs]\<close>)
qed

lemma to_string_lossy_plain: "list_all (\<lambda>c. code c < 128) s \<Longrightarrow> to_string_lossy s = s"
  by (simp add: to_string_lossy_def from_utf8_lossy_def utf8_lossy_ascii list_all_iff str_bytes_def
      unat_of_nat_u8) (use bytes_str_str_bytes [of s] in \<open>simp add: str_bytes_def\<close>)

end
