(* ===== verification/Config.thy ===== *)
theory Config
  imports Rust_Str
begin

text \<open>
  \<open>config.rs\<close>: the constants, the enumerations and the proxy configuration that every
  other component reads.
\<close>

definition LOCAL_PROXY_PORT :: u16 where "LOCAL_PROXY_PORT = 34010"
definition LOCAL_UDP_RELAY_PORT :: u16 where "LOCAL_UDP_RELAY_PORT = 34011"
definition NFQUEUE_NUM :: u16 where "NFQUEUE_NUM = 0"
definition TCP_MARK :: u32 where "TCP_MARK = 1"
definition UDP_MARK :: u32 where "UDP_MARK = 2"
definition PID_CACHE_TTL_MS :: nat where "PID_CACHE_TTL_MS = 10000"
definition CONNECTION_TIMEOUT_MS :: nat where "CONNECTION_TIMEOUT_MS = 60000"
definition CLEANUP_INTERVAL_SECS :: nat where "CLEANUP_INTERVAL_SECS = 30"
definition SOCKS5_VERSION :: u8 where "SOCKS5_VERSION = 5"
definition SOCKS5_AUTH_NONE :: u8 where "SOCKS5_AUTH_NONE = 0"
definition SOCKS5_AUTH_PASSWORD :: u8 where "SOCKS5_AUTH_PASSWORD = 2"
definition SOCKS5_CMD_CONNECT :: u8 where "SOCKS5_CMD_CONNECT = 1"
definition SOCKS5_CMD_UDP_ASSOCIATE :: u8 where "SOCKS5_CMD_UDP_ASSOCIATE = 3"
definition SOCKS5_ATYP_IPV4 :: u8 where "SOCKS5_ATYP_IPV4 = 1"

lemmas port_consts [eval_defs] = LOCAL_PROXY_PORT_def LOCAL_UDP_RELAY_PORT_def NFQUEUE_NUM_def
  TCP_MARK_def UDP_MARK_def

lemmas time_consts [eval_defs] = PID_CACHE_TTL_MS_def CONNECTION_TIMEOUT_MS_def
  CLEANUP_INTERVAL_SECS_def

lemmas socks5_consts [eval_defs] = SOCKS5_VERSION_def SOCKS5_AUTH_NONE_def
  SOCKS5_AUTH_PASSWORD_def SOCKS5_CMD_CONNECT_def SOCKS5_CMD_UDP_ASSOCIATE_def
  SOCKS5_ATYP_IPV4_def

datatype proxy_type = Http | Socks5

datatype rule_action = Proxy | Direct | Block

datatype rule_protocol = Tcp | Udp | Both

record proxy_config =
  proxy_type :: proxy_type
  host :: string
  port :: u16
  username :: "string option"
  password :: "string option"
  resolved_ip :: "u32 option"

definition proxy_config_new :: "proxy_type \<Rightarrow> string \<Rightarrow> u16 \<Rightarrow> proxy_config" where
  "proxy_config_new t h p =
     \<lparr>proxy_type = t, host = h, port = p, username = None, password = None, resolved_ip = None\<rparr>"

definition has_auth :: "proxy_config \<Rightarrow> bool" where
  "has_auth cfg = (username cfg \<noteq> None \<and> password cfg \<noteq> None)"

definition proxy_config_default :: proxy_config where
  "proxy_config_default =
     \<lparr>proxy_type = Socks5, host = ''127.0.0.1'', port = 4444, username = None,
      password = None, resolved_ip = None\<rparr>"

lemmas config_defs [eval_defs] = proxy_config_new_def has_auth_def proxy_config_default_def

text \<open>The values of a field are the constructors of the datatype: executable equality.\<close>

lemma proxy_type_cases: "t \<noteq> Socks5 \<longleftrightarrow> t = Http"
  by (cases t) auto

lemma rule_action_cases: "a \<noteq> Proxy \<longleftrightarrow> a = Direct \<or> a = Block"
  by (cases a) auto

text \<open>
  A total order on the actions by how much traffic they let through unproxied, so that the
  library's order facts apply: \<open>Block < Proxy < Direct\<close>.
\<close>

fun exposure :: "rule_action \<Rightarrow> nat" where
  "exposure Block = 0"
| "exposure Proxy = 1"
| "exposure Direct = 2"

lemma exposure_inject: "exposure a = exposure b \<longleftrightarrow> a = b"
  by (cases a; cases b) simp_all

instantiation rule_action :: linorder
begin

definition less_eq_rule_action :: "rule_action \<Rightarrow> rule_action \<Rightarrow> bool" where
  "less_eq_rule_action a b = (exposure a \<le> exposure b)"

definition less_rule_action :: "rule_action \<Rightarrow> rule_action \<Rightarrow> bool" where
  "less_rule_action a b = (exposure a < exposure b)"

instance
  by standard (auto simp: less_eq_rule_action_def less_rule_action_def exposure_inject)

end

end
