(* ===== verification/Patterns.thy ===== *)
theory Patterns
  imports Str_Facts Config
begin

text \<open>
  The pattern matchers of \<open>rule.rs\<close>: process names, IPv4 addresses, ports, the lists of
  each, and the address helpers. The locale \<open>pattern_list\<close> is the contract the three list
  matchers share; the rule engine uses only that contract and the single-pattern matchers.
\<close>

section \<open>The matchers of the code\<close>

definition match_process_pattern :: "string \<Rightarrow> string \<Rightarrow> bool" where
  "match_process_pattern pattern process_full_path =
     (if pattern = ''*'' then True
      else
        let filename = rsplit_next_or (\<lambda>c. c = CHR ''/'') process_full_path;
            is_full_path_pattern = (CHR ''/'' \<in> set pattern);
            match_target = (if is_full_path_pattern then process_full_path else filename)
        in if ends_with_char CHR ''*'' pattern then
             let prefix = take (length pattern - 1) pattern
             in (case str_get_to match_target (length prefix) of
                   None \<Rightarrow> False
                 | Some s \<Rightarrow> eq_ignore_ascii_case s prefix)
           else if starts_with_char CHR ''*'' pattern then
             let suffix = drop 1 pattern
             in (case str_get_from match_target (length match_target - length suffix) of
                   None \<Rightarrow> False
                 | Some s \<Rightarrow> eq_ignore_ascii_case s suffix)
           else eq_ignore_ascii_case match_target pattern)"

definition match_process_list :: "string \<Rightarrow> string \<Rightarrow> bool" where
  "match_process_list process_list process_name =
     (if process_list = ''*'' then True
      else list_ex (\<lambda>pattern. match_process_pattern (trim pattern) process_name)
             (str_split (\<lambda>c. c = CHR '';'') process_list))"

definition ip_octets :: "u32 \<Rightarrow> u8 list" where
  "ip_octets ip =
     [ucast (ip AND 0xFF), ucast (drop_bit 8 ip AND 0xFF),
      ucast (drop_bit 16 ip AND 0xFF), ucast (drop_bit 24 ip AND 0xFF)]"

text \<open>The body of the loop over the four parts: \<open>False\<close> is the early \<open>return false\<close>.\<close>

definition match_octet :: "string \<Rightarrow> u8 \<Rightarrow> bool" where
  "match_octet part octet =
     (if part = ''*'' then True
      else case split_once CHR ''-'' part of
          Some (start_str, end_str) \<Rightarrow>
            (let start = unwrap_or (parse_u8 start_str) 0;
                 finish = unwrap_or (parse_u8 end_str) 0
             in \<not> (octet < start \<or> octet > finish))
        | None \<Rightarrow> (let val = unwrap_or (parse_u8 part) 255 in octet = val))"

fun match_octets :: "string list \<Rightarrow> u8 list \<Rightarrow> bool" where
  "match_octets (part # parts) (octet # octets) =
     (if match_octet part octet then match_octets parts octets else False)"
| "match_octets _ _ = True"

definition match_ip_pattern :: "string \<Rightarrow> u32 \<Rightarrow> bool" where
  "match_ip_pattern pattern ip =
     (if pattern = ''*'' then True
      else let pattern_parts = str_split (\<lambda>c. c = CHR ''.'') pattern
           in if length pattern_parts \<noteq> 4 then False
              else match_octets pattern_parts (ip_octets ip))"

definition match_ip_list :: "string \<Rightarrow> u32 \<Rightarrow> bool" where
  "match_ip_list ip_list ip =
     (if ip_list = [] \<or> ip_list = ''*'' then True
      else list_ex (\<lambda>pattern. match_ip_pattern (trim pattern) ip)
             (str_split (\<lambda>c. c = CHR '';'') ip_list))"

definition match_port_pattern :: "string \<Rightarrow> u16 \<Rightarrow> bool" where
  "match_port_pattern pattern p =
     (if pattern = ''*'' then True
      else case split_once CHR ''-'' pattern of
          Some (start_str, end_str) \<Rightarrow>
            (let start = unwrap_or (parse_u16 start_str) 0;
                 finish = unwrap_or (parse_u16 end_str) 0
             in p \<ge> start \<and> p \<le> finish)
        | None \<Rightarrow> (let val = unwrap_or (parse_u16 pattern) 0 in p = val))"

definition port_sep :: "char \<Rightarrow> bool" where
  "port_sep c = (c = CHR '','' \<or> c = CHR '';'')"

definition match_port_list :: "string \<Rightarrow> u16 \<Rightarrow> bool" where
  "match_port_list port_list p =
     (if port_list = [] \<or> port_list = ''*'' then True
      else list_ex (\<lambda>pattern. match_port_pattern (trim pattern) p)
             (str_split port_sep port_list))"

definition is_broadcast_or_multicast :: "u32 \<Rightarrow> bool" where
  "is_broadcast_or_multicast ip =
     (let first_octet = (ucast (ip AND 0xFF) :: u8);
          second_octet = (ucast (drop_bit 8 ip AND 0xFF) :: u8)
      in if first_octet = 127 then True
         else if first_octet = 169 \<and> second_octet = 254 then True
         else if ip = 0xFFFFFFFF then True
         else if ip AND 0xFF000000 = 0xFF000000 then True
         else if 224 \<le> first_octet \<and> first_octet \<le> 239 then True
         else False)"

definition format_ip :: "u32 \<Rightarrow> string" where
  "format_ip ip =
     show_nat (unat (ip AND 0xFF)) @ ''.'' @ show_nat (unat (drop_bit 8 ip AND 0xFF)) @ ''.''
     @ show_nat (unat (drop_bit 16 ip AND 0xFF)) @ ''.'' @ show_nat (unat (drop_bit 24 ip AND 0xFF))"

lemmas pattern_defs [eval_defs] = match_process_pattern_def match_process_list_def ip_octets_def
  match_octet_def match_ip_pattern_def match_ip_list_def match_port_pattern_def port_sep_def
  match_port_list_def is_broadcast_or_multicast_def format_ip_def

section \<open>Octets\<close>

lemma and_FF: "(w :: u32) AND 0xFF = take_bit 8 w"
  by (simp add: take_bit_eq_mask mask_eq_exp_minus_1)

lemma unat_and_FF: "unat ((w :: u32) AND 0xFF) = unat w mod 256"
  by (simp add: and_FF unsigned_take_bit_eq) (simp add: take_bit_eq_mod)

lemma unat_drop_u32: "unat (drop_bit n (w :: u32)) = unat w div 2 ^ n"
  by (simp only: unat_drop_bit_eq) (simp add: drop_bit_eq_div)

lemma ucast_and_FF: "(ucast ((w :: u32) AND 0xFF) :: u8) = word_of_nat (unat w)"
  by (rule word_unat_eq_iff [THEN iffD2])
    (simp only: unsigned_ucast_eq unat_and_FF unat_of_nat_u8, simp add: take_bit_eq_mod)

lemma ip_octets_ne_bytes: "ip_octets ip = u32_to_ne_bytes ip"
  by (simp add: ip_octets_def u32_to_ne_bytes_eq ucast_and_FF unat_drop_u32)

lemma length_ip_octets [simp]: "length (ip_octets ip) = 4"
  by (simp add: ip_octets_def)

lemma ip_octets_inject: "ip_octets a = ip_octets b \<longleftrightarrow> a = b"
  by (metis ip_octets_ne_bytes u32_ne_roundtrip option.inject)

lemma ip_octets_surj: "length os = 4 \<Longrightarrow> \<exists>ip. ip_octets ip = os"
  using u32_from_ne_bytes_Some_iff [of os] by (auto simp: ip_octets_ne_bytes dest: u32_bytes_roundtrip)

lemma format_ip_octets:
  "format_ip ip = str_join CHR ''.'' (map (\<lambda>b. show_nat (unat b)) (ip_octets ip))"
  by (simp add: format_ip_def ip_octets_def unsigned_ucast_eq unat_and_FF take_bit_eq_mod)

end
