(* ===== verification/Pattern_Props.thy ===== *)
theory Pattern_Props
  imports Patterns
begin

text \<open>
  What the pattern matchers promise: the contract of a pattern list (a locale, interpreted
  for processes, addresses and ports), an abstract meaning of address and port patterns
  that the text matchers refine, and the cases where a malformed pattern surprises.
\<close>

section \<open>The contract of a pattern list\<close>

locale pattern_list =
  fixes match_list :: "string \<Rightarrow> 'a \<Rightarrow> bool"
    and match_pat :: "string \<Rightarrow> 'a \<Rightarrow> bool"
    and is_sep :: "char \<Rightarrow> bool"
    and sep :: char
  assumes sep: "is_sep sep"
    and sep_not_star: "\<not> is_sep CHR ''*''"
    and star_list: "match_list ''*'' x"
    and star_pat: "match_pat ''*'' x"
    and split_list: "l \<noteq> [] \<Longrightarrow> l \<noteq> ''*'' \<Longrightarrow>
      match_list l x \<longleftrightarrow> (\<exists>w \<in> set (str_split is_sep l). match_pat (trim w) x)"
begin

lemma trim_star: "trim ''*'' = ''*''"
  by (rule trim_plain) (simp add: plain_char_def ws_ascii_def)

lemma match_list_pieces:
  assumes "l \<noteq> []"
  shows "match_list l x \<longleftrightarrow> (\<exists>w \<in> set (str_split is_sep l). match_pat (trim w) x)"
proof (cases "l = ''*''")
  case True
  have "str_split is_sep ''*'' = [''*'']" using sep_not_star by simp
  then show ?thesis by (simp add: True star_list trim_star star_pat)
next
  case False
  with assms show ?thesis by (rule split_list)
qed

text \<open>A list is the union of its parts, whatever their order.\<close>

lemma match_list_append:
  "a \<noteq> [] \<Longrightarrow> b \<noteq> [] \<Longrightarrow> match_list (a @ sep # b) x \<longleftrightarrow> match_list a x \<or> match_list b x"
  using sep by (simp add: match_list_pieces str_split_append_sep bex_Un)

lemma match_list_comm:
  "a \<noteq> [] \<Longrightarrow> b \<noteq> [] \<Longrightarrow> match_list (a @ sep # b) x \<longleftrightarrow> match_list (b @ sep # a) x"
  by (auto simp: match_list_append)

lemma match_list_join:
  assumes ne: "ws \<noteq> []"
    and ok: "\<And>w. w \<in> set ws \<Longrightarrow> plain w \<and> w \<noteq> [] \<and> (\<forall>c \<in> set w. \<not> is_sep c)"
  shows "match_list (str_join sep ws) x \<longleftrightarrow> (\<exists>w \<in> set ws. match_pat w x)"
proof -
  have "str_join sep ws \<noteq> []" using ne ok by (intro str_join_nonempty) auto
  moreover have "str_split is_sep (str_join sep ws) = ws"
    using sep ne ok by (intro str_split_join) auto
  ultimately show ?thesis using ok by (simp add: match_list_pieces cong: bex_cong)
qed

end

interpretation procs: pattern_list match_process_list match_process_pattern "\<lambda>c. c = CHR '';''" "CHR '';''"
  by unfold_locales (auto simp: match_process_list_def match_process_pattern_def list_ex_iff)

interpretation hosts: pattern_list match_ip_list match_ip_pattern "\<lambda>c. c = CHR '';''" "CHR '';''"
  by unfold_locales (auto simp: match_ip_list_def match_ip_pattern_def list_ex_iff)

interpretation ports: pattern_list match_port_list match_port_pattern port_sep "CHR '',''"
  by unfold_locales (auto simp: match_port_list_def match_port_pattern_def list_ex_iff port_sep_def)

section \<open>Process names\<close>

definition file_name :: "string \<Rightarrow> string" where
  "file_name path = rsplit_next_or (\<lambda>c. c = CHR ''/'') path"

lemma file_name_append: "file_name (dir @ CHR ''/'' # f) = file_name f"
  by (simp add: file_name_def rsplit_next_or_append)

lemma file_name_plain: "CHR ''/'' \<notin> set f \<Longrightarrow> file_name f = f"
  unfolding file_name_def by (rule rsplit_next_or_plain) auto

text \<open>What a pattern is compared with: the whole path when it has a slash, else the file name.\<close>

definition pattern_target :: "string \<Rightarrow> string \<Rightarrow> string" where
  "pattern_target pattern path = (if CHR ''/'' \<in> set pattern then path else file_name path)"

lemma match_process_exact:
  assumes "pattern \<noteq> []" and "hd pattern \<noteq> CHR ''*''" and "last pattern \<noteq> CHR ''*''"
  shows "match_process_pattern pattern path \<longleftrightarrow>
    eq_ignore_ascii_case (pattern_target pattern path) pattern"
  using assms
  by (auto simp: match_process_pattern_def pattern_target_def file_name_def ends_with_char_def
      starts_with_char_def Let_def)

lemma match_process_prefix:
  assumes "p \<noteq> []"
  shows "match_process_pattern (p @ ''*'') path \<longleftrightarrow>
    (\<exists>a b. pattern_target p path = a @ b \<and> eq_ignore_ascii_case a p \<and>
       (b = [] \<or> \<not> is_cont_byte (hd b)))"
proof -
  let ?t = "pattern_target p path"
  have "match_process_pattern (p @ ''*'') path \<longleftrightarrow>
      is_char_boundary ?t (length p) \<and> eq_ignore_ascii_case (take (length p) ?t) p"
    using assms
    by (auto simp: match_process_pattern_def pattern_target_def file_name_def ends_with_char_def
        Let_def str_get_to_def append_eq_Cons_conv)
  also have "\<dots> \<longleftrightarrow> (\<exists>a b. ?t = a @ b \<and> eq_ignore_ascii_case a p \<and> (b = [] \<or> \<not> is_cont_byte (hd b)))"
    (is "?l \<longleftrightarrow> ?r")
  proof
    assume l: ?l
    then have len: "length p \<le> length ?t"
      by (auto dest: eq_ignore_ascii_case_length)
    have "drop (length p) ?t = [] \<or> \<not> is_cont_byte (hd (drop (length p) ?t))"
      using l len assms by (auto simp: is_char_boundary_def hd_drop_conv_nth)
    with l show ?r by (metis append_take_drop_id)
  next
    assume ?r
    then obtain a b where ab: "?t = a @ b" "eq_ignore_ascii_case a p" "b = [] \<or> \<not> is_cont_byte (hd b)"
      by blast
    from ab(2) have "length a = length p" by (rule eq_ignore_ascii_case_length)
    with ab show ?l by (auto simp: is_char_boundary_def nth_append hd_conv_nth)
  qed
  finally show ?thesis .
qed

lemma match_process_suffix:
  assumes "s \<noteq> []" and "last s \<noteq> CHR ''*''"
  shows "match_process_pattern (CHR ''*'' # s) path \<longleftrightarrow>
    (\<exists>a b. pattern_target s path = a @ b \<and> eq_ignore_ascii_case b s \<and>
       (a = [] \<or> \<not> is_cont_byte (hd b)))"
proof -
  let ?t = "pattern_target s path" and ?k = "length (pattern_target s path) - length s"
  have "match_process_pattern (CHR ''*'' # s) path \<longleftrightarrow>
      is_char_boundary ?t ?k \<and> eq_ignore_ascii_case (drop ?k ?t) s"
    using assms
    by (auto simp: match_process_pattern_def pattern_target_def file_name_def ends_with_char_def
        starts_with_char_def Let_def str_get_from_def)
  also have "\<dots> \<longleftrightarrow> (\<exists>a b. ?t = a @ b \<and> eq_ignore_ascii_case b s \<and> (a = [] \<or> \<not> is_cont_byte (hd b)))"
    (is "?l \<longleftrightarrow> ?r")
  proof
    assume l: ?l
    then have "length (drop ?k ?t) = length s" by (auto dest: eq_ignore_ascii_case_length)
    then have "length s \<le> length ?t" by simp
    moreover have "0 < length s" using assms(1) by simp
    ultimately have "take ?k ?t = [] \<or> \<not> is_cont_byte (hd (drop ?k ?t))"
      using l by (auto simp: is_char_boundary_def hd_drop_conv_nth dest: eq_ignore_ascii_case_length)
    with l show ?r by (metis append_take_drop_id)
  next
    assume ?r
    then obtain a b where ab: "?t = a @ b" "eq_ignore_ascii_case b s" "a = [] \<or> \<not> is_cont_byte (hd b)"
      by blast
    from ab(2) have "length b = length s" by (rule eq_ignore_ascii_case_length)
    moreover from this assms(1) have "hd b = b ! 0" by (intro hd_conv_nth) auto
    ultimately show ?l using ab assms(1) by (auto simp: is_char_boundary_def nth_append)
  qed
  finally show ?thesis .
qed

text \<open>
  A pattern between two stars is taken as a prefix pattern whose prefix starts with a star:
  it matches no name that does not itself start with one.
\<close>

lemma match_process_double_star:
  assumes "match_process_pattern (CHR ''*'' # m @ ''*'') path"
  shows "starts_with_char CHR ''*'' (pattern_target m path)"
proof -
  have "match_process_pattern ((CHR ''*'' # m) @ ''*'') path" using assms by simp
  then obtain a b where ab: "pattern_target (CHR ''*'' # m) path = a @ b"
      "eq_ignore_ascii_case a (CHR ''*'' # m)"
    by (subst (asm) match_process_prefix) auto
  then obtain c a' where "a = c # a'" "ascii_lower c = ascii_lower CHR ''*''"
    by (cases a) (auto simp: eq_ignore_ascii_case_def)
  moreover have "ascii_lower c = CHR ''*'' \<Longrightarrow> c = CHR ''*''"
    by (auto simp: ascii_lower_def char_of_eq_iff take_bit_nat_eq_self split: if_splits)
  ultimately show ?thesis
    using ab(1) by (auto simp: pattern_target_def starts_with_char_def ascii_lower_def)
qed

section \<open>Addresses: an abstract meaning and its refinement\<close>

text \<open>What one part of a dotted pattern, and a whole pattern, are meant to denote.\<close>

datatype octet_spec = Any_octet | Exact_octet u8 | Octet_range u8 u8

fun octet_sem :: "octet_spec \<Rightarrow> u8 \<Rightarrow> bool" where
  "octet_sem Any_octet x = True"
| "octet_sem (Exact_octet v) x = (x = v)"
| "octet_sem (Octet_range lo hi) x = (lo \<le> x \<and> x \<le> hi)"

fun show_octet :: "octet_spec \<Rightarrow> string" where
  "show_octet Any_octet = ''*''"
| "show_octet (Exact_octet v) = show_nat (unat v)"
| "show_octet (Octet_range lo hi) = show_nat (unat lo) @ ''-'' @ show_nat (unat hi)"

datatype ip_spec = Any_ip | Dotted octet_spec octet_spec octet_spec octet_spec

fun octet_specs :: "ip_spec \<Rightarrow> octet_spec list" where
  "octet_specs Any_ip = [Any_octet, Any_octet, Any_octet, Any_octet]"
| "octet_specs (Dotted a b c d) = [a, b, c, d]"

definition ip_sem :: "ip_spec \<Rightarrow> u32 \<Rightarrow> bool" where
  "ip_sem s ip = list_all2 octet_sem (octet_specs s) (ip_octets ip)"

fun show_ip_spec :: "ip_spec \<Rightarrow> string" where
  "show_ip_spec Any_ip = ''*''"
| "show_ip_spec (Dotted a b c d) = str_join CHR ''.'' (map show_octet [a, b, c, d])"

lemma show_nat_not_star: "show_nat n \<noteq> ''*''"
proof
  assume "show_nat n = ''*''"
  then have "CHR ''*'' \<in> set (show_nat n)" by simp
  with show_nat_not_mem(4) show False by blast
qed

lemma show_octet_chars:
  "CHR ''.'' \<notin> set (show_octet s)" "CHR '';'' \<notin> set (show_octet s)"
  "plain (show_octet s)" "show_octet s \<noteq> []"
  by (cases s; simp add: plain_char_def ws_ascii_def)+

lemma match_octet_show: "match_octet (show_octet s) x = octet_sem s x"
proof (cases s)
  case (Exact_octet v)
  then show ?thesis
    using split_once_None_iff [of "CHR ''-''" "show_nat (unat v)"]
    by (simp add: match_octet_def show_nat_not_star unwrap_or_def)
next
  case (Octet_range lo hi)
  have "split_once CHR ''-'' (show_octet s) = Some (show_nat (unat lo), show_nat (unat hi))"
    by (simp add: Octet_range split_once_append)
  moreover have "show_octet s \<noteq> ''*''"
    by (auto simp: Octet_range append_eq_Cons_conv)
  ultimately show ?thesis
    by (simp add: Octet_range match_octet_def unwrap_or_def not_less)
qed (simp add: match_octet_def)

lemma match_octets_all2:
  "length ps = length os \<Longrightarrow> match_octets ps os = list_all2 match_octet ps os"
  by (induction ps os rule: match_octets.induct) auto

lemma all2_match_show:
  "list_all2 match_octet (map show_octet ss) os = list_all2 octet_sem ss os"
  by (simp add: list_all2_map1 match_octet_show)

lemma split_dotted:
  "str_split (\<lambda>c. c = CHR ''.'') (show_ip_spec (Dotted a b c d)) = map show_octet [a, b, c, d]"
  unfolding show_ip_spec.simps
  by (rule str_split_join) (auto simp: show_octet_chars)

lemma show_dotted_not_star: "show_ip_spec (Dotted a b c d) \<noteq> ''*''"
  by (auto dest: str_join_singleton_char simp: append_eq_Cons_conv show_octet_chars)

lemma match_ip_pattern_show: "match_ip_pattern (show_ip_spec s) ip = ip_sem s ip"
proof (cases s)
  case Any_ip
  then show ?thesis
    by (simp add: match_ip_pattern_def ip_sem_def ip_octets_def)
next
  case (Dotted a b c d)
  have "match_ip_pattern (show_ip_spec s) ip = match_octets (map show_octet [a, b, c, d]) (ip_octets ip)"
    unfolding Dotted match_ip_pattern_def Let_def split_dotted
    by (simp only: show_dotted_not_star if_False length_map list.size) simp
  also have "\<dots> = list_all2 octet_sem [a, b, c, d] (ip_octets ip)"
    by (subst match_octets_all2) (simp_all only: all2_match_show length_map length_ip_octets, simp)
  finally show ?thesis by (simp add: Dotted ip_sem_def)
qed

lemma show_ip_chars:
  "plain (show_ip_spec s)" "show_ip_spec s \<noteq> []" "CHR '';'' \<notin> set (show_ip_spec s)"
  by (cases s; simp add: show_octet_chars plain_char_def ws_ascii_def)+

definition show_ip_list :: "ip_spec list \<Rightarrow> string" where
  "show_ip_list ss = str_join CHR '';'' (map show_ip_spec ss)"

text \<open>A list of address patterns, printed the way the README writes them and read back by the
  text matcher, matches exactly the addresses that one of the patterns denotes: an exact octet,
  a range or a star in each of the four places.\<close>

theorem address_list_meaning:
  "ss \<noteq> [] \<Longrightarrow> match_ip_list (show_ip_list ss) ip \<longleftrightarrow> (\<exists>s \<in> set ss. ip_sem s ip)"
  unfolding show_ip_list_def
  by (subst hosts.match_list_join) (use show_ip_chars in \<open>auto simp: match_ip_pattern_show\<close>)

theorem address_list_meaning_witness:
  "match_ip_list (show_ip_list [Dotted (Exact_octet 10) Any_octet Any_octet (Octet_range 1 9)]) 0x0500000A"
  by (subst address_list_meaning) (simp_all add: ip_sem_def ip_octets_def)

section \<open>Ports: an abstract meaning and its refinement\<close>

datatype port_spec = Any_port | Exact_port u16 | Port_range u16 u16

fun port_sem :: "port_spec \<Rightarrow> u16 \<Rightarrow> bool" where
  "port_sem Any_port p = True"
| "port_sem (Exact_port v) p = (p = v)"
| "port_sem (Port_range lo hi) p = (lo \<le> p \<and> p \<le> hi)"

fun show_port_spec :: "port_spec \<Rightarrow> string" where
  "show_port_spec Any_port = ''*''"
| "show_port_spec (Exact_port v) = show_nat (unat v)"
| "show_port_spec (Port_range lo hi) = show_nat (unat lo) @ ''-'' @ show_nat (unat hi)"

lemma show_port_chars:
  "plain (show_port_spec s)" "show_port_spec s \<noteq> []" "CHR '';'' \<notin> set (show_port_spec s)"
  "CHR '','' \<notin> set (show_port_spec s)"
  by (cases s; simp add: plain_char_def ws_ascii_def)+

lemma match_port_pattern_show: "match_port_pattern (show_port_spec s) p = port_sem s p"
proof (cases s)
  case (Exact_port v)
  then show ?thesis
    using split_once_None_iff [of "CHR ''-''" "show_nat (unat v)"]
    by (simp add: match_port_pattern_def show_nat_not_star unwrap_or_def)
next
  case (Port_range lo hi)
  have "split_once CHR ''-'' (show_port_spec s) = Some (show_nat (unat lo), show_nat (unat hi))"
    by (simp add: Port_range split_once_append)
  moreover have "show_port_spec s \<noteq> ''*''"
    by (auto simp: Port_range append_eq_Cons_conv)
  ultimately show ?thesis
    by (simp add: Port_range match_port_pattern_def unwrap_or_def)
qed (simp add: match_port_pattern_def)

definition show_port_list :: "port_spec list \<Rightarrow> string" where
  "show_port_list ss = str_join CHR '','' (map show_port_spec ss)"

text \<open>A list of port patterns, printed and read back by the text matcher, matches exactly the
  ports that one of the patterns denotes: a port, an inclusive range or a star.\<close>

theorem port_list_meaning:
  "ss \<noteq> [] \<Longrightarrow> match_port_list (show_port_list ss) p \<longleftrightarrow> (\<exists>s \<in> set ss. port_sem s p)"
  unfolding show_port_list_def
  by (subst ports.match_list_join)
    (use show_port_chars in \<open>auto simp: match_port_pattern_show port_sep_def\<close>)

theorem port_list_meaning_witness:
  "match_port_list (show_port_list [Exact_port 80, Port_range 8000 9000]) 8443
   \<and> \<not> match_port_list (show_port_list [Exact_port 80, Port_range 8000 9000]) 443"
  by (subst (1 2) port_list_meaning) simp_all

section \<open>Patterns of names as a whole\<close>

text \<open>For a name without stars, the pattern itself matches the target ignoring ASCII case;
  followed by a star it matches the targets that begin with it, after a star those that end with
  it, cut at character boundaries. The target is the whole path when the name has a slash and
  the file name otherwise.\<close>

theorem process_pattern_meaning:
  assumes "w \<noteq> []" and "CHR ''*'' \<notin> set w"
  shows "(match_process_pattern w path \<longleftrightarrow> eq_ignore_ascii_case (pattern_target w path) w)
    \<and> (match_process_pattern (w @ ''*'') path \<longleftrightarrow>
      (\<exists>a b. pattern_target w path = a @ b \<and> eq_ignore_ascii_case a w \<and> (b = [] \<or> \<not> is_cont_byte (hd b))))
    \<and> (match_process_pattern (CHR ''*'' # w) path \<longleftrightarrow>
      (\<exists>a b. pattern_target w path = a @ b \<and> eq_ignore_ascii_case b w \<and> (a = [] \<or> \<not> is_cont_byte (hd b))))"
proof -
  have "hd w \<noteq> CHR ''*''" and "last w \<noteq> CHR ''*''"
    using assms hd_in_set [of w] last_in_set [of w] by metis+
  with assms(1) show ?thesis
    by (intro conjI match_process_exact match_process_prefix match_process_suffix)
qed

theorem process_pattern_meaning_witness:
  "match_process_pattern ''FireFox'' ''/usr/bin/firefox''"
proof -
  have "match_process_pattern ''FireFox'' ''/usr/bin/firefox'' \<longleftrightarrow>
      eq_ignore_ascii_case (pattern_target ''FireFox'' ''/usr/bin/firefox'') ''FireFox''"
    by (rule process_pattern_meaning [THEN conjunct1]) simp_all
  then show ?thesis by (simp add: eval_defs pattern_target_def file_name_def)
qed

section \<open>Malformed patterns\<close>

text \<open>An octet that is not a number in range, such as \<open>256\<close>, is not rejected: the pattern
  matches exactly the address that has 255 in its place.\<close>

theorem malformed_octet_means_255:
  assumes "parse_u8 bad = None" and "bad \<noteq> ''*''" and "CHR ''.'' \<notin> set bad" and "CHR ''-'' \<notin> set bad"
  shows "match_ip_pattern (str_join CHR ''.'' (map (\<lambda>b. show_nat (unat b)) [a, b, c] @ [bad])) ip
    \<longleftrightarrow> ip_octets ip = [a, b, c, 255]"
proof -
  let ?ws = "map (\<lambda>b. show_nat (unat b)) [a, b, c] @ [bad]"
  have split: "str_split (\<lambda>c. c = CHR ''.'') (str_join CHR ''.'' ?ws) = ?ws"
    using assms by (intro str_split_join) auto
  have "str_join CHR ''.'' ?ws \<noteq> ''*''"
    by (simp add: append_eq_Cons_conv)
  then have "match_ip_pattern (str_join CHR ''.'' ?ws) ip \<longleftrightarrow> match_octets ?ws (ip_octets ip)"
    unfolding match_ip_pattern_def Let_def split by simp
  also have "\<dots> \<longleftrightarrow> list_all2 match_octet ?ws (ip_octets ip)"
    by (rule match_octets_all2) simp
  also have "\<dots> \<longleftrightarrow> ip_octets ip = [a, b, c, 255]"
  proof -
    have ex: "match_octet (show_nat (unat v)) x \<longleftrightarrow> x = v" for v x
      using match_octet_show [of "Exact_octet v" x] by simp
    have bad: "match_octet bad x \<longleftrightarrow> x = 255" for x
      using assms split_once_None_iff [of "CHR ''-''" bad] by (simp add: match_octet_def unwrap_or_def)
    show ?thesis by (auto simp: ip_octets_def ex bad)
  qed
  finally show ?thesis .
qed

theorem malformed_octet_means_255_witness: "match_ip_pattern ''10.0.0.256'' 0xFF00000A"
proof -
  have "parse_u8 ''256'' = None" by (simp add: eval_defs)
  then have "match_ip_pattern (str_join CHR ''.'' (map (\<lambda>b. show_nat (unat b)) [10, 0, 0 :: u8] @ [''256''])) 0xFF00000A"
    by (subst malformed_octet_means_255) (simp_all add: ip_octets_def)
  moreover have "str_join CHR ''.'' (map (\<lambda>b. show_nat (unat b)) [10, 0, 0 :: u8] @ [''256'']) = ''10.0.0.256''"
    by (simp add: eval_defs)
  ultimately show ?thesis by (simp only:)
qed

text \<open>A pattern between two stars finds no name inside a path.\<close>

lemma double_star_finds_nothing:
  "\<not> starts_with_char CHR ''*'' (pattern_target m path) \<Longrightarrow>
   \<not> match_process_pattern (CHR ''*'' # m @ ''*'') path"
  using match_process_double_star by blast

end
