(* ===== verification/Rule_Engine.thy ===== *)
theory Rule_Engine
  imports Pattern_Props
begin

text \<open>
  The rule engine of \<open>rule.rs\<close>: the rule table, its operations, the matching loop and
  the parser of command-line rules. The lock around the vector makes each operation one
  step; the global counter \<open>NEXT_RULE_ID\<close> is a field of the state. The locale
  \<open>flow_policy\<close> is what the packet processor relies on.
\<close>

record rule =
  rule_id :: u32
  process_name :: string
  target_hosts :: string
  target_ports :: string
  protocol :: rule_protocol
  action :: rule_action
  enabled :: bool

record rule_engine =
  next_rule_id :: u32
  rules :: "rule list"

definition rule_engine_new :: rule_engine where
  "rule_engine_new = \<lparr>next_rule_id = 1, rules = []\<rparr>"

definition rule_engine_default :: rule_engine where
  "rule_engine_default = rule_engine_new"

section \<open>Operations\<close>

definition add_rule ::
  "string \<Rightarrow> string \<Rightarrow> string \<Rightarrow> rule_protocol \<Rightarrow> rule_action \<Rightarrow> rule_engine \<Rightarrow> u32 \<times> rule_engine"
where
  "add_rule pname hosts ports proto act e =
     (if pname = [] then (0, e)
      else let r = \<lparr>rule_id = next_rule_id e,
                    process_name = pname,
                    target_hosts = (if hosts = [] then ''*'' else hosts),
                    target_ports = (if ports = [] then ''*'' else ports),
                    protocol = proto,
                    action = act,
                    enabled = True\<rparr>
           in (rule_id r, e\<lparr>next_rule_id := next_rule_id e + 1, rules := rules e @ [r]\<rparr>))"

definition enable_rule :: "u32 \<Rightarrow> rule_engine \<Rightarrow> bool \<times> rule_engine" where
  "enable_rule i e =
     (if list_ex (\<lambda>r. rule_id r = i) (rules e)
      then (True, e\<lparr>rules := update_first (\<lambda>r. rule_id r = i) (\<lambda>r. r\<lparr>enabled := True\<rparr>) (rules e)\<rparr>)
      else (False, e))"

definition disable_rule :: "u32 \<Rightarrow> rule_engine \<Rightarrow> bool \<times> rule_engine" where
  "disable_rule i e =
     (if list_ex (\<lambda>r. rule_id r = i) (rules e)
      then (True, e\<lparr>rules := update_first (\<lambda>r. rule_id r = i) (\<lambda>r. r\<lparr>enabled := False\<rparr>) (rules e)\<rparr>)
      else (False, e))"

definition delete_rule :: "u32 \<Rightarrow> rule_engine \<Rightarrow> bool \<times> rule_engine" where
  "delete_rule i e =
     (let len_before = length (rules e);
          kept = filter (\<lambda>r. rule_id r \<noteq> i) (rules e)
      in (length kept \<noteq> len_before, e\<lparr>rules := kept\<rparr>))"

definition has_active_rules :: "rule_engine \<Rightarrow> bool" where
  "has_active_rules e = list_ex enabled (rules e)"

definition is_wildcard_process :: "rule \<Rightarrow> bool" where
  "is_wildcard_process r =
     (process_name r = ''*'' \<or> eq_ignore_ascii_case (process_name r) ''ANY'')"

fun match_loop ::
  "rule list \<Rightarrow> rule option \<Rightarrow> string \<Rightarrow> u32 \<Rightarrow> u16 \<Rightarrow> bool \<Rightarrow> rule_action"
where
  "match_loop [] wildcard_rule pname ip p is_udp =
     (case wildcard_rule of Some r \<Rightarrow> action r | None \<Rightarrow> Direct)"
| "match_loop (r # rs) wildcard_rule pname ip p is_udp =
     (if \<not> enabled r then match_loop rs wildcard_rule pname ip p is_udp
      else if protocol r = Tcp \<and> is_udp then match_loop rs wildcard_rule pname ip p is_udp
      else if protocol r = Udp \<and> \<not> is_udp then match_loop rs wildcard_rule pname ip p is_udp
      else if is_wildcard_process r then
        (let has_ip_filter = (target_hosts r \<noteq> ''*'');
             has_port_filter = (target_ports r \<noteq> ''*'')
         in if has_ip_filter \<or> has_port_filter then
              (if match_ip_list (target_hosts r) ip \<and> match_port_list (target_ports r) p
               then action r
               else match_loop rs wildcard_rule pname ip p is_udp)
            else match_loop rs (if wildcard_rule = None then Some r else wildcard_rule)
                   pname ip p is_udp)
      else if match_process_list (process_name r) pname
              \<and> match_ip_list (target_hosts r) ip
              \<and> match_port_list (target_ports r) p
           then action r
           else match_loop rs wildcard_rule pname ip p is_udp)"

definition match_rule :: "rule_engine \<Rightarrow> string \<Rightarrow> u32 \<Rightarrow> u16 \<Rightarrow> bool \<Rightarrow> rule_action" where
  "match_rule e pname ip p is_udp = match_loop (rules e) None pname ip p is_udp"

section \<open>Parsing a rule\<close>

text \<open>
  An error carries the part that is refused as it was given; its text, with the upper case of that
  part, is \<open>rule_message\<close> in \<open>Console\<close>.
\<close>

datatype rule_error = Invalid_rule_format string | Invalid_protocol string | Invalid_action string

definition parse_rule_str ::
  "string \<Rightarrow> rule_error + (string \<times> string \<times> string \<times> rule_protocol \<times> rule_action)"
where
  "parse_rule_str rule_str =
     (let parts = str_split (\<lambda>c. c = CHR '':'') rule_str in
      if length parts \<noteq> 5 then Inl (Invalid_rule_format rule_str)
      else
        let process = (if parts ! 0 = [] then ''*'' else parts ! 0);
            hosts = (if parts ! 1 = [] then ''*'' else parts ! 1);
            ports = (if parts ! 2 = [] then ''*'' else parts ! 2)
        in rbind
             (let u = to_uppercase (parts ! 3) in
              if u = ''TCP'' then Inr Tcp else if u = ''UDP'' then Inr Udp
              else if u = ''BOTH'' then Inr Both else Inl (Invalid_protocol (parts ! 3)))
             (\<lambda>protocol.
           rbind
             (let u = to_uppercase (parts ! 4) in
              if u = ''PROXY'' then Inr Proxy else if u = ''DIRECT'' then Inr Direct
              else if u = ''BLOCK'' then Inr Block else Inl (Invalid_action (parts ! 4)))
             (\<lambda>action. Inr (process, hosts, ports, protocol, action))))"

lemmas engine_defs [eval_defs] = rule_engine_new_def add_rule_def enable_rule_def disable_rule_def
  delete_rule_def has_active_rules_def is_wildcard_process_def match_rule_def parse_rule_str_def

section \<open>The meaning of the table\<close>

text \<open>
  A catch-all rule names no process, host or port; it is consulted last, whatever its place.
  Every other rule that covers the flow decides it, the first of them winning.
\<close>

definition protocol_covers :: "rule_protocol \<Rightarrow> bool \<Rightarrow> bool" where
  "protocol_covers pr is_udp = (pr = Both \<or> (pr = Udp \<longleftrightarrow> is_udp))"

definition catch_all :: "rule \<Rightarrow> bool" where
  "catch_all r = (is_wildcard_process r \<and> target_hosts r = ''*'' \<and> target_ports r = ''*'')"

definition covers :: "string \<Rightarrow> u32 \<Rightarrow> u16 \<Rightarrow> bool \<Rightarrow> rule \<Rightarrow> bool" where
  "covers pname ip p is_udp r =
     (enabled r \<and> protocol_covers (protocol r) is_udp
      \<and> (is_wildcard_process r \<or> match_process_list (process_name r) pname)
      \<and> match_ip_list (target_hosts r) ip \<and> match_port_list (target_ports r) p)"

definition first_action :: "(rule \<Rightarrow> bool) \<Rightarrow> rule list \<Rightarrow> rule_action option" where
  "first_action P rs = map_option action (List.find P rs)"

definition decide :: "rule list \<Rightarrow> string \<Rightarrow> u32 \<Rightarrow> u16 \<Rightarrow> bool \<Rightarrow> rule_action" where
  "decide rs pname ip p is_udp =
     unwrap_or (first_action (\<lambda>r. covers pname ip p is_udp r \<and> \<not> catch_all r) rs)
       (unwrap_or (first_action (\<lambda>r. covers pname ip p is_udp r \<and> catch_all r) rs) Direct)"

lemma unwrap_or_simps [simp]: "unwrap_or None d = d" "unwrap_or (Some x) d = x"
  by (simp_all add: unwrap_or_def)

lemma first_action_simps [simp]:
  "first_action P [] = None"
  "first_action P (r # rs) = (if P r then Some (action r) else first_action P rs)"
  by (simp_all add: first_action_def)

lemma first_action_append:
  "first_action P (rs @ ss) = (case first_action P rs of None \<Rightarrow> first_action P ss | Some a \<Rightarrow> Some a)"
  by (induction rs) auto

lemma first_action_None_iff: "first_action P rs = None \<longleftrightarrow> (\<forall>r \<in> set rs. \<not> P r)"
  by (induction rs) auto

lemma first_action_Some: "first_action P rs = Some a \<Longrightarrow> \<exists>r \<in> set rs. P r \<and> action r = a"
  by (induction rs) (auto split: if_splits)

lemma first_action_filter:
  "(\<And>r. r \<in> set rs \<Longrightarrow> P r \<Longrightarrow> Q r) \<Longrightarrow> first_action P (filter Q rs) = first_action P rs"
  by (simp add: first_action_def find_filter)

lemma covers_star: "match_ip_list ''*'' ip" "match_port_list ''*'' p"
  by (rule hosts.star_list, rule ports.star_list)

lemma protocol_skips:
  "protocol_covers pr is_udp \<longleftrightarrow> \<not> (pr = Tcp \<and> is_udp) \<and> \<not> (pr = Udp \<and> \<not> is_udp)"
  by (cases pr) (auto simp: protocol_covers_def)

text \<open>One turn of the loop, in the terms of the meaning.\<close>

lemma match_loop_step:
  "match_loop (r # rs) wc pname ip p is_udp =
     (if covers pname ip p is_udp r \<and> \<not> catch_all r then action r
      else if covers pname ip p is_udp r \<and> wc = None then match_loop rs (Some r) pname ip p is_udp
      else match_loop rs wc pname ip p is_udp)"
  by (auto simp: covers_def catch_all_def protocol_skips covers_star Let_def)

lemma match_loop_decide:
  "match_loop rs wc pname ip p is_udp =
     unwrap_or (first_action (\<lambda>r. covers pname ip p is_udp r \<and> \<not> catch_all r) rs)
       (unwrap_or (map_option action wc)
         (unwrap_or (first_action (\<lambda>r. covers pname ip p is_udp r \<and> catch_all r) rs) Direct))"
proof (induction rs arbitrary: wc)
  case Nil
  then show ?case by (cases wc) simp_all
next
  case (Cons r rs)
  show ?case
    unfolding match_loop_step Cons.IH by (cases wc) auto
qed

lemma match_rule_decide: "match_rule e pname ip p is_udp = decide (rules e) pname ip p is_udp"
  by (simp add: match_rule_def match_loop_decide decide_def)

section \<open>The well-formed table\<close>

definition wf_engine :: "rule_engine \<Rightarrow> bool" where
  "wf_engine e =
     (distinct (map rule_id (rules e))
      \<and> (\<forall>r \<in> set (rules e). 0 < rule_id r \<and> rule_id r < next_rule_id e
           \<and> process_name r \<noteq> [] \<and> target_hosts r \<noteq> [] \<and> target_ports r \<noteq> [])
      \<and> 0 < next_rule_id e)"

lemma wf_engine_new [intro, simp]: "wf_engine rule_engine_new"
  by (simp add: wf_engine_def rule_engine_new_def)

lemma word_succ_less: "(n :: u32) + 1 \<noteq> 0 \<Longrightarrow> n < n + 1"
  using unatSuc [of n] by (simp add: word_less_nat_alt add.commute)

lemma wf_add_rule:
  assumes wf: "wf_engine e" and room: "next_rule_id e + 1 \<noteq> 0"
  shows "wf_engine (snd (add_rule pname hosts ports proto act e))"
proof -
  have up: "next_rule_id e < next_rule_id e + 1"
    using room by (rule word_succ_less)
  have "\<forall>r \<in> set (rules e). rule_id r < next_rule_id e + 1"
    using wf up by (auto simp: wf_engine_def intro: less_trans)
  with wf up show ?thesis
    by (auto simp: wf_engine_def add_rule_def Let_def intro: less_trans)
qed

lemma wf_update_enabled:
  assumes "wf_engine e"
  shows "wf_engine (e\<lparr>rules := update_first (\<lambda>r. rule_id r = i) (\<lambda>r. r\<lparr>enabled := b\<rparr>) (rules e)\<rparr>)"
proof -
  have "map rule_id (update_first (\<lambda>r. rule_id r = i) (\<lambda>r. r\<lparr>enabled := b\<rparr>) (rules e))
      = map rule_id (rules e)"
    by (rule map_update_first) simp
  then show ?thesis
    using assms set_update_first [of "\<lambda>r. rule_id r = i" "\<lambda>r. r\<lparr>enabled := b\<rparr>" "rules e"]
    by (auto simp: wf_engine_def dest!: subsetD)
qed

lemma wf_enable_rule: "wf_engine e \<Longrightarrow> wf_engine (snd (enable_rule i e))"
  by (simp add: enable_rule_def wf_update_enabled)

lemma wf_disable_rule: "wf_engine e \<Longrightarrow> wf_engine (snd (disable_rule i e))"
  by (simp add: disable_rule_def wf_update_enabled)

lemma wf_delete_rule: "wf_engine e \<Longrightarrow> wf_engine (snd (delete_rule i e))"
  by (auto simp: wf_engine_def delete_rule_def Let_def distinct_map_filter)

section \<open>The interface the packet processor relies on\<close>

text \<open>
  A policy decides flows and can tell that it is idle; an idle policy decides \<open>Direct\<close>.
\<close>

locale flow_policy =
  fixes active :: "'s \<Rightarrow> bool"
    and verdict_of :: "'s \<Rightarrow> string \<Rightarrow> u32 \<Rightarrow> u16 \<Rightarrow> bool \<Rightarrow> rule_action"
  assumes idle_direct: "\<not> active s \<Longrightarrow> verdict_of s pname ip p is_udp = Direct"
begin

lemma not_direct_active: "verdict_of s pname ip p is_udp \<noteq> Direct \<Longrightarrow> active s"
  using idle_direct by blast

end

lemma inactive_covers: "\<not> has_active_rules e \<Longrightarrow> r \<in> set (rules e) \<Longrightarrow> \<not> covers pname ip p is_udp r"
  by (auto simp: has_active_rules_def list_ex_iff covers_def)

lemma inactive_direct: "\<not> has_active_rules e \<Longrightarrow> match_rule e pname ip p is_udp = Direct"
proof -
  assume "\<not> has_active_rules e"
  then have "first_action (\<lambda>r. covers pname ip p is_udp r \<and> \<not> catch_all r) (rules e) = None"
    "first_action (\<lambda>r. covers pname ip p is_udp r \<and> catch_all r) (rules e) = None"
    unfolding first_action_None_iff using inactive_covers by blast+
  then show ?thesis by (simp add: match_rule_decide decide_def)
qed

interpretation engine: flow_policy has_active_rules match_rule
  by unfold_locales (rule inactive_direct)

section \<open>Editing the table and deciding flows\<close>

lemma covers_disabled [simp]: "\<not> covers pname ip p is_udp (r\<lparr>enabled := False\<rparr>)"
  by (simp add: covers_def)

lemma first_action_disable:
  "distinct (map rule_id rs) \<Longrightarrow> (\<And>r. \<not> P (r\<lparr>enabled := False\<rparr>)) \<Longrightarrow>
   first_action P (update_first (\<lambda>r. rule_id r = i) (\<lambda>r. r\<lparr>enabled := False\<rparr>) rs)
     = first_action P (filter (\<lambda>r. rule_id r \<noteq> i) rs)"
proof (induction rs)
  case (Cons r rs)
  show ?case
  proof (cases "rule_id r = i")
    case True
    then have "filter (\<lambda>r. rule_id r \<noteq> i) rs = rs"
      using Cons.prems(1) True by (auto simp: filter_id_conv image_iff)
    with True Cons.prems(2) show ?thesis by simp
  next
    case False
    with Cons show ?thesis by simp
  qed
qed simp

lemma disable_found_iff_delete_found:
  "fst (disable_rule i e) = fst (delete_rule i e)"
proof -
  have "length (filter (\<lambda>r. rule_id r \<noteq> i) rs) \<noteq> length rs \<longleftrightarrow> list_ex (\<lambda>r. rule_id r = i) rs" for rs
    using filter_True [of rs "\<lambda>r. rule_id r \<noteq> i"] length_filter_less [of _ rs "\<lambda>r. rule_id r \<noteq> i"]
    by (fastforce simp: list_ex_iff)
  from this [of "rules e"] show ?thesis
    by (auto simp: disable_rule_def delete_rule_def Let_def)
qed

text \<open>C17: in a well-formed table, disabling a rule and deleting it are the same to every flow, and
  both report the same about whether the rule was there.\<close>

theorem disable_equals_delete:
  assumes "wf_engine e"
  shows "match_rule (snd (disable_rule i e)) pname ip p is_udp
       = match_rule (snd (delete_rule i e)) pname ip p is_udp
    \<and> fst (disable_rule i e) = fst (delete_rule i e)"
proof (cases "list_ex (\<lambda>r. rule_id r = i) (rules e)")
  case True
  have "distinct (map rule_id (rules e))" using assms by (simp add: wf_engine_def)
  then have "match_rule (snd (disable_rule i e)) pname ip p is_udp
       = match_rule (snd (delete_rule i e)) pname ip p is_udp"
    using True
    by (simp add: disable_rule_def delete_rule_def match_rule_decide decide_def Let_def
        first_action_disable)
  then show ?thesis using disable_found_iff_delete_found by blast
next
  case False
  then have "filter (\<lambda>r. rule_id r \<noteq> i) (rules e) = rules e"
    by (auto simp: list_ex_iff filter_id_conv)
  with False show ?thesis
    by (simp add: disable_rule_def delete_rule_def Let_def)
qed

definition two_rules :: rule_engine where
  "two_rules = \<lparr>next_rule_id = 3, rules =
     [\<lparr>rule_id = 1, process_name = ''curl'', target_hosts = ''*'', target_ports = ''*'',
       protocol = Tcp, action = Proxy, enabled = True\<rparr>,
      \<lparr>rule_id = 2, process_name = ''*'', target_hosts = ''*'', target_ports = ''*'',
       protocol = Both, action = Block, enabled = True\<rparr>]\<rparr>"

lemma wf_two_rules [simp]: "wf_engine two_rules"
  by (simp add: wf_engine_def two_rules_def)

theorem disable_equals_delete_witness:
  "match_rule (snd (disable_rule 2 two_rules)) ''/bin/wget'' 0x0500000A 80 False
     = match_rule (snd (delete_rule 2 two_rules)) ''/bin/wget'' 0x0500000A 80 False"
  by (rule disable_equals_delete [THEN conjunct1]) simp

lemma update_first_enable_disable:
  "distinct (map rule_id rs) \<Longrightarrow> (\<And>r. r \<in> set rs \<Longrightarrow> rule_id r = i \<Longrightarrow> enabled r) \<Longrightarrow>
   update_first (\<lambda>r. rule_id r = i) (\<lambda>r. r\<lparr>enabled := True\<rparr>)
     (update_first (\<lambda>r. rule_id r = i) (\<lambda>r. r\<lparr>enabled := False\<rparr>) rs) = rs"
  by (induction rs) auto

lemma list_ex_update_first:
  "(\<And>r. q (f r) \<longleftrightarrow> q r) \<Longrightarrow> list_ex q (update_first p f rs) \<longleftrightarrow> list_ex q rs"
  by (induction rs) auto

lemma disable_enable:
  assumes "wf_engine e" and "\<And>r. r \<in> set (rules e) \<Longrightarrow> rule_id r = i \<Longrightarrow> enabled r"
  shows "snd (enable_rule i (snd (disable_rule i e))) = e"
proof (cases "list_ex (\<lambda>r. rule_id r = i) (rules e)")
  case True
  have "distinct (map rule_id (rules e))" using assms(1) by (simp add: wf_engine_def)
  then show ?thesis
    using True assms(2)
    by (simp add: disable_rule_def enable_rule_def update_first_enable_disable list_ex_update_first)
next
  case False
  then show ?thesis by (simp add: disable_rule_def enable_rule_def)
qed

text \<open>A new rule is last: it decides only flows that nothing specific decides already.\<close>

lemma add_rule_rules:
  "pname' \<noteq> [] \<Longrightarrow> rules (snd (add_rule pname' hosts ports proto act e)) = rules e @
     [\<lparr>rule_id = next_rule_id e, process_name = pname',
       target_hosts = (if hosts = [] then ''*'' else hosts),
       target_ports = (if ports = [] then ''*'' else ports),
       protocol = proto, action = act, enabled = True\<rparr>]"
  by (simp add: add_rule_def Let_def)

lemma decide_append_specific:
  "first_action (\<lambda>r. covers pname ip p is_udp r \<and> \<not> catch_all r) rs = Some a \<Longrightarrow>
   decide (rs @ ss) pname ip p is_udp = a"
  by (simp add: decide_def first_action_append)

lemma decide_append_uncovered:
  "\<not> covers pname ip p is_udp r \<Longrightarrow> decide (rs @ [r]) pname ip p is_udp = decide rs pname ip p is_udp"
  by (simp add: decide_def first_action_append split: option.split)

text \<open>The place of the only catch-all rule does not matter.\<close>

lemma catch_all_position:
  assumes "catch_all c" and "\<forall>r \<in> set (rs @ ss). \<not> catch_all r"
  shows "decide (rs @ c # ss) pname ip p is_udp = decide (rs @ ss @ [c]) pname ip p is_udp"
proof -
  let ?spec = "\<lambda>r. covers pname ip p is_udp r \<and> \<not> catch_all r"
  let ?all = "\<lambda>r. covers pname ip p is_udp r \<and> catch_all r"
  have "first_action ?spec (rs @ c # ss) = first_action ?spec (rs @ ss @ [c])"
    using assms(1) by (simp add: first_action_append split: option.split)
  moreover have "first_action ?all rs = None" "first_action ?all ss = None"
    using assms(2) by (auto simp: first_action_None_iff)
  then have "first_action ?all (rs @ c # ss) = first_action ?all (rs @ ss @ [c])"
    by (simp add: first_action_append)
  ultimately show ?thesis by (simp add: decide_def)
qed

text \<open>C13: the verdict on a flow is the action of the first enabled rule that covers it and names
  a process, a host or a port; only when there is none, that of the first enabled catch-all rule,
  wherever it stands; and \<open>Direct\<close> when no rule covers the flow.\<close>

theorem rules_decide: "match_rule e pname ip p is_udp = decide (rules e) pname ip p is_udp"
  by (rule match_rule_decide)

text \<open>A catch-all rule is a default: its place in the table does not change any verdict when it
  is the only one, although rules are otherwise first-match.\<close>

theorem catch_all_anywhere:
  assumes "catch_all c" and "\<forall>r \<in> set (rs @ ss). \<not> catch_all r"
  shows "match_rule (e\<lparr>rules := rs @ c # ss\<rparr>) pname ip p is_udp
       = match_rule (e\<lparr>rules := rs @ ss @ [c]\<rparr>) pname ip p is_udp"
  using catch_all_position [OF assms] by (simp add: match_rule_decide)

theorem catch_all_anywhere_witness:
  "match_rule (two_rules\<lparr>rules := [] @ rules two_rules ! 1 # [rules two_rules ! 0]\<rparr>) ''curl'' 0 80 False
   = match_rule (two_rules\<lparr>rules := [] @ [rules two_rules ! 0] @ [rules two_rules ! 1]\<rparr>) ''curl'' 0 80 False"
  by (rule catch_all_anywhere) (simp_all add: two_rules_def catch_all_def eval_defs)

text \<open>A rule added to the table has the lowest priority: every flow that a specific rule
  already decides keeps its verdict.\<close>

theorem added_rule_is_last:
  assumes "first_action (\<lambda>r. covers pname ip p is_udp r \<and> \<not> catch_all r) (rules e) = Some a"
  shows "match_rule (snd (add_rule n hosts ports proto act e)) pname ip p is_udp = a
    \<and> match_rule e pname ip p is_udp = a"
proof -
  have "match_rule e pname ip p is_udp = a"
    using assms by (simp add: match_rule_decide decide_def)
  moreover have "match_rule (snd (add_rule n hosts ports proto act e)) pname ip p is_udp = a" if "n \<noteq> []"
    using assms by (simp only: match_rule_decide add_rule_rules [OF that] decide_append_specific)
  ultimately show ?thesis by (cases "n = []") (simp_all add: add_rule_def)
qed

theorem added_rule_is_last_witness:
  "match_rule (snd (add_rule ''curl'' [] [] Both Block two_rules)) ''curl'' 0 80 False = Proxy"
proof (rule added_rule_is_last [THEN conjunct1])
  have "trim ''curl'' = ''curl''" by (rule trim_plain) (simp add: plain_char_def ws_ascii_def)
  then have "match_process_list ''curl'' ''curl''"
    by (simp add: match_process_list_def match_process_pattern_def rsplit_next_or_def
        ends_with_char_def starts_with_char_def)
  moreover have "\<not> eq_ignore_ascii_case ''curl'' ''ANY''" by (simp add: eq_ignore_ascii_case_def)
  ultimately show "first_action (\<lambda>r. covers ''curl'' 0 80 False r \<and> \<not> catch_all r) (rules two_rules) = Some Proxy"
    by (simp add: two_rules_def covers_def covers_star protocol_covers_def catch_all_def is_wildcard_process_def)
qed

section \<open>Sequences of operations\<close>

datatype engine_op =
    Add_op string string string rule_protocol rule_action
  | Enable_op u32
  | Disable_op u32
  | Delete_op u32

fun apply_op :: "engine_op \<Rightarrow> rule_engine \<Rightarrow> rule_engine" where
  "apply_op (Add_op n hs ps t a) e = snd (add_rule n hs ps t a e)"
| "apply_op (Enable_op i) e = snd (enable_rule i e)"
| "apply_op (Disable_op i) e = snd (disable_rule i e)"
| "apply_op (Delete_op i) e = snd (delete_rule i e)"

lemma apply_op_wf:
  assumes "wf_engine e" and "unat (next_rule_id e) + 1 < 2 ^ 32"
  shows "wf_engine (apply_op op e) \<and> unat (next_rule_id (apply_op op e)) \<le> unat (next_rule_id e) + 1"
proof -
  have s: "unat (next_rule_id e + 1) = unat (next_rule_id e) + 1"
    using assms(2) by (simp add: unat_word_ariths)
  then have "next_rule_id e + 1 \<noteq> 0" by (metis unat_0 add_is_0 one_neq_zero)
  then have "wf_engine (apply_op op e)"
    using assms(1) by (cases op) (simp_all add: wf_add_rule wf_enable_rule wf_disable_rule wf_delete_rule)
  moreover have "unat (next_rule_id (apply_op op e)) \<le> unat (next_rule_id e) + 1"
    using s by (cases op) (simp_all add: add_rule_def enable_rule_def disable_rule_def delete_rule_def Let_def)
  ultimately show ?thesis ..
qed

text \<open>C18: from a well-formed table, any sequence of additions, enablings, disablings and deletions
  keeps it well formed (identifiers distinct, positive and below the next one, no empty field), as
  long as the 32-bit counter does not run out.\<close>

theorem engine_invariant:
  "wf_engine e \<Longrightarrow> unat (next_rule_id e) + length ops < 2 ^ 32 \<Longrightarrow> wf_engine (fold apply_op ops e)"
proof (induction ops arbitrary: e)
  case (Cons op ops)
  have "wf_engine (apply_op op e) \<and> unat (next_rule_id (apply_op op e)) \<le> unat (next_rule_id e) + 1"
    using Cons.prems by (intro apply_op_wf) simp_all
  with Cons show ?case by simp
qed simp

theorem engine_invariant_witness:
  "wf_engine (fold apply_op [Add_op ''curl'' [] ''80'' Tcp Proxy, Disable_op 1, Add_op ''*'' [] [] Both Block,
     Delete_op 1] rule_engine_new)"
  by (rule engine_invariant) (simp_all add: rule_engine_new_def wf_engine_def)

section \<open>Parsing and printing rules\<close>

fun show_protocol :: "rule_protocol \<Rightarrow> string" where
  "show_protocol Tcp = ''TCP''" | "show_protocol Udp = ''UDP''" | "show_protocol Both = ''BOTH''"

fun show_action :: "rule_action \<Rightarrow> string" where
  "show_action Proxy = ''PROXY''" | "show_action Direct = ''DIRECT''" | "show_action Block = ''BLOCK''"

lemma to_uppercase_ascii:
  "list_all (\<lambda>c. code c < 128) s \<Longrightarrow> to_uppercase s = map ascii_upper s"
  by (induction s) auto

lemma parse_rule_fields:
  assumes "CHR '':'' \<notin> set pr" "CHR '':'' \<notin> set h" "CHR '':'' \<notin> set q"
    and "CHR '':'' \<notin> set t" "CHR '':'' \<notin> set a"
  shows "str_split (\<lambda>c. c = CHR '':'') (str_join CHR '':'' [pr, h, q, t, a]) = [pr, h, q, t, a]"
  using assms by (intro str_split_join) auto

lemma parse_rule_str_Inr:
  "parse_rule_str s = Inr (pr, h, q, t, a) \<Longrightarrow> pr \<noteq> [] \<and> h \<noteq> [] \<and> q \<noteq> []"
  by (auto simp: parse_rule_str_def Let_def rbind_eq_Inr split: if_splits)

lemma uppercase_shown:
  "to_uppercase (show_protocol t) = show_protocol t" "to_uppercase (show_action a) = show_action a"
  by (cases t; simp add: eval_defs) (cases a; simp add: eval_defs)

text \<open>A rule written as \<open>process:hosts:ports:protocol:action\<close> is read back as its parts, an
  empty one of the first three standing for a star.\<close>

theorem parse_shown_rule:
  assumes "CHR '':'' \<notin> set pr" "CHR '':'' \<notin> set h" "CHR '':'' \<notin> set q"
  shows "parse_rule_str (str_join CHR '':'' [pr, h, q, show_protocol t, show_action a]) =
    Inr (if pr = [] then ''*'' else pr, if h = [] then ''*'' else h, if q = [] then ''*'' else q, t, a)"
proof -
  have "CHR '':'' \<notin> set (show_protocol t)" "CHR '':'' \<notin> set (show_action a)"
    by (cases t; simp) (cases a; simp)
  with assms have split: "str_split (\<lambda>c. c = CHR '':'')
      (str_join CHR '':'' [pr, h, q, show_protocol t, show_action a]) = [pr, h, q, show_protocol t, show_action a]"
    by (intro parse_rule_fields)
  show ?thesis
    unfolding parse_rule_str_def split
    by (simp add: uppercase_shown Let_def) (cases t; cases a; simp)
qed

theorem parse_shown_rule_witness:
  "parse_rule_str ''curl;wget:10.*.*.*::TCP:PROXY'' = Inr (''curl;wget'', ''10.*.*.*'', ''*'', Tcp, Proxy)"
  using parse_shown_rule [of "''curl;wget''" "''10.*.*.*''" "[]" Tcp Proxy] by simp

end
