(* ===== verification/Cli.thy ===== *)
theory Cli
  imports Rule_Engine
begin

text \<open>
  \<open>proxy-bridge-cli\<close>: the arguments as clap delivers them and the parser of the proxy URL.
\<close>

record cli_args =
  arg_proxy :: string
  arg_rule :: "string list"
  arg_dns_via_proxy :: bool
  arg_verbose :: u8
  arg_cleanup :: bool

text \<open>What clap delivers when no argument is given.\<close>

definition cli_args_default :: cli_args where
  "cli_args_default = \<lparr>arg_proxy = ''socks5://127.0.0.1:4444'', arg_rule = [], arg_dns_via_proxy = True,
     arg_verbose = 0, arg_cleanup = False\<rparr>"

record parsed_proxy =
  pp_type :: proxy_type
  pp_host :: string
  pp_port :: u16
  pp_username :: "string option"
  pp_password :: "string option"

text \<open>As for rules, an error carries the part that is refused as it was given.\<close>

datatype url_error = Invalid_url_format | Invalid_proxy_type string | Missing_host_or_port
  | Invalid_port string | Port_zero

definition parse_scheme :: "string \<Rightarrow> url_error + proxy_type" where
  "parse_scheme scheme =
     (let upper = to_uppercase scheme in
      if upper = ''SOCKS5'' then Inr Socks5
      else if upper = ''HTTP'' then Inr Http
      else Inl (Invalid_proxy_type scheme))"

definition parse_parts :: "proxy_type \<Rightarrow> string list \<Rightarrow> url_error + parsed_proxy" where
  "parse_parts t parts =
     (if length parts < 2 then Inl Missing_host_or_port
      else case parse_u16 (parts ! 1) of
          None \<Rightarrow> Inl (Invalid_port (parts ! 1))
        | Some p \<Rightarrow>
            if p = 0 then Inl Port_zero
            else Inr \<lparr>pp_type = t, pp_host = parts ! 0, pp_port = p,
              pp_username = (if 4 \<le> length parts then Some (parts ! 2) else None),
              pp_password = (if 4 \<le> length parts then Some (parts ! 3) else None)\<rparr>)"

definition parse_proxy_url :: "string \<Rightarrow> url_error + parsed_proxy" where
  "parse_proxy_url url =
     (case str_find ''://'' url of
        None \<Rightarrow> Inl Invalid_url_format
      | Some scheme_end \<Rightarrow>
          let scheme = take scheme_end url;
              rest = drop (scheme_end + 3) url
          in rbind (parse_scheme scheme) (\<lambda>t.
               parse_parts t (str_split (\<lambda>c. c = CHR '':'') rest)))"

lemmas cli_defs [eval_defs] = parse_scheme_def parse_parts_def parse_proxy_url_def

section \<open>What a parsed URL is\<close>

lemma str_find_Some:
  "str_find p s = Some n \<Longrightarrow> \<exists>b. s = take n s @ p @ b \<and> n \<le> length s"
proof (induction p s arbitrary: n rule: str_find.induct)
  case (1 p)
  then show ?case by (auto split: if_splits)
next
  case (2 p c cs)
  show ?case
  proof (cases "starts_with p (c # cs)")
    case True
    with "2.prems" have "n = 0" by simp
    moreover have "c # cs = p @ drop (length p) (c # cs)"
      using True by (metis starts_with_iff append_take_drop_id)
    ultimately show ?thesis by (intro exI [of _ "drop (length p) (c # cs)"]) simp
  next
    case False
    with "2.prems" obtain m where m: "str_find p cs = Some m" "n = Suc m" by auto
    from "2.IH" [OF False m(1)] m(2) show ?thesis by auto
  qed
qed

definition scheme_of :: "proxy_type \<Rightarrow> string" where
  "scheme_of t = (case t of Socks5 \<Rightarrow> ''SOCKS5'' | Http \<Rightarrow> ''HTTP'')"

lemma parse_scheme_Inr: "parse_scheme s = Inr t \<Longrightarrow> to_uppercase s = scheme_of t"
  by (auto simp: parse_scheme_def Let_def scheme_of_def split: if_splits)

lemma parse_parts_Inr:
  "parse_parts t parts = Inr pp \<Longrightarrow>
     pp_type pp = t \<and> 2 \<le> length parts \<and> pp_host pp = parts ! 0
     \<and> parse_u16 (parts ! 1) = Some (pp_port pp) \<and> pp_port pp \<noteq> 0
     \<and> (pp_username pp \<noteq> None \<longleftrightarrow> 4 \<le> length parts) \<and> (pp_password pp \<noteq> None \<longleftrightarrow> 4 \<le> length parts)"
  by (auto simp: parse_parts_def split: if_splits option.splits)

lemma parse_proxy_url_Inr:
  assumes "parse_proxy_url url = Inr pp"
  shows "\<exists>scheme rest. url = scheme @ ''://'' @ rest
    \<and> to_uppercase scheme = scheme_of (pp_type pp)
    \<and> parse_parts (pp_type pp) (str_split (\<lambda>c. c = CHR '':'') rest) = Inr pp"
proof -
  from assms obtain n t where n: "str_find ''://'' url = Some n"
      and t: "parse_scheme (take n url) = Inr t"
      and r: "parse_parts t (str_split (\<lambda>c. c = CHR '':'') (drop (n + 3) url)) = Inr pp"
    by (auto simp: parse_proxy_url_def Let_def rbind_eq_Inr split: option.splits)
  from str_find_Some [OF n] obtain b where u: "url = take n url @ ''://'' @ b" and len: "n \<le> length url"
    by blast
  have k: "length (take n url @ ''://'') = n + 3" using len by simp
  have "drop (length (take n url @ ''://'')) ((take n url @ ''://'') @ b) = b"
    by (simp only: append_eq_conv_conj drop_append) simp
  then have "drop (n + 3) url = b" using u k by (metis append_assoc)
  then show ?thesis
    using u parse_scheme_Inr [OF t] parse_parts_Inr [OF r] r by metis
qed

lemma parse_parts_host: "parse_parts t (str_split (\<lambda>c. c = CHR '':'') s) = Inr pp \<Longrightarrow> CHR '':'' \<notin> set (pp_host pp)"
proof -
  assume "parse_parts t (str_split (\<lambda>c. c = CHR '':'') s) = Inr pp"
  from parse_parts_Inr [OF this] have "pp_host pp \<in> set (str_split (\<lambda>c. c = CHR '':'') s)" by auto
  then show ?thesis using str_split_no_sep [of "pp_host pp"] by blast
qed

text \<open>The URLs of the documentation: without credentials, and with both.\<close>

definition url_of :: "proxy_type \<Rightarrow> string \<Rightarrow> u16 \<Rightarrow> (string \<times> string) option \<Rightarrow> string" where
  "url_of t h p cred =
     (case t of Socks5 \<Rightarrow> ''socks5'' | Http \<Rightarrow> ''http'') @ ''://''
     @ str_join CHR '':'' (h # show_nat (unat p)
         # (case cred of None \<Rightarrow> [] | Some (u, w) \<Rightarrow> [u, w]))"

definition scheme_text :: "proxy_type \<Rightarrow> string" where
  "scheme_text t = (case t of Socks5 \<Rightarrow> ''socks5'' | Http \<Rightarrow> ''http'')"

lemma find_scheme: "str_find ''://'' (scheme_text t @ ''://'' @ s) = Some (length (scheme_text t))"
  by (cases t) (simp_all add: scheme_text_def)

lemma parse_scheme_text: "parse_scheme (scheme_text t) = Inr t"
  by (cases t) (simp_all add: scheme_text_def eval_defs)

lemma parse_url_of:
  assumes "p \<noteq> 0" and "CHR '':'' \<notin> set h"
    and "\<And>u w. cred = Some (u, w) \<Longrightarrow> CHR '':'' \<notin> set u \<and> CHR '':'' \<notin> set w"
  shows "parse_proxy_url (url_of t h p cred) =
    Inr \<lparr>pp_type = t, pp_host = h, pp_port = p,
      pp_username = map_option fst cred, pp_password = map_option snd cred\<rparr>"
proof -
  let ?ws = "h # show_nat (unat p) # (case cred of None \<Rightarrow> [] | Some (u, w) \<Rightarrow> [u, w])"
  define body where "body = str_join CHR '':'' ?ws"
  have split: "str_split (\<lambda>c. c = CHR '':'') body = ?ws"
    unfolding body_def using assms by (intro str_split_join) (auto split: option.splits)
  have url: "url_of t h p cred = scheme_text t @ ''://'' @ body"
    by (simp add: url_of_def body_def scheme_text_def)
  have "drop (length (scheme_text t) + 3) (scheme_text t @ ''://'' @ body) = body" by simp
  moreover have "parse_parts t ?ws = Inr \<lparr>pp_type = t, pp_host = h, pp_port = p,
      pp_username = map_option fst cred, pp_password = map_option snd cred\<rparr>"
    using assms(1) by (cases cred) (auto simp: parse_parts_def)
  ultimately show ?thesis
    unfolding url by (simp only: parse_proxy_url_def find_scheme option.case Let_def) (simp add: parse_scheme_text split)
qed

text \<open>The default URL names the default proxy of \<open>ProxyConfig\<close>.\<close>

lemma default_url_parsed:
  "parse_proxy_url (arg_proxy cli_args_default) =
     Inr \<lparr>pp_type = proxy_type proxy_config_default, pp_host = host proxy_config_default,
       pp_port = port proxy_config_default, pp_username = username proxy_config_default,
       pp_password = password proxy_config_default\<rparr>"
proof -
  have "show_nat (unat (4444 :: u16)) = ''4444''" by (simp add: eval_defs)
  then have "arg_proxy cli_args_default = url_of Socks5 ''127.0.0.1'' 4444 None"
    by (simp add: cli_args_default_def url_of_def)
  then show ?thesis by simp (subst parse_url_of; simp add: proxy_config_default_def)
qed

text \<open>C34: a proxy URL as the documentation writes it, with or without a user name and password, is
  read back as its parts when the port is not zero and no part contains a colon.\<close>

theorem documented_url_parsed:
  assumes "p \<noteq> 0" and "CHR '':'' \<notin> set h"
    and "\<forall>u w. cred = Some (u, w) \<longrightarrow> CHR '':'' \<notin> set u \<and> CHR '':'' \<notin> set w"
  shows "parse_proxy_url (url_of t h p cred) =
    Inr \<lparr>pp_type = t, pp_host = h, pp_port = p,
      pp_username = map_option fst cred, pp_password = map_option snd cred\<rparr>"
  using assms by (intro parse_url_of) auto

theorem documented_url_parsed_witness:
  "parse_proxy_url (url_of Http ''proxy.com'' 8080 (Some (''user'', ''pass''))) =
    Inr \<lparr>pp_type = Http, pp_host = ''proxy.com'', pp_port = 8080, pp_username = Some ''user'',
      pp_password = Some ''pass''\<rparr>"
  by (subst documented_url_parsed) simp_all

end
