(* ===== verification/Netfilter.thy ===== *)
theory Netfilter
  imports Config
begin

text \<open>
  \<open>netfilter.rs\<close>: the netlink batches that install and delete the nftables table, as the
  list of messages the code adds to them, and the loop that reads the kernel's answers. The
  encoding of a batch (nftnl), the socket and the callback runner (mnl) and the kernel are
  not code of the repository: a run of the exchange is described by whether the socket opens
  and accepts the batch and by what each receive and callback answers.
\<close>

section \<open>Objects of a batch\<close>

datatype reg = Reg1

datatype nft_expr =
    Meta_L4Proto
  | Meta_Mark bool
  | Cmp_Eq_u8 u8
  | Cmp_Eq_u32 u32
  | Immediate_u16 u16 reg
  | Queue u16
  | Redir "reg option"

datatype proto_family = Inet
datatype hook = Hook_Out
datatype chain_type = Filter_chain | Nat_chain
datatype chain_policy = Policy_Accept

record nft_table =
  table_name :: string
  table_family :: proto_family

record nft_chain =
  chain_name :: string
  chain_table :: nft_table
  chain_hook :: "hook \<times> int"
  chain_kind :: chain_type
  chain_pol :: chain_policy

record nft_rule =
  rule_chain :: nft_chain
  exprs :: "nft_expr list"

datatype nft_obj = Table_obj nft_table | Chain_obj nft_chain | Rule_obj nft_rule

datatype nft_msg = Add_msg nft_obj | Del_msg nft_obj

definition TABLE_NAME :: string where "TABLE_NAME = ''proxybridge''"

definition table :: nft_table where
  "table = \<lparr>table_name = TABLE_NAME, table_family = Inet\<rparr>"

definition mangle_chain :: nft_chain where
  "mangle_chain = \<lparr>chain_name = ''mangle_output'', chain_table = table, chain_hook = (Hook_Out, -150),
     chain_kind = Filter_chain, chain_pol = Policy_Accept\<rparr>"

definition nat_chain :: nft_chain where
  "nat_chain = \<lparr>chain_name = ''nat_output'', chain_table = table, chain_hook = (Hook_Out, -100),
     chain_kind = Nat_chain, chain_pol = Policy_Accept\<rparr>"

text \<open>\<open>port.to_be()\<close>: the number whose native bytes are the port's bytes in network order.\<close>

definition to_be16 :: "u16 \<Rightarrow> u16" where
  "to_be16 p = push_bit 8 p OR drop_bit 8 p"

definition queue_rule :: "u8 \<Rightarrow> u16 \<Rightarrow> nft_rule" where
  "queue_rule proto queue_num =
     \<lparr>rule_chain = mangle_chain, exprs = [Meta_L4Proto, Cmp_Eq_u8 proto, Queue queue_num]\<rparr>"

definition redir_rule :: "u8 \<Rightarrow> u32 \<Rightarrow> u16 \<Rightarrow> nft_rule" where
  "redir_rule proto mark relay_port =
     \<lparr>rule_chain = nat_chain,
      exprs = [Meta_L4Proto, Cmp_Eq_u8 proto, Meta_Mark False, Cmp_Eq_u32 mark,
               Immediate_u16 (to_be16 relay_port) Reg1, Redir (Some Reg1)]\<rparr>"

definition setup_batch :: "u16 \<Rightarrow> u16 \<Rightarrow> u16 \<Rightarrow> nft_msg list" where
  "setup_batch tcp_relay_port udp_relay_port queue_num =
     [Add_msg (Table_obj table),
      Add_msg (Chain_obj mangle_chain),
      Add_msg (Rule_obj (queue_rule 6 queue_num)),
      Add_msg (Rule_obj (queue_rule 17 queue_num)),
      Add_msg (Chain_obj nat_chain),
      Add_msg (Rule_obj (redir_rule 6 1 tcp_relay_port)),
      Add_msg (Rule_obj (redir_rule 17 2 udp_relay_port))]"

definition cleanup_batch :: "nft_msg list" where
  "cleanup_batch = [Del_msg (Table_obj table)]"

section \<open>The expressions that nftnl does not have\<close>

text \<open>
  \<open>Queue\<close> and \<open>Redir\<close> build their netlink expression themselves: an object of the given name
  from \<open>nftnl_expr_alloc\<close> and at most one attribute. \<open>alloc name\<close> says whether the allocation
  succeeds (a null pointer is a panic), \<open>to_raw\<close> is nftnl's number of a register.
\<close>

datatype expr_attr = NFTNL_EXPR_QUEUE_NUM | NFTNL_EXPR_REDIR_REG_PROTO_MIN

datatype attr_value = Attr_u16 u16 | Attr_u32 u32

record raw_expr =
  raw_name :: string
  raw_attrs :: "(expr_attr \<times> attr_value) list"

text \<open>\<open>CStr::from_bytes_with_nul\<close>: one null byte, at the end.\<close>

definition cstr_from_bytes_with_nul :: "string \<Rightarrow> string option" where
  "cstr_from_bytes_with_nul s =
     (if s \<noteq> [] \<and> last s = char_of (0 :: nat) \<and> char_of (0 :: nat) \<notin> set (butlast s)
      then Some (butlast s) else None)"

definition alloc_expr :: "(string \<Rightarrow> bool) \<Rightarrow> string \<Rightarrow> raw_expr outcome" where
  "alloc_expr alloc bytes =
     (case cstr_from_bytes_with_nul bytes of
        None \<Rightarrow> Panic
      | Some name \<Rightarrow>
          if alloc name then Return \<lparr>raw_name = name, raw_attrs = []\<rparr> else Panic)"

definition queue_to_expr :: "(string \<Rightarrow> bool) \<Rightarrow> u16 \<Rightarrow> raw_expr outcome" where
  "queue_to_expr alloc num =
     obind (alloc_expr alloc (''queue'' @ [char_of (0 :: nat)]))
       (\<lambda>e. Return (e\<lparr>raw_attrs := raw_attrs e @ [(NFTNL_EXPR_QUEUE_NUM, Attr_u16 num)]\<rparr>))"

definition redir_to_expr ::
  "(string \<Rightarrow> bool) \<Rightarrow> (reg \<Rightarrow> u32) \<Rightarrow> reg option \<Rightarrow> raw_expr outcome"
where
  "redir_to_expr alloc to_raw proto_register =
     obind (alloc_expr alloc (''redir'' @ [char_of (0 :: nat)]))
       (\<lambda>e. Return (case proto_register of
            None \<Rightarrow> e
          | Some r \<Rightarrow> e\<lparr>raw_attrs := raw_attrs e @ [(NFTNL_EXPR_REDIR_REG_PROTO_MIN, Attr_u32 (to_raw r))]\<rparr>))"

lemma alloc_expr_name:
  "char_of (0 :: nat) \<notin> set name \<Longrightarrow>
   alloc_expr alloc (name @ [char_of (0 :: nat)])
     = (if alloc name then Return \<lparr>raw_name = name, raw_attrs = []\<rparr> else Panic)"
  by (simp add: alloc_expr_def cstr_from_bytes_with_nul_def)

lemma queue_encoded:
  "queue_to_expr alloc num = (if alloc ''queue''
     then Return \<lparr>raw_name = ''queue'', raw_attrs = [(NFTNL_EXPR_QUEUE_NUM, Attr_u16 num)]\<rparr> else Panic)"
  using alloc_expr_name [of "''queue''" alloc] by (simp add: queue_to_expr_def char_of_def)

lemma redir_encoded:
  "redir_to_expr alloc to_raw r = (if alloc ''redir''
     then Return \<lparr>raw_name = ''redir'',
       raw_attrs = (case r of None \<Rightarrow> [] | Some x \<Rightarrow> [(NFTNL_EXPR_REDIR_REG_PROTO_MIN, Attr_u32 (to_raw x))])\<rparr>
     else Panic)"
  using alloc_expr_name [of "''redir''" alloc] by (simp add: redir_to_expr_def char_of_def split: option.split)

section \<open>The exchange with the kernel\<close>

text \<open>What one turn of the loop meets: a receive error, an empty read, or a callback result.\<close>

datatype nl_answer = Recv_failed | Recv_empty | Cb_ok | Cb_stop | Cb_err "int option"

definition ENOENT :: int where "ENOENT = 2"

datatype nft_error = Socket_open_failed | Batch_send_failed | Receive_failed | Callback_error "int option"

text \<open>An exchange: whether the socket opens, whether the batch is sent, the answers that come.\<close>

record exchange =
  open_ok :: bool
  send_ok :: bool
  answers :: "nl_answer list"

text \<open>The receive call blocks when no further answer comes: \<open>Hang\<close>.\<close>

fun ack_loop :: "nl_answer list \<Rightarrow> (nft_error + unit) outcome" where
  "ack_loop [] = Hang"
| "ack_loop (Recv_failed # xs) = Return (Inl Receive_failed)"
| "ack_loop (Recv_empty # xs) = Return (Inr ())"
| "ack_loop (Cb_ok # xs) = ack_loop xs"
| "ack_loop (Cb_stop # xs) = Return (Inr ())"
| "ack_loop (Cb_err e # xs) =
     (if e = Some ENOENT then Return (Inr ()) else Return (Inl (Callback_error e)))"

text \<open>The batches handed to the kernel are the trace of the run.\<close>

definition send_and_process ::
  "exchange \<Rightarrow> nft_msg list \<Rightarrow> nft_msg list list \<Rightarrow> (nft_error + unit) outcome \<times> nft_msg list list"
where
  "send_and_process x batch sent =
     (if \<not> open_ok x then (Return (Inl Socket_open_failed), sent)
      else if \<not> send_ok x then (Return (Inl Batch_send_failed), sent)
      else (ack_loop (answers x), sent @ [batch]))"

text \<open>\<open>cleanup\<close> ignores the error; it does not return when the exchange does not.\<close>

definition nf_cleanup ::
  "exchange \<Rightarrow> nft_msg list list \<Rightarrow> (nft_error + unit) outcome \<times> nft_msg list list"
where
  "nf_cleanup x sent =
     (case send_and_process x cleanup_batch sent of
        (r, sent') \<Rightarrow> (obind r (\<lambda>_. Return (Inr ())), sent'))"

definition nf_setup ::
  "exchange \<Rightarrow> exchange \<Rightarrow> u16 \<Rightarrow> u16 \<Rightarrow> u16 \<Rightarrow> nft_msg list list
   \<Rightarrow> (nft_error + unit) outcome \<times> nft_msg list list"
where
  "nf_setup x1 x2 tcp_relay_port udp_relay_port queue_num sent =
     (case nf_cleanup x1 sent of
        (Return _, sent1) \<Rightarrow>
          send_and_process x2 (setup_batch tcp_relay_port udp_relay_port queue_num) sent1
      | (r, sent1) \<Rightarrow> (r, sent1))"

lemmas netfilter_defs [eval_defs] = TABLE_NAME_def table_def mangle_chain_def nat_chain_def
  to_be16_def queue_rule_def redir_rule_def setup_batch_def cleanup_batch_def ENOENT_def
  send_and_process_def nf_cleanup_def nf_setup_def

section \<open>Reading a batch\<close>

text \<open>The rules of a batch that redirect a protocol and mark, with the bytes of the port register.\<close>

fun redirect_of :: "nft_msg \<Rightarrow> ((u8 \<times> u32) \<times> bytes) option" where
  "redirect_of (Add_msg (Rule_obj r)) =
     (case exprs r of
        [Meta_L4Proto, Cmp_Eq_u8 proto, Meta_Mark False, Cmp_Eq_u32 mark, Immediate_u16 p Reg1, Redir (Some Reg1)]
          \<Rightarrow> Some ((proto, mark), u16_to_ne_bytes p)
      | _ \<Rightarrow> None)"
| "redirect_of _ = None"

fun queue_of :: "nft_msg \<Rightarrow> (u8 \<times> u16) option" where
  "queue_of (Add_msg (Rule_obj r)) =
     (case exprs r of [Meta_L4Proto, Cmp_Eq_u8 proto, Queue n] \<Rightarrow> Some (proto, n) | _ \<Rightarrow> None)"
| "queue_of _ = None"

definition redirects :: "nft_msg list \<Rightarrow> ((u8 \<times> u32) \<times> bytes) list" where
  "redirects batch = List.map_filter redirect_of batch"

definition queues :: "nft_msg list \<Rightarrow> (u8 \<times> u16) list" where
  "queues batch = List.map_filter queue_of batch"

text \<open>A batch is well formed when each chain and rule comes after what it refers to.\<close>

fun refers_to :: "nft_obj \<Rightarrow> nft_obj option" where
  "refers_to (Table_obj t) = None"
| "refers_to (Chain_obj c) = Some (Table_obj (chain_table c))"
| "refers_to (Rule_obj r) = Some (Chain_obj (rule_chain r))"

fun well_ordered :: "nft_obj list \<Rightarrow> nft_msg list \<Rightarrow> bool" where
  "well_ordered seen [] = True"
| "well_ordered seen (Add_msg obj # ms) =
     ((case refers_to obj of None \<Rightarrow> True | Some q \<Rightarrow> q \<in> set seen) \<and> well_ordered (obj # seen) ms)"
| "well_ordered seen (Del_msg obj # ms) = well_ordered (removeAll obj seen) ms"

lemma setup_batch_well_ordered: "well_ordered [] (setup_batch tp up q)"
  by (simp add: setup_batch_def queue_rule_def redir_rule_def mangle_chain_def nat_chain_def)

text \<open>The register holds the port in network order, which is what the redirect expression reads.\<close>

lemma unat_to_be16: "unat (to_be16 p) = 256 * (unat p mod 256) + unat p div 256"
proof -
  have disj: "push_bit 8 p AND drop_bit 8 p = 0"
    by (rule bit_word_eqI) (auto simp: bit_simps dest: bit_imp_le_length)
  have "to_be16 p = push_bit 8 p + drop_bit 8 p"
    unfolding to_be16_def by (rule disjunctive_add_eq_or [symmetric]) (rule disj)
  moreover have "unat (push_bit 8 p) = 256 * (unat p mod 256)"
  proof -
    have "unat (push_bit 8 p) = take_bit 16 (push_bit 8 (unat p))"
      by (simp only: unsigned_push_bit_eq) simp
    also have "\<dots> = (unat p * 256) mod 65536" by (simp add: push_bit_eq_mult take_bit_eq_mod)
    also have "\<dots> = 256 * (unat p mod 256)" using mult_mod_right [of 256 "unat p" 256] by (simp add: mult.commute)
    finally show ?thesis .
  qed
  moreover have "unat (drop_bit 8 p) = unat p div 256"
    by (subst unat_drop_bit_eq) (simp add: drop_bit_eq_div)
  moreover have "256 * (unat p mod 256) + unat p div 256 < 65536"
  proof -
    have "unat p div 256 < 256" using unat_u16_less [of p] by (simp add: div_less_iff_less_mult)
    moreover have "unat p mod 256 < 256" by simp
    ultimately show ?thesis by linarith
  qed
  ultimately show ?thesis by (simp add: unat_word_ariths)
qed

lemma to_be16_bytes: "u16_to_ne_bytes (to_be16 p) = u16_to_be_bytes p"
proof -
  have a: "unat p div 256 < 256" using unat_u16_less [of p] by (simp add: div_less_iff_less_mult)
  have "(256 * (unat p mod 256) + unat p div 256) div 256 = unat p mod 256" using a by simp
  moreover have "(word_of_nat (256 * (unat p mod 256) + unat p div 256) :: u8) = word_of_nat (unat p div 256)"
    by (rule iffD2 [OF word_unat_eq_iff]) (simp only: unat_of_nat_u8 mod_mult_self3 mod_mult_self4 mod_mult_self2 mod_mult_self1)
  moreover have "(word_of_nat (unat p mod 256) :: u8) = word_of_nat (unat p)"
    by (rule iffD2 [OF word_unat_eq_iff]) (simp only: unat_of_nat_u8 mod_mod_trivial)
  ultimately show ?thesis
    by (simp add: u16_to_ne_bytes_def u16_to_be_bytes_def unat_to_be16)
qed

lemma setup_redirects:
  "redirects (setup_batch tp up q) =
     [((6, 1), u16_to_be_bytes tp), ((17, 2), u16_to_be_bytes up)]"
  by (simp add: redirects_def setup_batch_def redir_rule_def queue_rule_def map_filter_simps to_be16_bytes)

lemma setup_queues: "queues (setup_batch tp up q) = [(6, q), (17, q)]"
  by (simp add: queues_def setup_batch_def redir_rule_def queue_rule_def map_filter_simps)

section \<open>The answers that decide\<close>

text \<open>Everything before the first answer other than \<open>Cb_ok\<close> is skipped, everything after it unread.\<close>

lemma ack_loop_prefix: "ack_loop (replicate n Cb_ok @ xs) = ack_loop xs"
  by (induction n) auto

lemma ack_loop_Hang_iff: "ack_loop xs = Hang \<longleftrightarrow> set xs \<subseteq> {Cb_ok}"
  by (induction xs rule: ack_loop.induct) auto

lemma ack_loop_success_iff:
  "ack_loop xs = Return (Inr ()) \<longleftrightarrow>
   (\<exists>n x ys. xs = replicate n Cb_ok @ x # ys \<and> x \<in> {Recv_empty, Cb_stop, Cb_err (Some ENOENT)})"
  (is "_ \<longleftrightarrow> ?R xs")
proof
  show "ack_loop xs = Return (Inr ()) \<Longrightarrow> ?R xs"
  proof (induction xs rule: ack_loop.induct)
    case (4 xs)
    then obtain n x ys where "xs = replicate n Cb_ok @ x # ys" "x \<in> {Recv_empty, Cb_stop, Cb_err (Some ENOENT)}"
      by auto
    then show ?case by (intro exI [of _ "Suc n"] exI [of _ x] exI [of _ ys]) simp
  next
    case (3 xs)
    show ?case by (intro exI [of _ 0] exI [of _ Recv_empty] exI [of _ xs]) simp
  next
    case (5 xs)
    show ?case by (intro exI [of _ 0] exI [of _ Cb_stop] exI [of _ xs]) simp
  next
    case (6 e xs)
    then show ?case
      by (intro exI [of _ 0] exI [of _ "Cb_err e"] exI [of _ xs]) (simp split: if_splits)
  qed auto
qed (auto simp: ack_loop_prefix)

end
