(* ===== verification/Connection.thy ===== *)
theory Connection
  imports Config
begin

text \<open>
  \<open>connection.rs\<close>: the connection tracker, keyed by source port, and the PID cache with
  its time to live. Both keep time-stamped entries in a hash map; the locale
  \<open>timed_store\<close> is the contract they share, proved once and interpreted for each. Each
  operation runs under its lock, so it is one step; \<open>now\<close> is the reading of
  \<open>Instant::now()\<close> or of \<open>elapsed()\<close> in it.
\<close>

section \<open>The connection tracker\<close>

record connection_info =
  src_ip :: u32
  src_port :: u16
  orig_dest_ip :: u32
  orig_dest_port :: u16
  last_activity :: instant

record connection_tracker =
  connections :: "u16 \<rightharpoonup> connection_info"

definition tracker_new :: connection_tracker where
  "tracker_new = \<lparr>connections = Map.empty\<rparr>"

definition tracker_default :: connection_tracker where
  "tracker_default = tracker_new"

definition tracker_add ::
  "instant \<Rightarrow> u16 \<Rightarrow> u32 \<Rightarrow> u32 \<Rightarrow> u16 \<Rightarrow> connection_tracker \<Rightarrow> connection_tracker"
where
  "tracker_add now sport sip dip dport t =
     t\<lparr>connections := (connections t)(sport \<mapsto>
         \<lparr>src_ip = sip, src_port = sport, orig_dest_ip = dip, orig_dest_port = dport,
          last_activity = now\<rparr>)\<rparr>"

definition tracker_get :: "connection_tracker \<Rightarrow> u16 \<Rightarrow> (u32 \<times> u16) option" where
  "tracker_get t sport =
     map_option (\<lambda>c. (orig_dest_ip c, orig_dest_port c)) (connections t sport)"

definition is_tracked :: "connection_tracker \<Rightarrow> u16 \<Rightarrow> bool" where
  "is_tracked t sport = (connections t sport \<noteq> None)"

definition cleanup_stale :: "instant \<Rightarrow> connection_tracker \<Rightarrow> connection_tracker" where
  "cleanup_stale now t =
     t\<lparr>connections := map_retain
         (\<lambda>_ info. elapsed_ms now (last_activity info) < CONNECTION_TIMEOUT_MS) (connections t)\<rparr>"

definition tracker_clear :: "connection_tracker \<Rightarrow> connection_tracker" where
  "tracker_clear t = t\<lparr>connections := Map.empty\<rparr>"

text \<open>\<open>find_by_dest\<close> walks the map in its iteration order \<open>xs\<close>.\<close>

fun find_by_dest :: "(u16 \<times> connection_info) list \<Rightarrow> u32 \<Rightarrow> u16 \<Rightarrow> u16 option" where
  "find_by_dest [] dip dport = None"
| "find_by_dest ((_, info) # xs) dip dport =
     (if orig_dest_ip info = dip \<and> orig_dest_port info = dport then Some (src_port info)
      else find_by_dest xs dip dport)"

section \<open>The PID cache\<close>

record pid_cache_key =
  key_ip :: u32
  key_port :: u16
  key_udp :: bool

record pid_cache_entry =
  pid :: u32
  timestamp :: instant

record pid_cache =
  cache :: "pid_cache_key \<rightharpoonup> pid_cache_entry"

definition pid_cache_new :: pid_cache where
  "pid_cache_new = \<lparr>cache = Map.empty\<rparr>"

definition pid_cache_default :: pid_cache where
  "pid_cache_default = pid_cache_new"

definition mk_key :: "u32 \<Rightarrow> u16 \<Rightarrow> bool \<Rightarrow> pid_cache_key" where
  "mk_key ip p udp = \<lparr>key_ip = ip, key_port = p, key_udp = udp\<rparr>"

definition pid_get :: "instant \<Rightarrow> pid_cache \<Rightarrow> u32 \<Rightarrow> u16 \<Rightarrow> bool \<Rightarrow> u32 option" where
  "pid_get now c ip p udp =
     Option.bind (cache c (mk_key ip p udp))
       (\<lambda>entry. if elapsed_ms now (timestamp entry) < PID_CACHE_TTL_MS
                then Some (pid entry) else None)"

definition pid_put :: "instant \<Rightarrow> u32 \<Rightarrow> u16 \<Rightarrow> u32 \<Rightarrow> bool \<Rightarrow> pid_cache \<Rightarrow> pid_cache" where
  "pid_put now ip p v udp c =
     c\<lparr>cache := (cache c)(mk_key ip p udp \<mapsto> \<lparr>pid = v, timestamp = now\<rparr>)\<rparr>"

definition pid_cleanup :: "instant \<Rightarrow> pid_cache \<Rightarrow> pid_cache" where
  "pid_cleanup now c =
     c\<lparr>cache := map_retain (\<lambda>_ entry. elapsed_ms now (timestamp entry) < PID_CACHE_TTL_MS) (cache c)\<rparr>"

definition pid_clear :: "pid_cache \<Rightarrow> pid_cache" where
  "pid_clear c = c\<lparr>cache := Map.empty\<rparr>"

lemmas tracker_defs [eval_defs] = tracker_new_def tracker_add_def tracker_get_def is_tracked_def
  cleanup_stale_def tracker_clear_def

lemmas pid_cache_defs [eval_defs] = pid_cache_new_def mk_key_def pid_get_def pid_put_def
  pid_cleanup_def pid_clear_def

lemmas clock_defs [eval_defs] = elapsed_ms_def map_retain_def

lemma mk_key_inject [simp]: "mk_key a b c = mk_key a' b' c' \<longleftrightarrow> a = a' \<and> b = b' \<and> c = c'"
  by (simp add: mk_key_def)

section \<open>The contract of a time-stamped store\<close>

datatype ('k, 'v) store_op = Put instant 'k 'v | Purge instant | Wipe

text \<open>
  \<open>entry s k\<close> is the value stored for \<open>k\<close> with its time stamp. A purge at time \<open>t\<close>
  keeps the entries younger than \<open>ttl\<close> milliseconds.
\<close>

locale timed_store =
  fixes entry :: "'s \<Rightarrow> 'k \<Rightarrow> ('v \<times> instant) option"
    and put :: "instant \<Rightarrow> 'k \<Rightarrow> 'v \<Rightarrow> 's \<Rightarrow> 's"
    and purge :: "instant \<Rightarrow> 's \<Rightarrow> 's"
    and wipe :: "'s \<Rightarrow> 's"
    and ttl :: nat
  assumes entry_put: "entry (put t k v s) k' = (if k' = k then Some (v, t) else entry s k')"
    and entry_purge: "entry (purge t s) k =
      (case entry s k of None \<Rightarrow> None
       | Some (v, t0) \<Rightarrow> if elapsed_ms t t0 < ttl then Some (v, t0) else None)"
    and entry_wipe: "entry (wipe s) k = None"
begin

primrec run1 :: "('k, 'v) store_op \<Rightarrow> 's \<Rightarrow> 's" where
  "run1 (Put t k v) s = put t k v s"
| "run1 (Purge t) s = purge t s"
| "run1 Wipe s = wipe s"

primrec run :: "('k, 'v) store_op list \<Rightarrow> 's \<Rightarrow> 's" where
  "run [] s = s"
| "run (x # xs) s = run xs (run1 x s)"

text \<open>Nothing is invented: an entry found after a run was there before or was put in the run.\<close>

lemma entry_run_origin:
  "entry (run xs s) k = Some (v, t) \<Longrightarrow> entry s k = Some (v, t) \<or> Put t k v \<in> set xs"
proof (induction xs arbitrary: s)
  case (Cons x xs)
  from Cons.prems have "entry (run xs (run1 x s)) k = Some (v, t)" by simp
  then have "entry (run1 x s) k = Some (v, t) \<or> Put t k v \<in> set xs" by (rule Cons.IH)
  then show ?case
    by (cases x) (auto simp: entry_put entry_purge entry_wipe split: if_splits option.splits)
qed simp

text \<open>Nothing fresh is lost: an entry outlives every operation but a later put, a wipe, a late purge.\<close>

fun spares :: "'k \<Rightarrow> instant \<Rightarrow> ('k, 'v) store_op \<Rightarrow> bool" where
  "spares k t (Put t' k' v') = (k' \<noteq> k)"
| "spares k t (Purge t') = (elapsed_ms t' t < ttl)"
| "spares k t Wipe = False"

lemma entry_run_spared:
  "entry s k = Some (v, t) \<Longrightarrow> list_all (spares k t) xs \<Longrightarrow> entry (run xs s) k = Some (v, t)"
proof (induction xs arbitrary: s)
  case (Cons x xs)
  have "entry (run1 x s) k = Some (v, t)"
    using Cons.prems by (cases x) (auto simp: entry_put entry_purge)
  with Cons show ?case by simp
qed simp

text \<open>A purge leaves only entries that are fresh at its time, and purging twice is purging late.\<close>

lemma entry_purge_fresh: "entry (purge t s) k = Some (v, t0) \<Longrightarrow> elapsed_ms t t0 < ttl"
  by (auto simp: entry_purge split: option.splits if_splits)

lemma entry_purge_purge: "t \<le> t' \<Longrightarrow> entry (purge t' (purge t s)) k = entry (purge t' s) k"
  using elapsed_ms_mono [of t t']
  by (auto simp: entry_purge split: option.splits) (metis less_le_not_le order_le_less_trans)

text \<open>
  A reader that checks the age itself cannot tell whether an earlier purge ran.
\<close>

definition fresh_value :: "instant \<Rightarrow> 's \<Rightarrow> 'k \<Rightarrow> 'v option" where
  "fresh_value now s k =
     Option.bind (entry s k) (\<lambda>(v, t). if elapsed_ms now t < ttl then Some v else None)"

lemma fresh_value_purge: "t \<le> now \<Longrightarrow> fresh_value now (purge t s) k = fresh_value now s k"
proof -
  assume "t \<le> now"
  then have "elapsed_ms t t0 \<le> elapsed_ms now t0" for t0 by (rule elapsed_ms_mono)
  then show ?thesis
    by (auto simp: fresh_value_def entry_purge split: option.splits intro: le_less_trans)
qed

lemma fresh_value_put: "fresh_value now (put t k v s) k = (if elapsed_ms now t < ttl then Some v else None)"
  by (simp add: fresh_value_def entry_put)

end

definition tracker_entry :: "connection_tracker \<Rightarrow> u16 \<Rightarrow> ((u32 \<times> u32 \<times> u16) \<times> instant) option" where
  "tracker_entry t sport =
     map_option (\<lambda>c. ((src_ip c, orig_dest_ip c, orig_dest_port c), last_activity c)) (connections t sport)"

definition tracker_put :: "instant \<Rightarrow> u16 \<Rightarrow> u32 \<times> u32 \<times> u16 \<Rightarrow> connection_tracker \<Rightarrow> connection_tracker" where
  "tracker_put now sport v t = (case v of (sip, dip, dport) \<Rightarrow> tracker_add now sport sip dip dport t)"

interpretation tracker: timed_store tracker_entry tracker_put cleanup_stale tracker_clear CONNECTION_TIMEOUT_MS
proof unfold_locales
  show "tracker_entry (tracker_put t k v s) k' = (if k' = k then Some (v, t) else tracker_entry s k')"
    for t k v s k'
    by (cases v) (simp add: tracker_entry_def tracker_put_def tracker_add_def)
  show "tracker_entry (cleanup_stale t s) k =
      (case tracker_entry s k of None \<Rightarrow> None
       | Some (v, t0) \<Rightarrow> if elapsed_ms t t0 < CONNECTION_TIMEOUT_MS then Some (v, t0) else None)"
    for t s k
    by (simp add: tracker_entry_def cleanup_stale_def map_retain_def split: option.split)
  show "tracker_entry (tracker_clear s) k = None" for s k
    by (simp add: tracker_entry_def tracker_clear_def)
qed

definition pid_entry :: "pid_cache \<Rightarrow> pid_cache_key \<Rightarrow> (u32 \<times> instant) option" where
  "pid_entry c k = map_option (\<lambda>e. (pid e, timestamp e)) (cache c k)"

definition pid_put_key :: "instant \<Rightarrow> pid_cache_key \<Rightarrow> u32 \<Rightarrow> pid_cache \<Rightarrow> pid_cache" where
  "pid_put_key now k v c = pid_put now (key_ip k) (key_port k) v (key_udp k) c"

lemma mk_key_fields [simp]: "mk_key (key_ip k) (key_port k) (key_udp k) = k"
  by (simp add: mk_key_def)

interpretation pids: timed_store pid_entry pid_put_key pid_cleanup pid_clear PID_CACHE_TTL_MS
proof unfold_locales
  show "pid_entry (pid_put_key t k v s) k' = (if k' = k then Some (v, t) else pid_entry s k')"
    for t k v s k'
    by (simp add: pid_entry_def pid_put_key_def pid_put_def)
  show "pid_entry (pid_cleanup t s) k =
      (case pid_entry s k of None \<Rightarrow> None
       | Some (v, t0) \<Rightarrow> if elapsed_ms t t0 < PID_CACHE_TTL_MS then Some (v, t0) else None)"
    for t s k
    by (simp add: pid_entry_def pid_cleanup_def map_retain_def split: option.split)
  show "pid_entry (pid_clear s) k = None" for s k
    by (simp add: pid_entry_def pid_clear_def)
qed

section \<open>What the interfaces show of the two stores\<close>

lemma tracker_get_entry:
  "tracker_get t p = Some (dip, dport) \<longleftrightarrow> (\<exists>sip t0. tracker_entry t p = Some ((sip, dip, dport), t0))"
  by (auto simp: tracker_get_def tracker_entry_def)

lemma is_tracked_get: "is_tracked t p \<longleftrightarrow> tracker_get t p \<noteq> None"
  by (simp add: is_tracked_def tracker_get_def)

lemma pid_get_fresh_value: "pid_get now c ip p udp = pids.fresh_value now c (mk_key ip p udp)"
  by (auto simp: pid_get_def pids.fresh_value_def pid_entry_def split: bind_splits)

lemma tracker_get_add [simp]:
  "tracker_get (tracker_add now p sip dip dport t) p' =
     (if p' = p then Some (dip, dport) else tracker_get t p')"
  by (simp add: tracker_get_def tracker_add_def)

lemma tracker_get_new [simp]: "tracker_get tracker_new p = None"
  by (simp add: tracker_get_def tracker_new_def)

lemma tracker_get_clear [simp]: "tracker_get (tracker_clear t) p = None"
  by (simp add: tracker_get_def tracker_clear_def)

text \<open>The key of an entry is its source port.\<close>

definition wf_tracker :: "connection_tracker \<Rightarrow> bool" where
  "wf_tracker t = (\<forall>p info. connections t p = Some info \<longrightarrow> src_port info = p)"

lemma wf_tracker_new [intro, simp]: "wf_tracker tracker_new"
  by (simp add: wf_tracker_def tracker_new_def)

lemma wf_tracker_add [intro]: "wf_tracker t \<Longrightarrow> wf_tracker (tracker_add now p sip dip dport t)"
  by (simp add: wf_tracker_def tracker_add_def)

lemma wf_tracker_cleanup [intro]: "wf_tracker t \<Longrightarrow> wf_tracker (cleanup_stale now t)"
  by (auto simp: wf_tracker_def cleanup_stale_def map_retain_Some)

lemma wf_tracker_clear [intro]: "wf_tracker (tracker_clear t)"
  by (simp add: wf_tracker_def tracker_clear_def)

lemma find_by_dest_Some:
  "find_by_dest xs dip dport = Some p \<Longrightarrow>
   \<exists>k info. (k, info) \<in> set xs \<and> orig_dest_ip info = dip \<and> orig_dest_port info = dport \<and> src_port info = p"
  by (induction xs dip dport rule: find_by_dest.induct) (auto split: if_splits)

lemma find_by_dest_None:
  "find_by_dest xs dip dport = None \<longleftrightarrow>
   (\<forall>(k, info) \<in> set xs. \<not> (orig_dest_ip info = dip \<and> orig_dest_port info = dport))"
  by (induction xs dip dport rule: find_by_dest.induct) auto

lemma find_by_dest_tracked:
  assumes "wf_tracker t" and "is_iteration (connections t) xs"
    and "find_by_dest xs dip dport = Some p"
  shows "tracker_get t p = Some (dip, dport)"
  using find_by_dest_Some [OF assms(3)] is_iteration_mem [OF assms(2)] assms(1)
  by (auto simp: wf_tracker_def tracker_get_def)

lemma find_by_dest_complete:
  assumes "is_iteration (connections t) xs" and "tracker_get t p = Some (dip, dport)"
  shows "find_by_dest xs dip dport \<noteq> None"
  using assms(2) is_iteration_mem [OF assms(1)]
  by (auto simp: find_by_dest_None tracker_get_def)

section \<open>What the stores promise\<close>

text \<open>C29: a cleanup removes exactly the flows recorded at least 60 seconds before, however recently
  they were used: the other entries, and what is looked up for them, are unchanged.\<close>

theorem tracker_lifetime:
  "tracker_get (cleanup_stale now t) p = Some d \<longleftrightarrow>
   tracker_get t p = Some d
   \<and> (\<exists>info. connections t p = Some info \<and> now < last_activity info + 60000 * 1000000)"
  using elapsed_ms_less_iff [of CONNECTION_TIMEOUT_MS now]
  by (auto simp: tracker_get_def cleanup_stale_def map_retain_Some CONNECTION_TIMEOUT_MS_def)

text \<open>C30: whatever sequence of additions, cleanups and clearings runs, a flow found afterwards with
  its time was there before with the same time or was added in the sequence: looking a flow up or
  using it never renews it and no entry is invented; and a flow that is not overwritten, cleared or
  60 seconds old at a cleanup is still there.\<close>

theorem tracker_history:
  "(tracker_entry (tracker.run ops s) p = Some (v, t) \<longrightarrow>
      tracker_entry s p = Some (v, t) \<or> Put t p v \<in> set ops)
   \<and> (tracker_entry s p = Some (v, t) \<longrightarrow> list_all (tracker.spares p t) ops \<longrightarrow>
        tracker_entry (tracker.run ops s) p = Some (v, t))"
  using tracker.entry_run_origin tracker.entry_run_spared by blast

theorem tracker_history_witness:
  "tracker_entry (tracker.run [Put 1 8 (1, 2, 53), Purge 59999000000] (tracker_put 0 7 (1, 9, 80) tracker_new)) 7
     = Some ((1, 9, 80), 0)"
  by (rule tracker_history [THEN conjunct2, rule_format])
    (simp_all add: tracker.entry_put, simp add: elapsed_ms_def CONNECTION_TIMEOUT_MS_def)

text \<open>The reverse lookup of the UDP relay, in whatever order the map is walked, answers a port
  only if the tracker has that port recorded with the asked destination, and answers none only if
  it has no such port.\<close>

theorem reply_lookup:
  assumes "wf_tracker t" and "is_iteration (connections t) xs"
  shows "(\<forall>p. find_by_dest xs dip dport = Some p \<longrightarrow> tracker_get t p = Some (dip, dport))
    \<and> (find_by_dest xs dip dport = None \<longleftrightarrow> (\<forall>p. tracker_get t p \<noteq> Some (dip, dport)))"
  using find_by_dest_tracked [OF assms] find_by_dest_complete [OF assms(2)] by (metis not_Some_eq)

theorem reply_lookup_witness:
  "find_by_dest [(7, \<lparr>src_ip = 1, src_port = 7, orig_dest_ip = 9, orig_dest_port = 80, last_activity = 0\<rparr>)] 9 81 = None"
proof -
  let ?t = "tracker_add 0 7 1 9 80 tracker_new"
  have "wf_tracker ?t" by (rule wf_tracker_add) (rule wf_tracker_new)
  moreover have "is_iteration (connections ?t)
      [(7, \<lparr>src_ip = 1, src_port = 7, orig_dest_ip = 9, orig_dest_port = 80, last_activity = 0\<rparr>)]"
    by (simp add: is_iteration_def tracker_add_def tracker_new_def)
  ultimately show ?thesis
    by (rule reply_lookup [THEN conjunct2, THEN iffD2]) simp
qed

text \<open>The periodic cleanup of the PID cache cannot be observed by a lookup at the same time or
  later: expired entries were already ignored.\<close>

theorem pid_cleanup_invisible:
  "t \<le> now \<Longrightarrow> pid_get now (pid_cleanup t c) ip p is_udp = pid_get now c ip p is_udp"
  by (simp add: pid_get_fresh_value pids.fresh_value_purge)

theorem pid_cleanup_invisible_witness:
  "pid_get 30000000000 (pid_cleanup 20000000000 (pid_put 1 1 7 42 True pid_cache_new)) 1 7 True = None"
  by (subst pid_cleanup_invisible) (simp_all add: eval_defs)

end
