(* ===== verification/Process.thy ===== *)
theory Process
  imports Str_Facts Connection
begin

text \<open>
  \<open>process.rs\<close>: from a packet's source to the process that owns the socket. What the
  kernel and \<open>/proc\<close> answer during one lookup is the record \<open>os\<close>. The \<open>unsafe\<close>
  walk over the netlink answer is modelled byte by byte: a read outside the buffer is the
  outcome \<open>Ub\<close>, a walk that does not advance is \<open>Hang\<close>.
\<close>

section \<open>The operating system\<close>

text \<open>
  An entry of \<open>/proc\<close>: its name, the owner when \<open>metadata()\<close> succeeds, and, when its
  \<open>fd\<close> directory can be read, the target of each link (\<open>None\<close> for a failed \<open>read_link\<close>).
\<close>

record proc_entry =
  entry_name :: string
  entry_uid :: "u32 option"
  entry_fds :: "string option list option"

text \<open>
  \<open>nl_dump r\<close> are the datagrams \<open>recv\<close> returns after request \<open>r\<close>; then it fails (the
  receive timeout of 100 ms).
\<close>

record os =
  nl_socket :: bool
  nl_send :: bool
  nl_dump :: "bytes \<Rightarrow> bytes list"
  proc_dir :: "proc_entry list option"
  proc_net_udp :: "string option"
  proc_net_udp6 :: "string option"
  exe_link :: "u32 \<Rightarrow> string option"

definition U32_MAX :: u32 where "U32_MAX = 0xFFFFFFFF"

section \<open>Scanning /proc\<close>

definition is_ascii_digit :: "char \<Rightarrow> bool" where
  "is_ascii_digit c = (48 \<le> code c \<and> code c \<le> 57)"

definition socket_link :: "u64 \<Rightarrow> string" where
  "socket_link inode = ''socket:['' @ show_nat (unat inode) @ '']''"

definition owns_link :: "string \<Rightarrow> string option list \<Rightarrow> bool" where
  "owns_link expected links =
     list_ex (\<lambda>l. case l of None \<Rightarrow> False | Some target \<Rightarrow> to_string_lossy target = expected) links"

fun find_pid_in :: "proc_entry list \<Rightarrow> string \<Rightarrow> u32 \<Rightarrow> u32 option" where
  "find_pid_in [] expected uid_hint = None"
| "find_pid_in (e # es) expected uid_hint =
     (let name_str = to_string_lossy (entry_name e) in
      if \<not> (name_str \<noteq> [] \<and> is_ascii_digit (hd name_str)) then find_pid_in es expected uid_hint
      else if uid_hint \<noteq> U32_MAX
              \<and> (case entry_uid e of Some u \<Rightarrow> u \<noteq> uid_hint | None \<Rightarrow> False)
           then find_pid_in es expected uid_hint
      else (case entry_fds e of
              None \<Rightarrow> find_pid_in es expected uid_hint
            | Some links \<Rightarrow>
                if owns_link expected links then parse_u32 name_str
                else find_pid_in es expected uid_hint))"

definition find_pid_from_inode :: "os \<Rightarrow> u64 \<Rightarrow> u32 \<Rightarrow> u32 option" where
  "find_pid_from_inode w inode uid_hint =
     (case proc_dir w of
        None \<Rightarrow> None
      | Some es \<Rightarrow> find_pid_in es (socket_link inode) uid_hint)"

section \<open>The netlink request and its answer\<close>

definition NLMSG_ERROR :: u16 where "NLMSG_ERROR = 2"
definition NLMSG_DONE :: u16 where "NLMSG_DONE = 3"
definition SOCK_DIAG_BY_FAMILY :: u16 where "SOCK_DIAG_BY_FAMILY = 20"
definition NL_BUF_LEN :: nat where "NL_BUF_LEN = 16384"

text \<open>
  The request: a \<open>nlmsghdr\<close> (16 bytes, flags \<open>NLM_F_REQUEST\<close> and \<open>NLM_F_DUMP\<close>) and an
  \<open>inet_diag_req_v2\<close> (56 bytes, all but family, protocol and states zero).
\<close>

definition diag_request :: "bool \<Rightarrow> bytes" where
  "diag_request is_udp =
     u32_to_ne_bytes 72 @ u16_to_ne_bytes SOCK_DIAG_BY_FAMILY @ u16_to_ne_bytes (0x01 OR 0x300)
     @ replicate 8 0
     @ [2, if is_udp then 17 else 6, 0, 0]
     @ u32_to_ne_bytes (if is_udp then 0xFFFFFFFF else push_bit 2 1 OR push_bit 3 1)
     @ replicate 48 0"

definition nlmsg_align :: "u64 \<Rightarrow> u64" where
  "nlmsg_align len = (len + 3) AND NOT 3"

definition rd32 :: "bytes \<Rightarrow> nat \<Rightarrow> u32" where
  "rd32 buf i = the (u32_from_ne_bytes (take 4 (drop i buf)))"

definition rd16 :: "bytes \<Rightarrow> nat \<Rightarrow> u16" where
  "rd16 buf i = the (u16_from_ne_bytes (take 2 (drop i buf)))"

definition rd16_be :: "bytes \<Rightarrow> nat \<Rightarrow> u16" where
  "rd16_be buf i = the (u16_from_be_bytes (take 2 (drop i buf)))"

text \<open>
  A reference to a \<open>nlmsghdr\<close> at \<open>offset\<close> needs 16 bytes of the buffer, the
  \<open>InetDiagMsg\<close> behind it 72 more. Its fields: source port at 4, source address at 8,
  owner at 64, inode at 68.
\<close>

datatype scan_result = Scan_stop | Scan_found u32 u32 | Scan_more | Scan_ub

definition diag_matches :: "bytes \<Rightarrow> nat \<Rightarrow> u32 \<Rightarrow> u16 \<Rightarrow> bool" where
  "diag_matches buf offset sip sport =
     (rd32 buf (offset + 24) = sip \<and> rd16_be buf (offset + 20) = sport)"

partial_function (option) nl_scan ::
  "bytes \<Rightarrow> nat \<Rightarrow> nat \<Rightarrow> u32 \<Rightarrow> u16 \<Rightarrow> scan_result option"
where
  "nl_scan buf len offset sip sport =
     (if \<not> offset < len then Some Scan_more
      else if length buf < offset + 16 then Some Scan_ub
      else
        let nlmsg_len = rd32 buf offset; nlmsg_type = rd16 buf (offset + 4) in
        if nlmsg_type = NLMSG_DONE \<or> nlmsg_type = NLMSG_ERROR then Some Scan_stop
        else if nlmsg_type = SOCK_DIAG_BY_FAMILY \<and> length buf < offset + 88 then Some Scan_ub
        else if nlmsg_type = SOCK_DIAG_BY_FAMILY \<and> diag_matches buf offset sip sport
             then Some (Scan_found (rd32 buf (offset + 84)) (rd32 buf (offset + 80)))
        else nl_scan buf len (offset + unat (nlmsg_align (ucast nlmsg_len))) sip sport)"

text \<open>
  The \<open>recv\<close> loop; the buffer keeps what earlier datagrams left behind the current one.
\<close>

fun nl_recv_loop :: "bytes \<Rightarrow> bytes list \<Rightarrow> u32 \<Rightarrow> u16 \<Rightarrow> (u32 \<times> u32) option outcome" where
  "nl_recv_loop buf [] sip sport = Return None"
| "nl_recv_loop buf (dgram # dgrams) sip sport =
     (let received = take (length buf) dgram; len = length received in
      if len = 0 then Return None
      else let buf' = received @ drop len buf in
        case nl_scan buf' len 0 sip sport of
          None \<Rightarrow> Hang
        | Some Scan_ub \<Rightarrow> Ub
        | Some Scan_stop \<Rightarrow> Return None
        | Some (Scan_found inode uid) \<Rightarrow> Return (Some (inode, uid))
        | Some Scan_more \<Rightarrow> nl_recv_loop buf' dgrams sip sport)"

definition get_pid_via_netlink :: "os \<Rightarrow> u32 \<Rightarrow> u16 \<Rightarrow> bool \<Rightarrow> u32 option outcome" where
  "get_pid_via_netlink w sip sport is_udp =
     (if \<not> nl_socket w then Return None
      else if \<not> nl_send w then Return None
      else obind (nl_recv_loop (replicate NL_BUF_LEN 0) (nl_dump w (diag_request is_udp)) sip sport)
             (\<lambda>found. case found of
                Some (inode, uid) \<Rightarrow>
                  if (ucast inode :: u64) \<noteq> 0 then Return (find_pid_from_inode w (ucast inode) uid)
                  else Return None
              | None \<Rightarrow> Return None))"

section \<open>The /proc/net/udp fallback\<close>

text \<open>The lines after the header; \<open>None\<close> when no line returns.\<close>

fun scan_udp_lines :: "os \<Rightarrow> u16 \<Rightarrow> string option list \<Rightarrow> u32 option option" where
  "scan_udp_lines w sport [] = None"
| "scan_udp_lines w sport (None # ls) = scan_udp_lines w sport ls"
| "scan_udp_lines w sport (Some line # ls) =
     (let fields = split_whitespace line in
      if length fields < 10 then scan_udp_lines w sport ls
      else case split_once CHR '':'' (fields ! 1) of
          None \<Rightarrow> scan_udp_lines w sport ls
        | Some (_, port_hex) \<Rightarrow>
            if unwrap_or (parse_u16_hex port_hex) 0 = sport then
              (let inode = unwrap_or (parse_u64 (fields ! 9)) 0 in
               if inode \<noteq> 0 then
                 Some (find_pid_from_inode w inode (unwrap_or (parse_u32 (fields ! 7)) U32_MAX))
               else scan_udp_lines w sport ls)
            else scan_udp_lines w sport ls)"

fun scan_udp_files :: "os \<Rightarrow> u16 \<Rightarrow> string option list \<Rightarrow> u32 option" where
  "scan_udp_files w sport [] = None"
| "scan_udp_files w sport (f # fs) =
     (case f of
        None \<Rightarrow> scan_udp_files w sport fs
      | Some contents \<Rightarrow>
          (case scan_udp_lines w sport (drop 1 (buf_lines contents)) of
             Some r \<Rightarrow> r
           | None \<Rightarrow> scan_udp_files w sport fs))"

definition get_pid_from_proc_net_udp :: "os \<Rightarrow> u16 \<Rightarrow> u32 option" where
  "get_pid_from_proc_net_udp w sport = scan_udp_files w sport [proc_net_udp w, proc_net_udp6 w]"

section \<open>The lookup\<close>

definition get_pid_from_connection ::
  "instant \<Rightarrow> instant \<Rightarrow> os \<Rightarrow> u32 \<Rightarrow> u16 \<Rightarrow> bool \<Rightarrow> pid_cache \<Rightarrow> (u32 \<times> pid_cache) outcome"
where
  "get_pid_from_connection t_get t_put w sip sport is_udp c =
     (case pid_get t_get c sip sport is_udp of
        Some p \<Rightarrow> Return (p, c)
      | None \<Rightarrow>
          obind (get_pid_via_netlink w sip sport is_udp) (\<lambda>r.
            let p = (case r of
                       Some p \<Rightarrow> p
                     | None \<Rightarrow> if is_udp then unwrap_or (get_pid_from_proc_net_udp w sport) 0 else 0)
            in Return (p, if p \<noteq> 0 then pid_put t_put sip sport p is_udp c else c)))"

definition get_process_name :: "os \<Rightarrow> u32 \<Rightarrow> string option" where
  "get_process_name w p =
     (if p = 0 then None
      else if p = 1 then Some ''systemd''
      else map_option to_string_lossy (exe_link w p))"

definition extract_filename :: "string \<Rightarrow> string" where
  "extract_filename path = rsplit_next_or (\<lambda>c. c = CHR ''/'') path"

lemmas process_defs [eval_defs] = U32_MAX_def is_ascii_digit_def socket_link_def owns_link_def
  find_pid_from_inode_def NLMSG_ERROR_def NLMSG_DONE_def SOCK_DIAG_BY_FAMILY_def
  rd32_def rd16_def rd16_be_def diag_matches_def
  get_pid_via_netlink_def get_pid_from_proc_net_udp_def get_pid_from_connection_def
  get_process_name_def extract_filename_def

section \<open>Walking the netlink answer\<close>

lemma and_not_3: "(w :: u64) AND NOT 3 = push_bit 2 (drop_bit 2 w)"
proof (rule bit_word_eqI)
  fix n assume "n < LENGTH(64)"
  have "bit (3 :: u64) n = bit (mask 2 :: u64) n" by (simp add: mask_eq_exp_minus_1)
  then have three: "bit (3 :: u64) n \<longleftrightarrow> n < 2"
    using \<open>n < LENGTH(64)\<close> by (simp only: bit_mask_iff) (simp add: possible_bit_def)
  show "bit (w AND NOT 3) n = bit (push_bit 2 (drop_bit 2 w)) n"
  proof (cases "n < 2")
    case True
    then show ?thesis
      using three by (simp only: bit_and_iff bit_not_iff bit_push_bit_iff) simp
  next
    case False
    then have "2 + (n - 2) = n" by simp
    then show ?thesis
      using three False \<open>n < LENGTH(64)\<close>
      by (simp only: bit_and_iff bit_not_iff bit_push_bit_iff bit_drop_bit_eq o_apply)
        (simp add: possible_bit_def)
  qed
qed

lemma unat_nlmsg_align:
  assumes "unat len + 3 < 2 ^ 64"
  shows "unat (nlmsg_align len) = 4 * ((unat len + 3) div 4)"
proof -
  have u: "unat (len + 3) = unat len + 3"
    using assms by (simp add: unat_word_ariths)
  have "unat (push_bit 2 (drop_bit 2 (len + 3))) = 4 * (unat (drop_bit 2 (len + 3))) mod 2 ^ 64"
    by (simp add: push_bit_eq_mult unat_word_ariths mult.commute)
  also have "unat (drop_bit 2 (len + 3)) = (unat len + 3) div 4"
    by (simp only: unat_drop_bit_eq u) (simp add: drop_bit_eq_div)
  also have "4 * ((unat len + 3) div 4) mod 2 ^ 64 = 4 * ((unat len + 3) div 4)"
    using assms by (intro mod_less) linarith
  finally show ?thesis unfolding nlmsg_align_def and_not_3 .
qed

lemma unat_nlmsg_align_u32:
  "unat (nlmsg_align (ucast (w :: u32))) = 4 * ((unat w + 3) div 4)"
proof -
  have "unat (ucast w :: u64) = unat w"
    by (simp add: unsigned_ucast_eq take_bit_nat_eq_self_iff) (use unat_u32_less [of w] in linarith)
  then show ?thesis
    using unat_nlmsg_align [of "ucast w"] unat_u32_less [of w] by simp
qed

text \<open>A message that says it is empty, and is not the one looked for, is walked over for ever.\<close>

definition stuck_at :: "bytes \<Rightarrow> nat \<Rightarrow> nat \<Rightarrow> u32 \<Rightarrow> u16 \<Rightarrow> bool" where
  "stuck_at buf len offset sip sport =
     (offset < len \<and> offset + 16 \<le> length buf
      \<and> rd32 buf offset = 0
      \<and> rd16 buf (offset + 4) \<noteq> NLMSG_DONE \<and> rd16 buf (offset + 4) \<noteq> NLMSG_ERROR
      \<and> (rd16 buf (offset + 4) = SOCK_DIAG_BY_FAMILY \<longrightarrow>
           offset + 88 \<le> length buf \<and> \<not> diag_matches buf offset sip sport))"

lemma nl_scan_stuck: "stuck_at buf len offset sip sport \<Longrightarrow> nl_scan buf len offset sip sport = None"
proof (rule ccontr)
  assume stuck: "stuck_at buf len offset sip sport" and "nl_scan buf len offset sip sport \<noteq> None"
  then obtain r where ret: "nl_scan buf len offset sip sport = Some r" by blast
  have "\<not> stuck_at buf len offset sip sport"
  proof (rule nl_scan.raw_induct [where P = "\<lambda>buf len offset sip sport r. \<not> stuck_at buf len offset sip sport",
        OF _ ret])
    fix f buf len offset sip sport r
    assume IH: "\<And>buf len offset sip sport r. f buf len offset sip sport = Some r \<Longrightarrow> \<not> stuck_at buf len offset sip sport"
      and eq: "(if \<not> offset < len then Some Scan_more
      else if length buf < offset + 16 then Some Scan_ub
      else
        let nlmsg_len = rd32 buf offset; nlmsg_type = rd16 buf (offset + 4) in
        if nlmsg_type = NLMSG_DONE \<or> nlmsg_type = NLMSG_ERROR then Some Scan_stop
        else if nlmsg_type = SOCK_DIAG_BY_FAMILY \<and> length buf < offset + 88 then Some Scan_ub
        else if nlmsg_type = SOCK_DIAG_BY_FAMILY \<and> diag_matches buf offset sip sport
             then Some (Scan_found (rd32 buf (offset + 84)) (rd32 buf (offset + 80)))
        else f buf len (offset + unat (nlmsg_align (ucast nlmsg_len))) sip sport) = Some r"
    have z: "unat (nlmsg_align (ucast (0 :: u32))) = 0"
      using unat_nlmsg_align_u32 [of 0] by simp
    show "\<not> stuck_at buf len offset sip sport"
    proof
      assume st: "stuck_at buf len offset sip sport"
      then have "f buf len (offset + unat (nlmsg_align (ucast (0 :: u32)))) sip sport = Some r"
        using eq unfolding stuck_at_def Let_def by (auto split: if_splits)
      then have "f buf len offset sip sport = Some r" by (simp only: z add_0_right)
      with IH st show False by blast
    qed
  qed
  with stuck show False by contradiction
qed

text \<open>
  The walk over well-formed messages is a search in the list of messages: it stays in the
  buffer, ends, and finds the first match before an end or error message.
\<close>

definition wf_msg :: "bytes \<Rightarrow> bool" where
  "wf_msg m = (16 \<le> length m \<and> 4 * ((unat (rd32 m 0) + 3) div 4) = length m
     \<and> (rd16 m 4 = SOCK_DIAG_BY_FAMILY \<longrightarrow> 88 \<le> length m))"

fun scan_msgs :: "bytes list \<Rightarrow> u32 \<Rightarrow> u16 \<Rightarrow> scan_result" where
  "scan_msgs [] sip sport = Scan_more"
| "scan_msgs (m # ms) sip sport =
     (if rd16 m 4 = NLMSG_DONE \<or> rd16 m 4 = NLMSG_ERROR then Scan_stop
      else if rd16 m 4 = SOCK_DIAG_BY_FAMILY \<and> diag_matches m 0 sip sport
           then Scan_found (rd32 m 84) (rd32 m 80)
      else scan_msgs ms sip sport)"

lemma take_drop_middle:
  "i + k \<le> length m \<Longrightarrow> take k (drop (length pre + i) (pre @ m @ post)) = take k (drop i m)"
  by (simp add: take_append drop_append)

lemma rd_middle:
  "i + 4 \<le> length m \<Longrightarrow> rd32 (pre @ m @ post) (length pre + i) = rd32 m i"
  "i + 2 \<le> length m \<Longrightarrow> rd16 (pre @ m @ post) (length pre + i) = rd16 m i"
  "i + 2 \<le> length m \<Longrightarrow> rd16_be (pre @ m @ post) (length pre + i) = rd16_be m i"
  by (simp_all only: rd32_def rd16_def rd16_be_def take_drop_middle)

lemma nl_scan_msgs:
  assumes "list_all wf_msg ms"
  shows "nl_scan (pre @ concat ms @ post) (length pre + length (concat ms)) (length pre) sip sport
    = Some (scan_msgs ms sip sport)"
  using assms
proof (induction ms arbitrary: pre)
  case Nil
  then show ?case by (simp add: nl_scan.simps)
next
  case (Cons m ms)
  let ?post = "concat ms @ post"
  let ?buf = "pre @ m @ ?post"
  have wf: "16 \<le> length m" "4 * ((unat (rd32 m 0) + 3) div 4) = length m"
      "rd16 m 4 = SOCK_DIAG_BY_FAMILY \<Longrightarrow> 88 \<le> length m"
    using Cons.prems by (auto simp: wf_msg_def)
  have rd: "rd32 ?buf (length pre) = rd32 m 0" "rd16 ?buf (length pre + 4) = rd16 m 4"
    using rd_middle(1) [of 0 m pre ?post] rd_middle(2) [of 4 m pre ?post] wf(1) by simp_all
  have diag: "diag_matches ?buf (length pre) sip sport = diag_matches m 0 sip sport"
      "rd32 ?buf (length pre + 84) = rd32 m 84" "rd32 ?buf (length pre + 80) = rd32 m 80"
      if "rd16 m 4 = SOCK_DIAG_BY_FAMILY"
    using wf(3) [OF that] rd_middle(1) [of 24 m pre ?post] rd_middle(3) [of 20 m pre ?post]
      rd_middle(1) [of 84 m pre ?post] rd_middle(1) [of 80 m pre ?post]
    by (simp_all add: diag_matches_def)
  have nxt: "nl_scan ?buf (length pre + length (concat (m # ms))) (length pre + length m) sip sport
      = Some (scan_msgs ms sip sport)"
    using Cons.IH [of "pre @ m"] Cons.prems by (simp add: add.assoc)
  have step: "length pre + unat (nlmsg_align (ucast (rd32 m 0))) = length pre + length m"
    by (simp only: unat_nlmsg_align_u32 wf(2))
  have "nl_scan ?buf (length pre + length (concat (m # ms))) (length pre) sip sport
      = Some (scan_msgs (m # ms) sip sport)"
    by (subst nl_scan.simps)
      (use wf diag nxt in \<open>auto simp: Let_def rd step\<close>)
  then show ?case by simp
qed

section \<open>Soundness of the /proc scan\<close>

lemma find_pid_in_Some:
  "find_pid_in es expected hint = Some p \<Longrightarrow>
   \<exists>e \<in> set es. \<exists>links. entry_fds e = Some links \<and> owns_link expected links
     \<and> parse_u32 (to_string_lossy (entry_name e)) = Some p
     \<and> (hint = U32_MAX \<or> entry_uid e = None \<or> entry_uid e = Some hint)"
proof (induction es)
  case (Cons e es)
  show ?case
  proof (cases "find_pid_in es expected hint = Some p")
    case True
    with Cons.IH show ?thesis by fastforce
  next
    case False
    with Cons.prems show ?thesis
      by (auto simp: Let_def split: if_splits option.splits)
  qed
qed simp

section \<open>The properties of the lookup\<close>

text \<open>On a netlink answer made of well-formed messages, the walk ends, stays in the buffer, and
  finds the inode and owner of the first message whose address and port are the asked ones, stopping
  at an end or error message before it; what an earlier datagram left behind in the buffer is not
  looked at.\<close>

theorem netlink_walk:
  "list_all wf_msg ms \<Longrightarrow>
   nl_scan (concat ms @ junk) (length (concat ms)) 0 sip sport = Some (scan_msgs ms sip sport)"
  using nl_scan_msgs [of ms "[]" junk] by simp

text \<open>A socket of port 40000 at 10.0.0.5, owned by user 1000, inode 777.\<close>

definition example_msg :: bytes where
  "example_msg = [88, 0, 0, 0, 20, 0] @ replicate 14 0 @ [0x9C, 0x40, 0, 0, 10, 0, 0, 5]
     @ replicate 52 0 @ [0xE8, 3, 0, 0, 9, 3, 0, 0]"

lemma example_msg_fields:
  "length example_msg = 88" "rd32 example_msg 0 = 88" "rd16 example_msg 4 = 20"
  "rd16_be example_msg 20 = 40000" "rd32 example_msg 24 = 0x0500000A"
  "rd32 example_msg 80 = 1000" "rd32 example_msg 84 = 777"
  by (simp_all add: example_msg_def rd32_def rd16_def rd16_be_def)

lemma example_msg_wf: "wf_msg example_msg"
  by (simp add: wf_msg_def example_msg_fields)

lemma example_msg_scan: "scan_msgs [example_msg] 0x0500000A 40000 = Scan_found 777 1000"
  by (simp add: diag_matches_def example_msg_fields NLMSG_DONE_def NLMSG_ERROR_def SOCK_DIAG_BY_FAMILY_def)

theorem netlink_walk_witness:
  "nl_scan (concat [example_msg] @ [7]) (length (concat [example_msg])) 0 0x0500000A 40000 = Some (Scan_found 777 1000)"
  by (subst netlink_walk) (simp_all only: example_msg_scan list.pred_inject example_msg_wf simp_thms)

text \<open>
  Which way the walk goes. A message is passed when its header, and for a socket message its whole
  body, lies in the buffer and it is neither the end nor the one looked for.
\<close>

definition passes :: "bytes \<Rightarrow> nat \<Rightarrow> u32 \<Rightarrow> u16 \<Rightarrow> nat \<Rightarrow> bool" where
  "passes buf len sip sport offset =
     (offset < len \<and> offset + 16 \<le> length buf
      \<and> rd16 buf (offset + 4) \<noteq> NLMSG_DONE \<and> rd16 buf (offset + 4) \<noteq> NLMSG_ERROR
      \<and> (rd16 buf (offset + 4) = SOCK_DIAG_BY_FAMILY \<longrightarrow>
           offset + 88 \<le> length buf \<and> \<not> diag_matches buf offset sip sport))"

definition leaves_buffer :: "bytes \<Rightarrow> nat \<Rightarrow> nat \<Rightarrow> bool" where
  "leaves_buffer buf len offset =
     (offset < len \<and> (length buf < offset + 16
        \<or> rd16 buf (offset + 4) = SOCK_DIAG_BY_FAMILY \<and> length buf < offset + 88))"

definition advance :: "bytes \<Rightarrow> nat \<Rightarrow> nat" where
  "advance buf offset = 4 * ((unat (rd32 buf offset) + 3) div 4)"

inductive walks :: "bytes \<Rightarrow> nat \<Rightarrow> u32 \<Rightarrow> u16 \<Rightarrow> nat \<Rightarrow> nat \<Rightarrow> bool" for buf len sip sport where
  here: "walks buf len sip sport offset offset"
| on: "passes buf len sip sport offset \<Longrightarrow> walks buf len sip sport (offset + advance buf offset) offset' \<Longrightarrow>
     walks buf len sip sport offset offset'"

lemma nl_scan_passes:
  "passes buf len sip sport offset \<Longrightarrow>
   nl_scan buf len offset sip sport = nl_scan buf len (offset + advance buf offset) sip sport"
  by (subst nl_scan.simps) (auto simp: passes_def advance_def Let_def unat_nlmsg_align_u32)

lemma nl_scan_not_passes:
  assumes "\<not> passes buf len sip sport offset"
  shows "nl_scan buf len offset sip sport \<noteq> None
    \<and> (nl_scan buf len offset sip sport = Some Scan_ub \<longleftrightarrow> leaves_buffer buf len offset)"
proof -
  have types: "SOCK_DIAG_BY_FAMILY \<noteq> NLMSG_DONE" "SOCK_DIAG_BY_FAMILY \<noteq> NLMSG_ERROR"
    by (simp_all add: SOCK_DIAG_BY_FAMILY_def NLMSG_DONE_def NLMSG_ERROR_def)
  show ?thesis
    using assms types by (subst (1 2) nl_scan.simps) (auto simp: passes_def leaves_buffer_def Let_def)
qed

lemma passes_not_leaves: "passes buf len sip sport offset \<Longrightarrow> \<not> leaves_buffer buf len offset"
  by (auto simp: passes_def leaves_buffer_def)

lemma walks_scan: "walks buf len sip sport offset offset' \<Longrightarrow>
   nl_scan buf len offset sip sport = nl_scan buf len offset' sip sport"
  by (induction rule: walks.induct) (simp_all add: nl_scan_passes)

lemma stuck_passes: "stuck_at buf len offset sip sport \<longleftrightarrow> passes buf len sip sport offset \<and> rd32 buf offset = 0"
  by (auto simp: stuck_at_def passes_def)

lemma advance_pos: "rd32 buf offset \<noteq> 0 \<Longrightarrow> 0 < advance buf offset"
proof -
  assume "rd32 buf offset \<noteq> 0"
  then have "0 < unat (rd32 buf offset)" by (simp add: unat_gt_0)
  then show ?thesis by (simp add: advance_def)
qed

text \<open>The walk goes on from message to message until one is not passed, or for ever at one of length 0.\<close>

lemma walk_ends:
  "\<exists>offset'. walks buf len sip sport offset offset'
     \<and> (\<not> passes buf len sip sport offset' \<or> stuck_at buf len offset' sip sport)"
proof (induction "len - offset" arbitrary: offset rule: less_induct)
  case less
  show ?case
  proof (cases "passes buf len sip sport offset \<and> rd32 buf offset \<noteq> 0")
    case True
    then have p: "passes buf len sip sport offset" "offset < len" "0 < advance buf offset"
      using advance_pos by (auto simp: passes_def)
    then have "len - (offset + advance buf offset) < len - offset" by simp
    from less [OF this] show ?thesis using walks.on [OF p(1)] by blast
  next
    case False
    then show ?thesis
      by (intro exI [of _ offset] conjI walks.here) (auto simp: stuck_passes)
  qed
qed

text \<open>C38: exactly when the unsafe walk over a netlink answer goes wrong. It never ends exactly when it
  comes to a message, neither the end nor the one looked for, whose length field is zero; it reads
  outside the buffer exactly when it comes to an offset inside the answer where a header, or the
  body of a socket message, does not fit the buffer. Otherwise it ends with an answer.\<close>

theorem netlink_walk_outcome:
  "(nl_scan buf len 0 sip sport = None \<longleftrightarrow>
      (\<exists>offset. walks buf len sip sport 0 offset \<and> passes buf len sip sport offset \<and> rd32 buf offset = 0))
   \<and> (nl_scan buf len 0 sip sport = Some Scan_ub \<longleftrightarrow>
      (\<exists>offset. walks buf len sip sport 0 offset \<and> leaves_buffer buf len offset))"
proof -
  obtain offset where w: "walks buf len sip sport 0 offset"
      and e: "\<not> passes buf len sip sport offset \<or> stuck_at buf len offset sip sport"
    using walk_ends by blast
  have scan: "nl_scan buf len 0 sip sport = nl_scan buf len off sip sport"
    if "walks buf len sip sport 0 off" for off
    using that by (rule walks_scan)
  have stuck: "nl_scan buf len 0 sip sport = None"
    if "walks buf len sip sport 0 off" "stuck_at buf len off sip sport" for off
    using scan [OF that(1)] nl_scan_stuck [OF that(2)] by simp
  have ub: "nl_scan buf len 0 sip sport = Some Scan_ub"
    if "walks buf len sip sport 0 off" "leaves_buffer buf len off" for off
    using scan [OF that(1)] that(2) nl_scan_not_passes passes_not_leaves by metis
  show ?thesis
    using w e stuck ub scan [OF w] nl_scan_not_passes [of buf len sip sport offset]
    unfolding stuck_passes by (metis option.distinct(1))
qed

text \<open>A message whose length field is zero, and that is neither the end nor the one looked for,
  keeps the walk at its place for ever: the packet thread does not come back.\<close>

theorem netlink_walk_stuck:
  assumes "stuck_at (dgram @ drop (length dgram) (replicate NL_BUF_LEN 0)) (length dgram) 0 sip sport"
    and "length dgram \<le> NL_BUF_LEN"
  shows "nl_recv_loop (replicate NL_BUF_LEN 0) (dgram # dgrams) sip sport = Hang"
proof -
  have "dgram \<noteq> []" using assms(1) by (auto simp: stuck_at_def)
  with assms(2) nl_scan_stuck [OF assms(1)] show ?thesis by (simp add: Let_def)
qed

theorem netlink_walk_stuck_witness:
  "nl_recv_loop (replicate NL_BUF_LEN 0) ([[0, 0, 0, 0, 1, 0] @ replicate 10 0]) 1 80 = Hang"
  by (rule netlink_walk_stuck)
    (simp_all add: stuck_at_def rd32_def rd16_def NLMSG_DONE_def NLMSG_ERROR_def
      SOCK_DIAG_BY_FAMILY_def NL_BUF_LEN_def)

text \<open>A process found for a socket inode is one whose descriptors name that socket, and whose
  owner, when it is known and the kernel named one, is that owner.\<close>

theorem socket_owner:
  assumes "find_pid_from_inode w inode hint = Some p"
  shows "\<exists>es e links. proc_dir w = Some es \<and> e \<in> set es \<and> entry_fds e = Some links
    \<and> owns_link (socket_link inode) links \<and> parse_u32 (to_string_lossy (entry_name e)) = Some p
    \<and> (hint = U32_MAX \<or> entry_uid e = None \<or> entry_uid e = Some hint)"
proof -
  obtain es where "proc_dir w = Some es" "find_pid_in es (socket_link inode) hint = Some p"
    using assms by (auto simp: find_pid_from_inode_def split: option.splits)
  with find_pid_in_Some show ?thesis by blast
qed

text \<open>A system where process 4242, \<open>/usr/bin/curl\<close>, holds the socket of \<open>example_msg\<close>.\<close>

definition example_os :: os where
  "example_os = \<lparr>nl_socket = True, nl_send = True, nl_dump = (\<lambda>_. [example_msg]),
     proc_dir = Some [\<lparr>entry_name = ''self'', entry_uid = None, entry_fds = None\<rparr>,
       \<lparr>entry_name = ''4242'', entry_uid = Some 1000, entry_fds = Some [None, Some ''socket:[777]'']\<rparr>],
     proc_net_udp = None, proc_net_udp6 = None, exe_link = (\<lambda>p. if p = 4242 then Some ''/usr/bin/curl'' else None)\<rparr>"

lemma example_recv: "nl_recv_loop (replicate NL_BUF_LEN 0) [example_msg] 0x0500000A 40000 = Return (Some (777, 1000))"
proof -
  have len: "length example_msg = 88" by (rule example_msg_fields)
  have "nl_scan (example_msg @ drop 88 (replicate NL_BUF_LEN 0)) 88 0 0x0500000A 40000 = Some (Scan_found 777 1000)"
    using nl_scan_msgs [of "[example_msg]" "[]" "drop 88 (replicate NL_BUF_LEN 0)"]
    by (simp add: example_msg_wf example_msg_scan len del: scan_msgs.simps)
  moreover have "take NL_BUF_LEN example_msg = example_msg" by (simp add: len NL_BUF_LEN_def)
  moreover have "example_msg \<noteq> []" using len by force
  ultimately show ?thesis using len by (simp add: Let_def del: drop_replicate)
qed

lemma example_pid: "find_pid_from_inode example_os 777 1000 = Some 4242"
proof -
  have link: "socket_link 777 = ''socket:[777]''" by (simp add: eval_defs)
  have lossy: "to_string_lossy ''self'' = ''self''" "to_string_lossy ''4242'' = ''4242''"
      "to_string_lossy ''socket:[777]'' = ''socket:[777]''"
    by (rule to_string_lossy_plain; simp)+
  have "parse_u32 ''4242'' = Some 4242" by (simp add: eval_defs)
  then show ?thesis
    by (simp add: find_pid_from_inode_def example_os_def link lossy is_ascii_digit_def owns_link_def U32_MAX_def)
qed

lemma example_lookup:
  "get_pid_from_connection t1 t2 example_os 0x0500000A 40000 is_udp pid_cache_new
     = Return (4242, pid_put t2 0x0500000A 40000 4242 is_udp pid_cache_new)"
proof -
  have "get_pid_via_netlink example_os 0x0500000A 40000 is_udp = Return (Some 4242)"
    using example_recv example_pid by (simp add: get_pid_via_netlink_def) (simp add: example_os_def)
  then show ?thesis by (simp add: get_pid_from_connection_def pid_get_def pid_cache_new_def)
qed

lemma example_name: "get_process_name example_os 4242 = Some ''/usr/bin/curl''"
  using to_string_lossy_plain [of "''/usr/bin/curl''"] by (simp add: get_process_name_def example_os_def)

theorem socket_owner_witness: "\<exists>es. proc_dir example_os = Some es \<and> es \<noteq> []"
  using socket_owner [OF example_pid] by fastforce

text \<open>Once a lookup has found a process, lookups for the same source within ten seconds answer
  the same process without asking the system again, whatever has happened there meanwhile.\<close>

theorem cached_lookup:
  assumes "pid_get t1 c sip sport is_udp = None"
    and "get_pid_from_connection t1 t2 w sip sport is_udp c = Return (p, c')" and "p \<noteq> 0"
    and "t3 < t2 + 10000 * 1000000"
  shows "get_pid_from_connection t3 t4 w' sip sport is_udp c' = Return (p, c')"
proof -
  have "c' = pid_put t2 sip sport p is_udp c"
    using assms(1-3) by (auto simp: get_pid_from_connection_def Let_def obind_eq_Return split: if_splits)
  moreover have "elapsed_ms t3 t2 < PID_CACHE_TTL_MS"
    using assms(4) by (simp add: elapsed_ms_less_iff PID_CACHE_TTL_MS_def)
  ultimately have "pid_get t3 c' sip sport is_udp = Some p"
    by (simp add: pid_get_def pid_put_def)
  then show ?thesis by (simp add: get_pid_from_connection_def)
qed

theorem cached_lookup_witness:
  "get_pid_from_connection 9999999999 9999999999 (example_os\<lparr>nl_socket := False, proc_dir := None\<rparr>) 0x0500000A 40000 True (pid_put 0 0x0500000A 40000 4242 True pid_cache_new)
     = Return (4242, pid_put 0 0x0500000A 40000 4242 True pid_cache_new)"
  by (rule cached_lookup [OF _ example_lookup]) (simp_all add: pid_get_def pid_cache_new_def)

end
