(* ===== verification/Nfqueue.thy ===== *)
theory Nfqueue
  imports Process Rule_Engine
begin

text \<open>
  \<open>nfqueue.rs\<close>: the packet processor. One packet is one call of \<open>process_packet\<close>,
  with every slice access checked (a failed one is \<open>Panic\<close>); the blocking loop is
  \<open>run_nfqueue\<close>. The kernel queue is the list of events it delivers; the components shared
  with the other threads (rules, tracker, PID cache) are the state.
\<close>

section \<open>Configuration, state and results\<close>

datatype verdict = Accept | Drop

record nfq_config =
  proxy_cfg :: proxy_config
  dns_via_proxy :: bool
  current_pid :: u32
  verbose_level :: u8

record nfq_state =
  engine :: rule_engine
  tracker :: connection_tracker
  pids :: pid_cache

text \<open>What the clock and the system answer while a packet is processed.\<close>

record pkt_env =
  world :: os
  t_get :: instant
  t_put :: instant
  t_add :: instant

record packet_out =
  out_verdict :: verdict
  out_mark :: "u32 option"
  out_log :: "string list"

definition accept_out :: packet_out where
  "accept_out = \<lparr>out_verdict = Accept, out_mark = None, out_log = []\<rparr>"

definition IPPROTO_TCP :: u8 where "IPPROTO_TCP = 6"
definition IPPROTO_UDP :: u8 where "IPPROTO_UDP = 17"

section \<open>Headers\<close>

definition unwrap :: "'a option \<Rightarrow> 'a outcome" where
  "unwrap m = (case m of None \<Rightarrow> Panic | Some x \<Rightarrow> Return x)"

record transport =
  tp_src_port :: u16
  tp_dest_port :: u16
  tp_is_tcp :: bool
  tp_is_syn :: bool

definition read_port :: "bytes \<Rightarrow> nat \<Rightarrow> u16 outcome" where
  "read_port payload a = obind (subslice payload a (a + 2)) (\<lambda>bs. unwrap (u16_from_be_bytes bs))"

text \<open>\<open>None\<close>: the packet is accepted as it is (too short, or neither TCP nor UDP).\<close>

definition parse_transport :: "bytes \<Rightarrow> nat \<Rightarrow> u8 \<Rightarrow> transport option outcome" where
  "parse_transport payload ihl proto =
     (if proto = IPPROTO_TCP then
        (if length payload < ihl + 20 then Return None
         else obind (read_port payload ihl) (\<lambda>sport.
              obind (read_port payload (ihl + 2)) (\<lambda>dport.
              obind (index payload (ihl + 13)) (\<lambda>flags.
                Return (Some \<lparr>tp_src_port = sport, tp_dest_port = dport, tp_is_tcp = True,
                  tp_is_syn = (flags AND 0x02 \<noteq> 0 \<and> flags AND 0x10 = 0)\<rparr>)))))
      else if proto = IPPROTO_UDP then
        (if length payload < ihl + 8 then Return None
         else obind (read_port payload ihl) (\<lambda>sport.
              obind (read_port payload (ihl + 2)) (\<lambda>dport.
                Return (Some \<lparr>tp_src_port = sport, tp_dest_port = dport, tp_is_tcp = False,
                  tp_is_syn = False\<rparr>))))
      else Return None)"

section \<open>The decision\<close>

definition log_line ::
  "nfq_config \<Rightarrow> string \<Rightarrow> u32 \<Rightarrow> u32 \<Rightarrow> u16 \<Rightarrow> bool \<Rightarrow> rule_action \<Rightarrow> string"
where
  "log_line cfg name p dest_ip dest_port is_udp matched =
     (let proto_str = (if is_udp then ''udp'' else ''tcp'');
          action_str =
            (case matched of
               Proxy \<Rightarrow> ''proxy '' @ (if proxy_type (proxy_cfg cfg) = Http then ''http'' else ''socks5'')
                 @ ''://'' @ host (proxy_cfg cfg) @ '':'' @ show_nat (unat (port (proxy_cfg cfg)))
                 @ '' '' @ proto_str
             | Direct \<Rightarrow> ''direct '' @ proto_str
             | Block \<Rightarrow> ''blocked '' @ proto_str)
      in ''[CONN] '' @ extract_filename name @ '' (PID:'' @ show_nat (unat p) @ '') -> ''
         @ format_ip dest_ip @ '':'' @ show_nat (unat dest_port) @ '' via '' @ action_str)"

definition choose_action ::
  "nfq_config \<Rightarrow> pkt_env \<Rightarrow> u32 \<Rightarrow> u32 \<Rightarrow> u16 \<Rightarrow> u16 \<Rightarrow> bool \<Rightarrow> nfq_state
   \<Rightarrow> (rule_action \<times> string list \<times> nfq_state) outcome"
where
  "choose_action cfg env sip dip sport dport is_udp st =
     (if dport = 53 \<and> \<not> dns_via_proxy cfg then Return (Direct, [], st)
      else obind (get_pid_from_connection (t_get env) (t_put env) (world env) sip sport is_udp (pids st))
        (\<lambda>(p, c).
          let st' = st\<lparr>pids := c\<rparr> in
          if p = 0 \<or> p = current_pid cfg then Return (Direct, [], st')
          else case get_process_name (world env) p of
              Some name \<Rightarrow>
                let matched = match_rule (engine st) name dip dport is_udp
                in Return (matched,
                     if verbose_level cfg \<ge> 2 then [log_line cfg name p dip dport is_udp matched] else [],
                     st')
            | None \<Rightarrow> Return (Direct, [], st')))"

definition adjust_action :: "proxy_config \<Rightarrow> u32 \<Rightarrow> u16 \<Rightarrow> bool \<Rightarrow> rule_action \<Rightarrow> rule_action" where
  "adjust_action cfg dip dport is_udp a0 =
     (let a1 = (if a0 = Proxy \<and> is_broadcast_or_multicast dip then Direct else a0);
          a2 = (if a1 = Proxy \<and> is_udp \<and> (dport = 67 \<or> dport = 68) then Direct else a1);
          a3 = (if a2 = Proxy \<and> is_udp \<and> proxy_type cfg \<noteq> Socks5 then Direct else a2);
          a4 = (if a3 = Proxy \<and> (host cfg = [] \<or> port cfg = 0) then Direct else a3)
      in a4)"

definition apply_action ::
  "pkt_env \<Rightarrow> u32 \<Rightarrow> u32 \<Rightarrow> transport \<Rightarrow> rule_action \<Rightarrow> string list \<Rightarrow> nfq_state \<Rightarrow> packet_out \<times> nfq_state"
where
  "apply_action env sip dip tp a log st =
     (case a of
        Direct \<Rightarrow> (\<lparr>out_verdict = Accept, out_mark = None, out_log = log\<rparr>, st)
      | Block \<Rightarrow> (\<lparr>out_verdict = Drop, out_mark = None, out_log = log\<rparr>, st)
      | Proxy \<Rightarrow>
          (\<lparr>out_verdict = Accept,
            out_mark = Some (if tp_is_tcp tp then TCP_MARK else UDP_MARK), out_log = log\<rparr>,
           st\<lparr>tracker := tracker_add (t_add env) (tp_src_port tp) sip dip (tp_dest_port tp) (tracker st)\<rparr>))"

definition process_flow ::
  "nfq_config \<Rightarrow> pkt_env \<Rightarrow> u32 \<Rightarrow> u32 \<Rightarrow> transport \<Rightarrow> nfq_state \<Rightarrow> (packet_out \<times> nfq_state) outcome"
where
  "process_flow cfg env sip dip tp st =
     (let is_tcp = tp_is_tcp tp; is_udp = (\<not> is_tcp); sport = tp_src_port tp; dport = tp_dest_port tp in
      if is_tcp \<and> sport = LOCAL_PROXY_PORT then Return (accept_out, st)
      else if is_udp \<and> sport = LOCAL_UDP_RELAY_PORT then Return (accept_out, st)
      else if is_tracked (tracker st) sport then Return (accept_out, st)
      else if is_tcp \<and> \<not> tp_is_syn tp then Return (accept_out, st)
      else obind (choose_action cfg env sip dip sport dport is_udp st) (\<lambda>(a, log, st').
             Return (apply_action env sip dip tp
                       (adjust_action (proxy_cfg cfg) dip dport is_udp a) log st')))"

definition process_packet ::
  "nfq_config \<Rightarrow> pkt_env \<Rightarrow> bytes \<Rightarrow> nfq_state \<Rightarrow> (packet_out \<times> nfq_state) outcome"
where
  "process_packet cfg env payload st =
     (if length payload < 20 then Return (accept_out, st)
      else obind (index payload 0) (\<lambda>version_ihl.
           obind (index payload 9) (\<lambda>proto.
           obind (subslice payload 12 16) (\<lambda>src.
           obind (subslice payload 16 20) (\<lambda>dst.
             let ihl = unat (version_ihl AND 0x0F) * 4;
                 sip = unwrap_or (u32_from_ne_bytes src) 0;
                 dip = unwrap_or (u32_from_ne_bytes dst) 0
             in if \<not> has_active_rules (engine st) then Return (accept_out, st)
                else obind (parse_transport payload ihl proto) (\<lambda>t.
                  case t of
                    None \<Rightarrow> Return (accept_out, st)
                  | Some tp \<Rightarrow> process_flow cfg env sip dip tp st))))))"

section \<open>The loop\<close>

text \<open>
  Each turn of the loop finds a receive error or a packet; the list ends when \<open>running\<close> is
  found false. A packet whose processing does not return ends the thread there.
\<close>

datatype nfq_event = Recv_error | Packet pkt_env bytes

fun nfq_loop :: "nfq_config \<Rightarrow> nfq_event list \<Rightarrow> nfq_state \<Rightarrow> (packet_out list \<times> nfq_state) outcome" where
  "nfq_loop cfg [] st = Return ([], st)"
| "nfq_loop cfg (Recv_error # es) st = nfq_loop cfg es st"
| "nfq_loop cfg (Packet env payload # es) st =
     obind (process_packet cfg env payload st) (\<lambda>(out, st').
       obind (nfq_loop cfg es st') (\<lambda>(outs, st''). Return (out # outs, st'')))"

datatype nfq_error = Queue_open_failed | Queue_bind_failed

definition run_nfqueue ::
  "bool \<Rightarrow> bool \<Rightarrow> nfq_config \<Rightarrow> nfq_event list \<Rightarrow> nfq_state
   \<Rightarrow> (nfq_error + packet_out list \<times> nfq_state) outcome"
where
  "run_nfqueue open_ok bind_ok cfg es st =
     (if \<not> open_ok then Return (Inl Queue_open_failed)
      else if \<not> bind_ok then Return (Inl Queue_bind_failed)
      else obind (nfq_loop cfg es st) (\<lambda>r. Return (Inr r)))"

lemmas nfq_defs [eval_defs] = accept_out_def IPPROTO_TCP_def IPPROTO_UDP_def unwrap_def read_port_def
  parse_transport_def choose_action_def adjust_action_def apply_action_def process_flow_def
  process_packet_def run_nfqueue_def

section \<open>Every access is in range\<close>

lemma read_port_in_range:
  "a + 2 \<le> length payload \<Longrightarrow> \<exists>p. read_port payload a = Return p"
  using u16_from_be_bytes_Some_iff [of "take 2 (drop a payload)"]
  by (auto simp: read_port_def unwrap_def)

lemma parse_transport_returns: "\<exists>t. parse_transport payload ihl proto = Return t"
proof -
  have "\<exists>p. read_port payload ihl = Return p" "\<exists>p. read_port payload (ihl + 2) = Return p"
    if "ihl + 8 \<le> length payload"
    using that read_port_in_range [of ihl payload] read_port_in_range [of "ihl + 2" payload] by simp_all
  then show ?thesis
    by (cases "ihl + 8 \<le> length payload") (auto simp: parse_transport_def obind_eq_Return not_le)
qed

lemma get_pid_not_panic: "get_pid_from_connection t t' w sip sport is_udp c \<noteq> Panic"
proof -
  have loop: "nl_recv_loop buf ds sip sport \<noteq> Panic" for buf ds
    by (induction buf ds sip sport rule: nl_recv_loop.induct)
      (auto simp: Let_def split: option.splits scan_result.splits)
  have "get_pid_via_netlink w sip sport is_udp \<noteq> Panic"
    using loop by (auto simp: get_pid_via_netlink_def obind_eq_Panic split: option.splits)
  then show ?thesis
    by (auto simp: get_pid_from_connection_def Let_def obind_eq_Panic split: option.splits)
qed

lemma process_flow_not_panic: "process_flow cfg env sip dip tp st \<noteq> Panic"
  using get_pid_not_panic
  by (auto simp: process_flow_def choose_action_def Let_def obind_eq_Panic split: option.splits prod.splits)

section \<open>What a packet's outcome tells\<close>

text \<open>The headers a packet is decided by.\<close>

definition header_of :: "bytes \<Rightarrow> (u32 \<times> u32 \<times> transport) option" where
  "header_of payload =
     (if length payload < 20 then None
      else case parse_transport payload (unat (payload ! 0 AND 0x0F) * 4) (payload ! 9) of
          Return (Some tp) \<Rightarrow> Some (rd32 payload 12, rd32 payload 16, tp)
        | _ \<Rightarrow> None)"

lemma rd32_unwrap_or:
  "i + 4 \<le> length payload \<Longrightarrow> unwrap_or (u32_from_ne_bytes (take 4 (drop i payload))) 0 = rd32 payload i"
  using u32_from_ne_bytes_Some_iff [of "take 4 (drop i payload)"]
  by (auto simp: rd32_def unwrap_or_def)

lemma header_access:
  assumes "\<not> length payload < 20"
  shows "index payload 0 = Return (payload ! 0)" and "index payload 9 = Return (payload ! 9)"
    and "subslice payload 12 16 = Return (take 4 (drop 12 payload))"
    and "subslice payload 16 20 = Return (take 4 (drop 16 payload))"
    and "unwrap_or (u32_from_ne_bytes (take 4 (drop 12 payload))) 0 = rd32 payload 12"
    and "unwrap_or (u32_from_ne_bytes (take 4 (drop 16 payload))) 0 = rd32 payload 16"
  using assms by (auto simp: index_def subslice_def rd32_unwrap_or)

lemma process_packet_header:
  "process_packet cfg env payload st =
     (case header_of payload of
        None \<Rightarrow> Return (accept_out, st)
      | Some (sip, dip, tp) \<Rightarrow>
          if has_active_rules (engine st) then process_flow cfg env sip dip tp st
          else Return (accept_out, st))"
proof (cases "length payload < 20")
  case True
  then show ?thesis by (simp add: process_packet_def header_of_def)
next
  case False
  obtain t where t: "parse_transport payload (unat (payload ! 0 AND 0x0F) * 4) (payload ! 9) = Return t"
    using parse_transport_returns by blast
  show ?thesis
    using False t by (cases t) (simp_all add: process_packet_def header_of_def header_access [OF False] Let_def)
qed

lemma adjust_action_cases:
  "adjust_action cfg dip dport is_udp a =
     (if a = Proxy \<and> (is_broadcast_or_multicast dip \<or> is_udp \<and> (dport = 67 \<or> dport = 68)
        \<or> is_udp \<and> proxy_type cfg \<noteq> Socks5 \<or> host cfg = [] \<or> port cfg = 0)
      then Direct else a)"
  by (auto simp: adjust_action_def Let_def)

text \<open>
  The exceptions, in terms of the bytes of an address: loopback, link-local, multicast and every
  address that ends in 255 are special; DNS when it is kept off the proxy, DHCP, UDP without a
  SOCKS5 proxy and any flow without a usable proxy are never proxied.
\<close>

definition special_address :: "u32 \<Rightarrow> bool" where
  "special_address ip = (case u32_to_ne_bytes ip of
       [a, b, c, d] \<Rightarrow> a = 127 \<or> (a = 169 \<and> b = 254) \<or> d = 255 \<or> (224 \<le> a \<and> a \<le> 239)
     | _ \<Rightarrow> False)"

definition exempt :: "proxy_config \<Rightarrow> bool \<Rightarrow> bool \<Rightarrow> u32 \<Rightarrow> u16 \<Rightarrow> bool" where
  "exempt pc dns is_udp dip dport =
     (special_address dip \<or> (dport = 53 \<and> \<not> dns) \<or> (is_udp \<and> dport \<in> {67, 68})
      \<or> (is_udp \<and> proxy_type pc = Http) \<or> host pc = [] \<or> port pc = 0)"

lemma last_octet: "(ip :: u32) AND 0xFF000000 = 0xFF000000 \<longleftrightarrow> (word_of_nat (unat ip div 16777216) :: u8) = 255"
proof -
  have "ip AND 0xFF000000 = push_bit 24 (drop_bit 24 ip)"
  proof (rule bit_word_eqI)
    fix n assume n: "n < LENGTH(32)"
    have "(0xFF000000 :: u32) = push_bit 24 (mask 8)" by (simp add: mask_eq_exp_minus_1)
    then show "bit (ip AND 0xFF000000) n = bit (push_bit 24 (drop_bit 24 ip)) n"
      using n by (simp only: bit_and_iff bit_push_bit_iff bit_mask_iff bit_drop_bit_eq o_apply) (auto simp: possible_bit_def)
  qed
  moreover have q: "unat ip div 16777216 < 256" using unat_u32_less [of ip] by (simp add: div_less_iff_less_mult)
  then have "16777216 * (unat ip div 16777216) mod 4294967296 = 16777216 * (unat ip div 16777216)"
    by (intro mod_less) linarith
  then have "unat (push_bit 24 (drop_bit 24 ip)) = 16777216 * (unat ip div 16777216)"
    by (simp add: push_bit_eq_mult unat_word_ariths unat_drop_u32 mult.commute)
  ultimately show ?thesis using q by (simp add: word_unat_eq_iff unat_of_nat_u8)
qed

lemma special_address_is: "is_broadcast_or_multicast ip = special_address ip"
proof -
  have "(ucast (drop_bit 8 ip AND 0xFF) :: u8) = word_of_nat (unat ip div 256)"
    by (simp add: ucast_and_FF unat_drop_u32)
  moreover have "ip = 0xFFFFFFFF \<Longrightarrow> ip AND 0xFF000000 = 0xFF000000" by simp
  ultimately show ?thesis
    by (auto simp: is_broadcast_or_multicast_def special_address_def u32_to_ne_bytes_eq ucast_and_FF
        last_octet Let_def)
qed

lemma exempt_dns: "exempt pc dns is_udp dip dport \<longleftrightarrow> exempt pc True is_udp dip dport \<or> (dport = 53 \<and> \<not> dns)"
  by (auto simp: exempt_def)

lemma adjust_action_exempt:
  "adjust_action pc dip dport is_udp a = (if a = Proxy \<and> exempt pc True is_udp dip dport then Direct else a)"
proof -
  have "proxy_type pc \<noteq> Socks5 \<longleftrightarrow> proxy_type pc = Http" by (cases "proxy_type pc") simp_all
  then show ?thesis by (auto simp: adjust_action_cases exempt_def special_address_is)
qed

text \<open>A flow that gets past the early returns: neither a relay's, nor tracked, nor mid-stream.\<close>

definition new_flow :: "transport \<Rightarrow> nfq_state \<Rightarrow> bool" where
  "new_flow tp st =
     (\<not> (tp_is_tcp tp \<and> tp_src_port tp = LOCAL_PROXY_PORT)
      \<and> \<not> (\<not> tp_is_tcp tp \<and> tp_src_port tp = LOCAL_UDP_RELAY_PORT)
      \<and> \<not> is_tracked (tracker st) (tp_src_port tp)
      \<and> (tp_is_tcp tp \<longrightarrow> tp_is_syn tp))"

lemma process_flow_new:
  "process_flow cfg env sip dip tp st =
     (if new_flow tp st
      then obind (choose_action cfg env sip dip (tp_src_port tp) (tp_dest_port tp) (\<not> tp_is_tcp tp) st)
             (\<lambda>(a, log, st'). Return (apply_action env sip dip tp
                (adjust_action (proxy_cfg cfg) dip (tp_dest_port tp) (\<not> tp_is_tcp tp) a) log st'))
      else Return (accept_out, st))"
  by (auto simp: process_flow_def new_flow_def Let_def)

text \<open>\<open>choose_action\<close> writes only the PID cache.\<close>

lemma choose_action_frame:
  "choose_action cfg env sip dip sport dport is_udp st = Return (a, log, st') \<Longrightarrow>
   engine st' = engine st \<and> tracker st' = tracker st"
  by (auto simp: choose_action_def Let_def obind_eq_Return split: if_splits option.splits)

text \<open>An action other than \<open>Direct\<close> is the engine's verdict on the name of another process.\<close>

lemma choose_action_not_direct:
  assumes "choose_action cfg env sip dip sport dport is_udp st = Return (a, log, st')" and "a \<noteq> Direct"
  obtains p name where "p \<noteq> 0" "p \<noteq> current_pid cfg" "get_process_name (world env) p = Some name"
    and "a = match_rule (engine st) name dip dport is_udp"
    and "get_pid_from_connection (t_get env) (t_put env) (world env) sip sport is_udp (pids st)
      = Return (p, pids st')"
  using assms
  by (auto simp: choose_action_def Let_def obind_eq_Return split: if_splits option.splits)

lemma choose_action_dns:
  "choose_action cfg env sip dip sport dport is_udp st = Return (a, log, st') \<Longrightarrow> a \<noteq> Direct \<Longrightarrow>
   dport = 53 \<longrightarrow> dns_via_proxy cfg"
  by (auto simp: choose_action_def split: if_splits)

section \<open>An example\<close>

text \<open>A TCP SYN from 10.0.0.5:40000 to 93.184.216.34:80, sent by \<open>/usr/bin/curl\<close>.\<close>

definition example_syn :: bytes where
  "example_syn = [0x45] @ replicate 8 0 @ [6, 0, 0, 10, 0, 0, 5, 93, 184, 216, 34]
     @ [0x9C, 0x40, 0, 80] @ replicate 9 0 @ [2] @ replicate 6 0"

definition example_tp :: transport where
  "example_tp = \<lparr>tp_src_port = 40000, tp_dest_port = 80, tp_is_tcp = True, tp_is_syn = True\<rparr>"

lemma example_syn_fields:
  "length example_syn = 40" "example_syn ! 0 = 0x45" "example_syn ! 9 = 6" "example_syn ! 33 = 2"
  "rd32 example_syn 12 = 0x0500000A" "rd32 example_syn 16 = 0x22D8B85D"
  "take 2 (drop 20 example_syn) = [0x9C, 0x40]" "take 2 (drop 22 example_syn) = [0, 80]"
  by (simp_all add: example_syn_def rd32_def nth_append nth_Cons')

lemma example_header: "header_of example_syn = Some (0x0500000A, 0x22D8B85D, example_tp)"
proof -
  have ihl: "unat ((0x45 :: u8) AND 0x0F) * 4 = 20" by simp
  have "parse_transport example_syn 20 6 = Return (Some example_tp)"
    by (simp add: parse_transport_def IPPROTO_TCP_def read_port_def unwrap_def example_syn_fields example_tp_def)
  then show ?thesis by (simp only: header_of_def example_syn_fields ihl) simp
qed

definition example_cfg :: nfq_config where
  "example_cfg = \<lparr>proxy_cfg = \<lparr>proxy_type = Socks5, host = ''127.0.0.1'', port = 1080, username = None,
     password = None, resolved_ip = Some 0x0100007F\<rparr>, dns_via_proxy = True, current_pid = 99, verbose_level = 0\<rparr>"

definition example_env :: pkt_env where
  "example_env = \<lparr>world = example_os, t_get = 1, t_put = 2, t_add = 3\<rparr>"

definition example_state :: "rule_action \<Rightarrow> nfq_state" where
  "example_state a = \<lparr>engine = \<lparr>next_rule_id = 2, rules = [\<lparr>rule_id = 1, process_name = ''*'', target_hosts = ''*'',
     target_ports = ''*'', protocol = Both, action = a, enabled = True\<rparr>]\<rparr>,
     tracker = tracker_new, pids = pid_cache_new\<rparr>"

lemma example_match: "match_rule (engine (example_state a)) name ip p is_udp = a"
  by (simp add: example_state_def match_rule_def is_wildcard_process_def)

definition example_cache :: pid_cache where
  "example_cache = pid_put 2 0x0500000A 40000 4242 False pid_cache_new"

lemma example_choose:
  "choose_action (example_cfg\<lparr>current_pid := own\<rparr>) example_env 0x0500000A 0x22D8B85D 40000 80 False (example_state a)
     = Return (if own = 4242 then Direct else a, [], (example_state a)\<lparr>pids := example_cache\<rparr>)"
  using example_lookup [of 1 2 False] example_name example_match [of a]
  by (simp add: choose_action_def example_cfg_def example_env_def example_cache_def Let_def)
    (simp add: example_state_def)

lemma example_packet:
  "process_packet (example_cfg\<lparr>current_pid := own\<rparr>) example_env example_syn (example_state a)
     = Return (apply_action example_env 0x0500000A 0x22D8B85D example_tp (if own = 4242 then Direct else a) []
         ((example_state a)\<lparr>pids := example_cache\<rparr>))"
proof -
  have active: "has_active_rules (engine (example_state a))"
    by (simp add: has_active_rules_def example_state_def)
  have new: "new_flow example_tp (example_state a)"
    by (simp add: new_flow_def example_tp_def example_state_def is_tracked_def tracker_new_def LOCAL_PROXY_PORT_def)
  have adjust: "adjust_action (proxy_cfg example_cfg) 0x22D8B85D 80 False b = b" for b
    by (simp add: adjust_action_cases is_broadcast_or_multicast_def example_cfg_def)
  have tp: "tp_src_port example_tp = 40000" "tp_dest_port example_tp = 80" "tp_is_tcp example_tp"
    by (simp_all add: example_tp_def)
  have cfg: "proxy_cfg (example_cfg\<lparr>current_pid := own\<rparr>) = proxy_cfg example_cfg" by simp
  show ?thesis
    using active new
    by (simp only: process_packet_header example_header option.case prod.case process_flow_new tp if_True
        not_True_eq_False example_choose obind.simps cfg adjust)
qed

section \<open>The properties of the packet processor\<close>

text \<open>C15: no packet, however short or malformed, makes the processor panic: every slice and index of
  the header parsing is in range, and so is every one in a whole run of the loop.\<close>

theorem packet_processing_never_panics:
  "process_packet cfg env payload st \<noteq> Panic \<and> nfq_loop cfg evs st \<noteq> Panic"
proof -
  have one: "process_packet cfg env payload st \<noteq> Panic" for cfg env payload st
    using process_flow_not_panic by (auto simp: process_packet_header split: option.split)
  moreover have "nfq_loop cfg evs st \<noteq> Panic"
    by (induction cfg evs st rule: nfq_loop.induct) (auto simp: obind_eq_Panic one)
  ultimately show ?thesis by blast
qed

lemma decide_covered:
  assumes "match_rule e name ip p is_udp \<noteq> Direct"
  shows "\<exists>r \<in> set (rules e). covers name ip p is_udp r \<and> action r = match_rule e name ip p is_udp"
proof -
  have "\<exists>P. first_action (\<lambda>r. covers name ip p is_udp r \<and> P r) (rules e) = Some (match_rule e name ip p is_udp)"
    using assms unfolding match_rule_decide decide_def unwrap_or_def
    by (auto split: option.splits)
  then obtain P where
    "first_action (\<lambda>r. covers name ip p is_udp r \<and> P r) (rules e) = Some (match_rule e name ip p is_udp)" ..
  from first_action_Some [OF this] show ?thesis by blast
qed

text \<open>C14: a packet is dropped only when it opens a flow of another process, the one that the lookup
  gives for the packet's source address, source port and protocol, whose program an enabled
  blocking rule covers for this destination and protocol, the rules' verdict on it being to block,
  and not when it goes to DNS that is kept off the proxy; nothing is marked or recorded then.\<close>

theorem drop_needs_block_rule:
  assumes "process_packet cfg env payload st = Return (out, st')" and "out_verdict out = Drop"
  shows "\<exists>sip dip tp p name r. header_of payload = Some (sip, dip, tp) \<and> new_flow tp st
    \<and> (tp_dest_port tp = 53 \<longrightarrow> dns_via_proxy cfg)
    \<and> get_pid_from_connection (t_get env) (t_put env) (world env) sip (tp_src_port tp) (\<not> tp_is_tcp tp) (pids st)
        = Return (p, pids st')
    \<and> p \<noteq> 0 \<and> p \<noteq> current_pid cfg \<and> get_process_name (world env) p = Some name
    \<and> match_rule (engine st) name dip (tp_dest_port tp) (\<not> tp_is_tcp tp) = Block
    \<and> r \<in> set (rules (engine st)) \<and> covers name dip (tp_dest_port tp) (\<not> tp_is_tcp tp) r \<and> action r = Block
    \<and> out_mark out = None \<and> tracker st' = tracker st"
proof -
  from assms obtain sip dip tp where h: "header_of payload = Some (sip, dip, tp)"
      and f: "process_flow cfg env sip dip tp st = Return (out, st')"
    by (auto simp: process_packet_header accept_out_def split: option.splits if_splits)
  with assms(2) obtain a log st1 where new: "new_flow tp st"
      and c: "choose_action cfg env sip dip (tp_src_port tp) (tp_dest_port tp) (\<not> tp_is_tcp tp) st = Return (a, log, st1)"
      and o: "(out, st') = apply_action env sip dip tp
            (adjust_action (proxy_cfg cfg) dip (tp_dest_port tp) (\<not> tp_is_tcp tp) a) log st1"
    by (auto simp: process_flow_new obind_eq_Return accept_out_def split: if_splits)
  have "adjust_action (proxy_cfg cfg) dip (tp_dest_port tp) (\<not> tp_is_tcp tp) a = Block"
    using o assms(2) by (auto simp: apply_action_def split: rule_action.splits)
  then have a: "a = Block" by (simp add: adjust_action_cases split: if_splits)
  then have st': "st' = st1" using o by (simp add: apply_action_def adjust_action_cases)
  have "tp_dest_port tp = 53 \<longrightarrow> dns_via_proxy cfg" using choose_action_dns [OF c] a by simp
  moreover from c a obtain p name where "p \<noteq> 0" "p \<noteq> current_pid cfg" "get_process_name (world env) p = Some name"
      and "get_pid_from_connection (t_get env) (t_put env) (world env) sip (tp_src_port tp) (\<not> tp_is_tcp tp) (pids st)
        = Return (p, pids st')"
      and m: "Block = match_rule (engine st) name dip (tp_dest_port tp) (\<not> tp_is_tcp tp)"
    unfolding st' by (auto elim: choose_action_not_direct)
  moreover obtain r where "r \<in> set (rules (engine st))"
      "covers name dip (tp_dest_port tp) (\<not> tp_is_tcp tp) r" "action r = Block"
    using decide_covered [of "engine st" name dip "tp_dest_port tp" "\<not> tp_is_tcp tp"] m by auto
  moreover have "out_mark out = None \<and> tracker st' = tracker st"
    using o a choose_action_frame [OF c] by (simp add: apply_action_def adjust_action_cases)
  ultimately show ?thesis using h new by metis
qed

theorem drop_needs_block_rule_witness:
  "\<exists>sip dip tp p c. header_of example_syn = Some (sip, dip, tp) \<and> new_flow tp (example_state Block)
    \<and> get_pid_from_connection 1 2 example_os sip (tp_src_port tp) (\<not> tp_is_tcp tp) pid_cache_new = Return (p, c)
    \<and> p \<noteq> 0"
proof -
  have env: "t_get example_env = 1" "t_put example_env = 2" "world example_env = example_os"
      "pids (example_state Block) = pid_cache_new"
    by (simp_all add: example_env_def example_state_def)
  show ?thesis
    using drop_needs_block_rule [OF example_packet [of 99 Block, unfolded apply_action_def, simplified]]
    unfolding env by fastforce
qed

text \<open>C16: the traffic of the bridge itself is let through unmarked, unrecorded and never blocked,
  whatever the rules say: no connection of the relays to the proxy is proxied again.\<close>

theorem own_traffic_untouched:
  assumes "header_of payload = Some (sip, dip, tp)"
    and "get_pid_from_connection (t_get env) (t_put env) (world env) sip (tp_src_port tp) (\<not> tp_is_tcp tp) (pids st)
      = Return (current_pid cfg, c)"
    and "process_packet cfg env payload st = Return (out, st')"
  shows "out_verdict out = Accept \<and> out_mark out = None \<and> tracker st' = tracker st"
  using assms
  by (auto simp: process_packet_header process_flow_new choose_action_def apply_action_def
      adjust_action_cases accept_out_def Let_def split: if_splits)

theorem own_traffic_untouched_witness:
  "process_packet (example_cfg\<lparr>current_pid := 4242\<rparr>) example_env example_syn (example_state Block)
     = Return (accept_out, (example_state Block)\<lparr>pids := example_cache\<rparr>) \<and> out_verdict accept_out = Accept"
proof -
  have p: "process_packet (example_cfg\<lparr>current_pid := 4242\<rparr>) example_env example_syn (example_state Block)
     = Return (accept_out, (example_state Block)\<lparr>pids := example_cache\<rparr>)"
    by (simp add: example_packet apply_action_def accept_out_def)
  have "get_pid_from_connection (t_get example_env) (t_put example_env) (world example_env) 0x0500000A
      (tp_src_port example_tp) (\<not> tp_is_tcp example_tp) (pids (example_state Block))
      = Return (current_pid (example_cfg\<lparr>current_pid := 4242\<rparr>), example_cache)"
    using example_lookup [of 1 2 False]
    by (simp add: example_env_def example_tp_def example_state_def example_cache_def)
  from own_traffic_untouched [OF example_header this p] p show ?thesis by simp
qed

text \<open>What the adjustments may do: raise the exposure of a flow, and only from \<open>Proxy\<close>.\<close>

lemma adjust_action_raises: "a \<le> adjust_action cfg dip dport is_udp a"
  by (cases a) (simp_all add: adjust_action_cases less_eq_rule_action_def)

text \<open>The version of the header is not looked at: an IPv6 packet is read as if it were IPv4.\<close>

lemma header_version:
  assumes "v AND 0x0F = w AND 0x0F" and "v AND 0x0F \<noteq> 0"
  shows "header_of (v # rest) = header_of (w # rest)"
proof -
  define ihl where "ihl = unat (w AND 0x0F) * 4"
  have pos: "0 < ihl" using assms by (simp add: ihl_def unat_gt_0)
  then obtain k where "ihl = Suc k" by (cases ihl) simp_all
  then have "parse_transport (v # rest) ihl q = parse_transport (w # rest) ihl q" for q
    by (simp add: parse_transport_def read_port_def subslice_def index_def)
  moreover have "rd32 (v # rest) (Suc i) = rd32 (w # rest) (Suc i)" for i by (simp add: rd32_def)
  from this [of 11] this [of 15] have "rd32 (v # rest) 12 = rd32 (w # rest) 12" "rd32 (v # rest) 16 = rd32 (w # rest) 16"
    by simp_all
  ultimately show ?thesis
    using assms(1) by (simp add: header_of_def ihl_def split: outcome.split option.split)
qed

lemma version_ignored:
  "v AND 0x0F = w AND 0x0F \<Longrightarrow> v AND 0x0F \<noteq> 0 \<Longrightarrow>
   process_packet cfg env (v # rest) st = process_packet cfg env (w # rest) st"
  using header_version [of v w rest] by (simp add: process_packet_header)

text \<open>A port that is recorded lets every packet from it through, for any protocol and destination.\<close>

lemma tracked_port_bypasses_rules:
  "is_tracked (tracker st) (tp_src_port tp) \<Longrightarrow> process_flow cfg env sip dip tp st = Return (accept_out, st)"
  by (simp add: process_flow_new new_flow_def)

end
