(* ===== verification/Net_Stream.thy ===== *)
theory Net_Stream
  imports Str_Facts Config
begin

text \<open>
  A TCP connection as the handshakes see it, and the sequencing of I/O that can fail. The
  environment of a run is in the state: the segments the peer will deliver, what follows
  them (end of file or a reset), and how many bytes the connection still accepts. The three
  calls are \<open>write_all\<close>, \<open>read_exact\<close> and \<open>read\<close> with their documented contracts.
\<close>

record tcp_stream =
  rx :: "bytes list"
  rx_reset :: bool
  tx :: bytes
  tx_room :: "nat option"

text \<open>The errors the handshakes return; each \<open>bail!\<close> of the code is a constructor.\<close>

datatype net_error =
    Write_failed
  | Unexpected_eof
  | Read_failed
  | Connect_failed
  | Bind_failed
  | Not_resolved
  | Socks_bad_version u8
  | Socks_auth_failed
  | Socks_unsupported_method u8
  | Socks_refused u8
  | Socks_bad_atyp u8
  | Http_too_short nat
  | Http_invalid
  | Http_status u16

type_synonym 'a io = "tcp_stream \<Rightarrow> (net_error + 'a) \<times> tcp_stream"

definition io_return :: "'a \<Rightarrow> 'a io" where
  "io_return x s = (Inr x, s)"

definition io_fail :: "net_error \<Rightarrow> 'a io" where
  "io_fail e s = (Inl e, s)"

definition io_bind :: "'a io \<Rightarrow> ('a \<Rightarrow> 'b io) \<Rightarrow> 'b io" where
  "io_bind m f s = (case m s of (Inl e, s') \<Rightarrow> (Inl e, s') | (Inr x, s') \<Rightarrow> f x s')"

definition write_all :: "bytes \<Rightarrow> unit io" where
  "write_all buf s =
     (case tx_room s of
        None \<Rightarrow> (Inr (), s\<lparr>tx := tx s @ buf\<rparr>)
      | Some n \<Rightarrow>
          if length buf \<le> n
          then (Inr (), s\<lparr>tx := tx s @ buf, tx_room := Some (n - length buf)\<rparr>)
          else (Inl Write_failed, s\<lparr>tx := tx s @ take n buf, tx_room := Some 0\<rparr>))"

fun take_segs :: "nat \<Rightarrow> bytes list \<Rightarrow> (bytes \<times> bytes list) option" where
  "take_segs n [] = (if n = 0 then Some ([], []) else None)"
| "take_segs n (seg # segs) =
     (if n = 0 then Some ([], seg # segs)
      else if length seg \<le> n
      then map_option (\<lambda>(a, b). (seg @ a, b)) (take_segs (n - length seg) segs)
      else Some (take n seg, drop n seg # segs))"

definition read_exact :: "nat \<Rightarrow> bytes io" where
  "read_exact n s =
     (case take_segs n (rx s) of
        Some (bs, segs) \<Rightarrow> (Inr bs, s\<lparr>rx := segs\<rparr>)
      | None \<Rightarrow> (Inl (if rx_reset s then Read_failed else Unexpected_eof), s\<lparr>rx := []\<rparr>))"

text \<open>One \<open>read\<close> returns what the next segment holds, at most the size of the buffer; 0 bytes at the end.\<close>

definition read_some :: "nat \<Rightarrow> bytes io" where
  "read_some n s =
     (case dropWhile (\<lambda>seg. seg = []) (rx s) of
        [] \<Rightarrow> (if rx_reset s then Inl Read_failed else Inr [], s\<lparr>rx := []\<rparr>)
      | seg # segs \<Rightarrow>
          if length seg \<le> n then (Inr seg, s\<lparr>rx := segs\<rparr>)
          else (Inr (take n seg), s\<lparr>rx := drop n seg # segs\<rparr>))"

lemmas io_defs [eval_defs] = io_return_def io_fail_def io_bind_def write_all_def read_exact_def
  read_some_def

section \<open>Laws\<close>

lemma take_segs_Some_iff:
  "(\<exists>r. take_segs n segs = Some r) \<longleftrightarrow> n \<le> length (concat segs)"
  by (induction n segs rule: take_segs.induct) auto

lemma take_segs_concat:
  "take_segs n segs = Some (bs, segs') \<Longrightarrow> concat segs = bs @ concat segs' \<and> length bs = n"
proof (induction n segs arbitrary: bs rule: take_segs.induct)
  case (2 n seg segs)
  show ?case
  proof (cases "n \<noteq> 0 \<and> length seg \<le> n")
    case True
    then obtain a where "take_segs (n - length seg) segs = Some (a, segs')" and "bs = seg @ a"
      using "2.prems" by auto
    with "2.IH" True show ?thesis by fastforce
  next
    case False
    with "2.prems" show ?thesis by (auto split: if_splits)
  qed
qed (auto split: if_splits)

text \<open>How the peer cuts its bytes into segments does not matter to \<open>read_exact\<close>.\<close>

lemma read_exact_ok:
  assumes "concat (rx s) = bs @ rest" and "length bs = n"
  obtains segs where "read_exact n s = (Inr bs, s\<lparr>rx := segs\<rparr>)" and "concat segs = rest"
proof -
  have "n \<le> length (concat (rx s))" using assms by simp
  then obtain a segs where t: "take_segs n (rx s) = Some (a, segs)"
    using take_segs_Some_iff by fastforce
  from take_segs_concat [OF t] assms have "a = bs" and "concat segs = rest"
    by (metis append_eq_append_conv)+
  with t that show thesis by (simp add: read_exact_def)
qed

lemma read_exact_eof:
  "length (concat (rx s)) < n \<Longrightarrow> fst (read_exact n s) = Inl (if rx_reset s then Read_failed else Unexpected_eof)"
  using take_segs_Some_iff [of n "rx s"]
  by (auto simp: read_exact_def split: option.split)

lemma read_exact_Inr:
  "read_exact n s = (Inr bs, s') \<Longrightarrow>
   \<exists>segs. s' = s\<lparr>rx := segs\<rparr> \<and> concat (rx s) = bs @ concat segs \<and> length bs = n"
  by (auto simp: read_exact_def split: option.splits dest!: take_segs_concat)

lemma concat_dropWhile_nil: "concat (dropWhile (\<lambda>seg. seg = []) segs) = concat segs"
  by (induction segs) auto

text \<open>One \<open>read\<close>, by what is left to arrive.\<close>

lemma read_some_cases:
  obtains (ended) "concat (rx s) = []"
      "read_some n s = (if rx_reset s then Inl Read_failed else Inr [], s\<lparr>rx := []\<rparr>)"
  | (some) seg segs where "concat (rx s) = seg @ concat segs" "seg \<noteq> []"
      "read_some n s = (Inr (take n seg), s\<lparr>rx := (if length seg \<le> n then segs else drop n seg # segs)\<rparr>)"
proof (cases "dropWhile (\<lambda>seg. seg = []) (rx s)")
  case Nil
  then have "concat (rx s) = []" using concat_dropWhile_nil [of "rx s"] by simp
  then show thesis by (rule ended) (unfold read_some_def Nil, simp)
next
  case (Cons seg segs)
  then have "concat (rx s) = seg @ concat segs" using concat_dropWhile_nil [of "rx s"] by simp
  moreover have "seg \<noteq> []" using hd_dropWhile [of "\<lambda>seg. seg = []" "rx s"] Cons by simp
  ultimately show thesis by (rule some) (unfold read_some_def Cons, simp)
qed

lemma read_some_Inr:
  assumes "read_some n s = (Inr bs, s')"
  shows "concat (rx s) = bs @ concat (rx s') \<and> tx s' = tx s \<and> length bs \<le> n"
proof (cases rule: read_some_cases [where s = s and n = n])
  case ended
  with assms show ?thesis by (auto split: if_splits)
next
  case (some seg segs)
  with assms show ?thesis by auto
qed

lemma io_bind_Inr:
  "io_bind m f s = (Inr y, t) \<longleftrightarrow> (\<exists>x s'. m s = (Inr x, s') \<and> f x s' = (Inr y, t))"
  by (auto simp: io_bind_def split: prod.splits sum.splits)

lemma io_bind_step: "m s = (Inr x, s') \<Longrightarrow> io_bind m f s = f x s'"
  by (simp add: io_bind_def)

lemma io_bind_stop: "m s = (Inl e, s') \<Longrightarrow> io_bind m f s = (Inl e, s')"
  by (simp add: io_bind_def)

lemma write_all_free: "tx_room s = None \<Longrightarrow> write_all buf s = (Inr (), s\<lparr>tx := tx s @ buf\<rparr>)"
  by (simp add: write_all_def)

lemma write_all_Inr:
  "write_all buf s = (Inr u, s') \<Longrightarrow> tx s' = tx s @ buf \<and> rx s' = rx s \<and> rx_reset s' = rx_reset s
     \<and> (tx_room s = None \<longrightarrow> tx_room s' = None)"
  by (auto simp: write_all_def split: option.splits if_splits)

section \<open>The contract of a handshake\<close>

text \<open>
  Whatever a handshake does and however it ends, it only appends to what was sent and only
  consumes from the front of what the peer sends: nothing sent is taken back, nothing unread
  is invented or reordered. A tunnel opened after it carries exactly the rest.
\<close>

definition stream_extends :: "tcp_stream \<Rightarrow> tcp_stream \<Rightarrow> bool" where
  "stream_extends s t =
     ((\<exists>w. tx t = tx s @ w) \<and> (\<exists>r. concat (rx s) = r @ concat (rx t)) \<and> rx_reset t = rx_reset s)"

definition well_behaved :: "'a io \<Rightarrow> bool" where
  "well_behaved m = (\<forall>s. stream_extends s (snd (m s)))"

lemma stream_extends_refl [simp]: "stream_extends s s"
  by (simp add: stream_extends_def)

lemma stream_extends_trans: "stream_extends s t \<Longrightarrow> stream_extends t u \<Longrightarrow> stream_extends s u"
  by (auto simp: stream_extends_def)

named_theorems behaved \<open>operations that only append output and consume input from the front\<close>

lemma behaved_return [behaved]: "well_behaved (io_return x)"
  by (simp add: well_behaved_def io_return_def)

lemma behaved_fail [behaved]: "well_behaved (io_fail e)"
  by (simp add: well_behaved_def io_fail_def)

lemma behaved_write_all [behaved]: "well_behaved (write_all buf)"
  by (auto simp: well_behaved_def write_all_def stream_extends_def split: option.splits)

lemma behaved_read_exact [behaved]: "well_behaved (read_exact n)"
  by (auto simp: well_behaved_def read_exact_def stream_extends_def split: option.splits
      dest!: take_segs_concat)

lemma behaved_read_some [behaved]: "well_behaved (read_some n)"
proof -
  have "stream_extends s (snd (read_some n s))" for s
  proof (cases rule: read_some_cases [where s = s and n = n])
    case ended
    then show ?thesis by (simp add: stream_extends_def)
  next
    case (some seg segs)
    then have "concat (rx s) = take n seg @ concat (rx (snd (read_some n s)))" by simp
    moreover have "tx (snd (read_some n s)) = tx s @ []" "rx_reset (snd (read_some n s)) = rx_reset s"
      using some by simp_all
    ultimately show ?thesis unfolding stream_extends_def by blast
  qed
  then show ?thesis by (simp add: well_behaved_def)
qed

lemma behaved_bind [behaved]:
  assumes "well_behaved m" and "\<And>x. well_behaved (f x)"
  shows "well_behaved (io_bind m f)"
proof -
  have "stream_extends s (snd (io_bind m f s))" for s
  proof (cases "m s")
    case (Pair r s')
    have "stream_extends s s'" using assms(1) Pair by (metis well_behaved_def snd_conv)
    moreover have "stream_extends s' (snd (f x s'))" for x
      using assms(2) by (simp add: well_behaved_def)
    ultimately show ?thesis
      using Pair by (cases r) (auto simp: io_bind_def intro: stream_extends_trans)
  qed
  then show ?thesis by (simp add: well_behaved_def)
qed

lemma behaved_if [behaved]: "well_behaved a \<Longrightarrow> well_behaved b \<Longrightarrow> well_behaved (if c then a else b)"
  by simp

locale handshake =
  fixes hs :: "'a io"
  assumes behaved_hs: "well_behaved hs"
begin

lemma sent_prefix: "\<exists>w. tx (snd (hs s)) = tx s @ w"
  using behaved_hs by (simp add: well_behaved_def stream_extends_def)

lemma unread_suffix: "\<exists>r. concat (rx s) = r @ concat (rx (snd (hs s)))"
  using behaved_hs by (simp add: well_behaved_def stream_extends_def)

text \<open>
  What is left for the tunnel is a suffix of what the peer sent, so a tunnel that hands it
  on in order delivers the peer's bytes in order, without those the handshake consumed.
\<close>

lemma tunnel_bytes:
  "\<exists>k. concat (rx (snd (hs s))) = drop k (concat (rx s))"
  using unread_suffix [of s] by (metis append_eq_conv_conj)

end

end
