(* ===== verification/Socks5.thy ===== *)
theory Socks5
  imports Net_Stream
begin

text \<open>
  \<open>proxy/socks5.rs\<close>: the SOCKS5 client. Method negotiation and authentication, which the
  code writes out in both handshakes, is \<open>socks5_negotiate\<close>; CONNECT and UDP ASSOCIATE
  follow; then the UDP datagram header. The decoders of the last sections are the server's
  reading of the same bytes (RFC 1928, RFC 1929): the specification the messages refine.
\<close>

section \<open>Messages\<close>

definition greeting :: "bool \<Rightarrow> bytes" where
  "greeting use_auth =
     SOCKS5_VERSION # (if use_auth then [0x02, SOCKS5_AUTH_NONE, SOCKS5_AUTH_PASSWORD]
                       else [0x01, SOCKS5_AUTH_NONE])"

text \<open>\<open>user.len() as u8\<close> keeps the low eight bits of the length.\<close>

definition auth_message :: "string \<Rightarrow> string \<Rightarrow> bytes" where
  "auth_message user pass =
     [0x01, word_of_nat (length user)] @ str_bytes user
     @ [word_of_nat (length pass)] @ str_bytes pass"

definition connect_request :: "u32 \<Rightarrow> u16 \<Rightarrow> bytes" where
  "connect_request dest_ip dest_port =
     [SOCKS5_VERSION, SOCKS5_CMD_CONNECT, 0x00, SOCKS5_ATYP_IPV4]
     @ u32_to_ne_bytes dest_ip @ u16_to_be_bytes dest_port"

definition associate_request :: bytes where
  "associate_request =
     [SOCKS5_VERSION, SOCKS5_CMD_UDP_ASSOCIATE, 0x00, SOCKS5_ATYP_IPV4, 0, 0, 0, 0, 0, 0]"

section \<open>Handshakes\<close>

definition use_auth :: "string option \<Rightarrow> string option \<Rightarrow> bool" where
  "use_auth user pass = (user \<noteq> None \<and> pass \<noteq> None)"

definition socks5_negotiate :: "string option \<Rightarrow> string option \<Rightarrow> unit io" where
  "socks5_negotiate user pass =
     io_bind (write_all (greeting (use_auth user pass))) (\<lambda>_.
     io_bind (read_exact 2) (\<lambda>resp.
       if resp ! 0 \<noteq> SOCKS5_VERSION then io_fail (Socks_bad_version (resp ! 0))
       else if resp ! 1 = SOCKS5_AUTH_PASSWORD \<and> use_auth user pass then
         io_bind (write_all (auth_message (the user) (the pass))) (\<lambda>_.
         io_bind (read_exact 2) (\<lambda>auth_resp.
           if auth_resp ! 0 \<noteq> 0x01 \<or> auth_resp ! 1 \<noteq> 0x00 then io_fail Socks_auth_failed
           else io_return ()))
       else if resp ! 1 \<noteq> SOCKS5_AUTH_NONE then io_fail (Socks_unsupported_method (resp ! 1))
       else io_return ()))"

definition socks5_connect :: "u32 \<Rightarrow> u16 \<Rightarrow> string option \<Rightarrow> string option \<Rightarrow> unit io" where
  "socks5_connect dest_ip dest_port user pass =
     io_bind (socks5_negotiate user pass) (\<lambda>_.
     io_bind (write_all (connect_request dest_ip dest_port)) (\<lambda>_.
     io_bind (read_exact 10) (\<lambda>resp.
       if resp ! 0 \<noteq> SOCKS5_VERSION then io_fail (Socks_bad_version (resp ! 0))
       else if resp ! 1 \<noteq> 0x00 then io_fail (Socks_refused (resp ! 1))
       else io_return ())))"

definition socks5_udp_associate :: "string option \<Rightarrow> string option \<Rightarrow> (u32 \<times> u16) io" where
  "socks5_udp_associate user pass =
     io_bind (socks5_negotiate user pass) (\<lambda>_.
     io_bind (write_all associate_request) (\<lambda>_.
     io_bind (read_exact 10) (\<lambda>resp.
       if resp ! 0 \<noteq> SOCKS5_VERSION \<or> resp ! 1 \<noteq> 0x00 then io_fail (Socks_refused (resp ! 1))
       else if resp ! 3 \<noteq> SOCKS5_ATYP_IPV4 then io_fail (Socks_bad_atyp (resp ! 3))
       else io_return (the (u32_from_ne_bytes (take 4 (drop 4 resp))),
                       the (u16_from_be_bytes (take 2 (drop 8 resp)))))))"

section \<open>UDP datagrams\<close>

definition build_socks5_udp_packet :: "u32 \<Rightarrow> u16 \<Rightarrow> bytes \<Rightarrow> bytes" where
  "build_socks5_udp_packet dest_ip dest_port data =
     [0x00, 0x00, 0x00] @ [SOCKS5_ATYP_IPV4] @ u32_to_ne_bytes dest_ip
     @ u16_to_be_bytes dest_port @ data"

definition parse_socks5_udp_packet :: "bytes \<Rightarrow> (u32 \<times> u16 \<times> nat) option" where
  "parse_socks5_udp_packet packet =
     (if length packet < 10 then None
      else if packet ! 2 \<noteq> 0x00 then None
      else if packet ! 3 \<noteq> SOCKS5_ATYP_IPV4 then None
      else Option.bind (u32_from_ne_bytes (take 4 (drop 4 packet))) (\<lambda>src_ip.
           Option.bind (u16_from_be_bytes (take 2 (drop 8 packet))) (\<lambda>src_port.
           Some (src_ip, src_port, 10))))"

lemmas socks5_defs [eval_defs] = greeting_def auth_message_def connect_request_def
  associate_request_def use_auth_def socks5_negotiate_def socks5_connect_def
  socks5_udp_associate_def build_socks5_udp_packet_def parse_socks5_udp_packet_def

lemma length_connect_request [simp]: "length (connect_request ip p) = 10"
  by (simp add: connect_request_def)

section \<open>The handshakes keep the stream contract\<close>

lemma behaved_negotiate [behaved]: "well_behaved (socks5_negotiate user pass)"
  unfolding socks5_negotiate_def by (intro behaved)

lemma behaved_connect [behaved]: "well_behaved (socks5_connect ip p user pass)"
  unfolding socks5_connect_def by (intro behaved)

lemma behaved_associate [behaved]: "well_behaved (socks5_udp_associate user pass)"
  unfolding socks5_udp_associate_def by (intro behaved)

interpretation connect_hs: handshake "socks5_connect ip p user pass" for ip p user pass
  by unfold_locales (rule behaved_connect)

interpretation associate_hs: handshake "socks5_udp_associate user pass" for user pass
  by unfold_locales (rule behaved_associate)

section \<open>The server's reading of the messages\<close>

text \<open>RFC 1929: version, length and user name, length and password, nothing after them.\<close>

definition rfc1929_decode :: "bytes \<Rightarrow> (bytes \<times> bytes) option" where
  "rfc1929_decode bs =
     (case bs of
        v # ul # rest \<Rightarrow>
          if v \<noteq> 1 \<or> length rest \<le> unat ul then None
          else let pl = rest ! unat ul; pw = drop (Suc (unat ul)) rest
               in if length pw = unat pl then Some (take (unat ul) rest, pw) else None
      | _ \<Rightarrow> None)"

lemma rfc1929_decode_auth_message:
  assumes "length user < 256" and "length pass < 256"
  shows "rfc1929_decode (auth_message user pass) = Some (str_bytes user, str_bytes pass)"
  using assms by (simp add: rfc1929_decode_def auth_message_def unat_of_nat_u8 nth_append)

text \<open>RFC 1928: a request or reply with an IPv4 address.\<close>

fun rfc1928_decode :: "bytes \<Rightarrow> (u8 \<times> u32 \<times> u16) option" where
  "rfc1928_decode [v, c, r, t, a0, a1, a2, a3, p0, p1] =
     (if v = 5 \<and> r = 0 \<and> t = 1
      then Some (c, the (u32_from_ne_bytes [a0, a1, a2, a3]), the (u16_from_be_bytes [p0, p1]))
      else None)"
| "rfc1928_decode _ = None"

lemma four_bytes:
  assumes "length bs = 4"
  obtains a b c d where "bs = [a, b, c, d]"
  using assms by (auto simp: numeral_eq_Suc length_Suc_conv)

lemma two_bytes:
  assumes "length bs = 2"
  obtains a b where "bs = [a, b]"
  using assms by (auto simp: numeral_eq_Suc length_Suc_conv)

lemma rfc1928_decode_connect_request:
  "rfc1928_decode (connect_request ip p) = Some (1, ip, p)"
proof -
  obtain a b c d where ip: "u32_to_ne_bytes ip = [a, b, c, d]"
    by (rule four_bytes [of "u32_to_ne_bytes ip"]) simp
  obtain e f where p: "u16_to_be_bytes p = [e, f]"
    by (rule two_bytes [of "u16_to_be_bytes p"]) simp
  have "u32_from_ne_bytes [a, b, c, d] = Some ip" "u16_from_be_bytes [e, f] = Some p"
    using u32_ne_roundtrip [of ip] u16_be_roundtrip [of p] by (simp_all only: ip p)
  then show ?thesis
    by (simp add: connect_request_def ip p socks5_consts del: u32_from_ne_bytes.simps u16_from_be_bytes.simps)
qed

section \<open>Datagram round trip\<close>

lemma parse_build_udp:
  "parse_socks5_udp_packet (build_socks5_udp_packet ip p data) = Some (ip, p, 10)"
  by (simp add: parse_socks5_udp_packet_def build_socks5_udp_packet_def numeral_eq_Suc)

lemma build_udp_payload: "drop 10 (build_socks5_udp_packet ip p data) = data"
  by (simp add: build_socks5_udp_packet_def numeral_eq_Suc)

text \<open>What is parsed as a datagram: two bytes that are not looked at, 0, 1, the address and the port, then the data.\<close>

lemma parse_udp_bytes:
  assumes "length rsv = 2"
  shows "parse_socks5_udp_packet (rsv @ [0, 1] @ u32_to_ne_bytes ip @ u16_to_be_bytes p @ data) = Some (ip, p, 10)"
    and "drop 10 (rsv @ [0, 1] @ u32_to_ne_bytes ip @ u16_to_be_bytes p @ data) = data"
proof -
  obtain a b where "rsv = [a, b]" using assms by (rule two_bytes)
  then show "parse_socks5_udp_packet (rsv @ [0, 1] @ u32_to_ne_bytes ip @ u16_to_be_bytes p @ data) = Some (ip, p, 10)"
    and "drop 10 (rsv @ [0, 1] @ u32_to_ne_bytes ip @ u16_to_be_bytes p @ data) = data"
    by (simp_all add: parse_socks5_udp_packet_def socks5_consts numeral_eq_Suc)
qed

lemma parsed_udp_bytes:
  assumes "parse_socks5_udp_packet buf = Some (ip, p, off)"
  shows "\<exists>rsv. length rsv = 2 \<and> buf = rsv @ [0, 1] @ u32_to_ne_bytes ip @ u16_to_be_bytes p @ drop 10 buf"
proof -
  from assms have len: "10 \<le> length buf" and z: "buf ! 2 = 0" and t: "buf ! 3 = 1"
      and ip: "u32_from_ne_bytes (take 4 (drop 4 buf)) = Some ip" and p: "u16_from_be_bytes (take 2 (drop 8 buf)) = Some p"
    by (auto simp: parse_socks5_udp_packet_def socks5_consts split: if_splits bind_splits)
  have "buf = take 2 buf @ take 2 (drop 2 buf) @ take 4 (drop 4 buf) @ take 2 (drop 8 buf) @ drop 10 buf"
    using append_take_drop_id [of 2 buf] append_take_drop_id [of 2 "drop 2 buf"]
      append_take_drop_id [of 4 "drop 4 buf"] append_take_drop_id [of 2 "drop 8 buf"] by simp
  moreover have "take 2 (drop 2 buf) = [buf ! 2, buf ! 3]"
    using len by (intro nth_equalityI) (auto simp: less_Suc_eq numeral_eq_Suc)
  ultimately show ?thesis
    using len z t u32_bytes_roundtrip [OF ip] u16_bytes_roundtrip [OF p] by (intro exI [of _ "take 2 buf"]) simp
qed

section \<open>Exactly when a handshake succeeds\<close>

text \<open>
  The server's part of a negotiation the client accepts: no authentication, or the password
  method (only when the client offered it) and a positive status.
\<close>

definition negotiation_accepted :: "bool \<Rightarrow> bytes \<Rightarrow> bool" where
  "negotiation_accepted auth n = (n = [5, 0] \<or> auth \<and> n = [5, 2, 1, 0])"

definition negotiation_sent :: "string option \<Rightarrow> string option \<Rightarrow> bytes \<Rightarrow> bytes" where
  "negotiation_sent user pass n =
     greeting (use_auth user pass) @ (if n = [5, 0] then [] else auth_message (the user) (the pass))"

lemma two_nth: "length bs = 2 \<Longrightarrow> bs = [bs ! 0, bs ! Suc 0]"
  by (auto simp: numeral_2_eq_2 length_Suc_conv)

lemma negotiate_complete:
  assumes room: "tx_room s = None" and acc: "negotiation_accepted (use_auth user pass) n"
    and peer: "concat (rx s) = n @ rest"
  obtains s' where "socks5_negotiate user pass s = (Inr (), s')"
    and "tx s' = tx s @ negotiation_sent user pass n" and "concat (rx s') = rest"
    and "tx_room s' = None"
proof -
  define s1 where "s1 = s\<lparr>tx := tx s @ greeting (use_auth user pass)\<rparr>"
  have w1: "write_all (greeting (use_auth user pass)) s = (Inr (), s1)"
    using room by (simp add: write_all_free s1_def)
  have "concat (rx s1) = take 2 n @ (drop 2 n @ rest)" "length (take 2 n) = 2"
    using peer acc by (auto simp: s1_def negotiation_accepted_def)
  then obtain segs where r1: "read_exact 2 s1 = (Inr (take 2 n), s1\<lparr>rx := segs\<rparr>)"
      and segs: "concat segs = drop 2 n @ rest"
    by (rule read_exact_ok)
  show thesis
  proof (cases "n = [5, 0]")
    case True
    with r1 segs that [of "s1\<lparr>rx := segs\<rparr>"] room show thesis
      by (simp add: socks5_negotiate_def io_bind_def w1 r1 socks5_consts
          io_return_def negotiation_sent_def s1_def)
  next
    case False
    with acc have n: "n = [5, 2, 1, 0]" and auth: "use_auth user pass"
      by (auto simp: negotiation_accepted_def)
    define s2 where "s2 = s1\<lparr>rx := segs, tx := tx s1 @ auth_message (the user) (the pass)\<rparr>"
    have w2: "write_all (auth_message (the user) (the pass)) (s1\<lparr>rx := segs\<rparr>) = (Inr (), s2)"
      using room by (simp add: write_all_free s1_def s2_def)
    have "concat (rx s2) = [1, 0] @ rest" "length [1, 0 :: u8] = 2" using segs n by (simp_all add: s2_def)
    then obtain segs' where r2: "read_exact 2 s2 = (Inr [1, 0], s2\<lparr>rx := segs'\<rparr>)"
        and "concat segs' = rest"
      by (rule read_exact_ok)
    have w1': "write_all (greeting True) s = (Inr (), s1)" using w1 auth by simp
    have "socks5_negotiate user pass s = (Inr (), s2\<lparr>rx := segs'\<rparr>)"
      using r1 n by (simp add: socks5_negotiate_def io_bind_def auth w1' w2 r2 socks5_consts io_return_def)
    moreover have "tx (s2\<lparr>rx := segs'\<rparr>) = tx s @ negotiation_sent user pass n"
      using n by (simp add: s2_def s1_def negotiation_sent_def)
    moreover have "concat (rx (s2\<lparr>rx := segs'\<rparr>)) = rest" "tx_room (s2\<lparr>rx := segs'\<rparr>) = None"
      using \<open>concat segs' = rest\<close> room by (simp_all add: s2_def s1_def)
    ultimately show thesis by (rule that)
  qed
qed

lemma negotiate_sound:
  assumes "socks5_negotiate user pass s = (Inr u, s')"
  shows "\<exists>n. negotiation_accepted (use_auth user pass) n \<and> concat (rx s) = n @ concat (rx s')
    \<and> tx s' = tx s @ negotiation_sent user pass n \<and> (tx_room s = None \<longrightarrow> tx_room s' = None)"
proof -
  from assms obtain u1 s1 resp s2 where
      w1: "write_all (greeting (use_auth user pass)) s = (Inr u1, s1)"
      and r1: "read_exact 2 s1 = (Inr resp, s2)"
      and rest: "(if resp ! 0 \<noteq> SOCKS5_VERSION then io_fail (Socks_bad_version (resp ! 0))
       else if resp ! 1 = SOCKS5_AUTH_PASSWORD \<and> use_auth user pass then
         io_bind (write_all (auth_message (the user) (the pass))) (\<lambda>_.
         io_bind (read_exact 2) (\<lambda>auth_resp.
           if auth_resp ! 0 \<noteq> 0x01 \<or> auth_resp ! 1 \<noteq> 0x00 then io_fail Socks_auth_failed
           else io_return ()))
       else if resp ! 1 \<noteq> SOCKS5_AUTH_NONE then io_fail (Socks_unsupported_method (resp ! 1))
       else io_return ()) s2 = (Inr u, s')"
    by (auto simp: socks5_negotiate_def io_bind_Inr)
  note W1 = write_all_Inr [OF w1] and R1 = read_exact_Inr [OF r1]
  have resp: "resp = [resp ! 0, resp ! Suc 0]" using R1 two_nth by blast
  show ?thesis
  proof (cases "resp ! 1 = SOCKS5_AUTH_PASSWORD \<and> use_auth user pass")
    case True
    with rest obtain u3 s3 ar where
        w2: "write_all (auth_message (the user) (the pass)) s2 = (Inr u3, s3)"
        and r2: "read_exact 2 s3 = (Inr ar, s')" and "ar ! 0 = 1" "ar ! 1 = 0" and v: "resp ! 0 = 5"
      by (auto simp: io_bind_Inr io_fail_def io_return_def socks5_consts split: if_splits)
    note W2 = write_all_Inr [OF w2] and R2 = read_exact_Inr [OF r2]
    have "ar = [1, 0]" using R2 two_nth [of ar] \<open>ar ! 0 = 1\<close> \<open>ar ! 1 = 0\<close> by auto
    moreover have "resp = [5, 2]" using resp True v by (simp add: socks5_consts)
    ultimately have "negotiation_accepted (use_auth user pass) (resp @ ar)"
        and "negotiation_sent user pass (resp @ ar)
          = greeting (use_auth user pass) @ auth_message (the user) (the pass)"
      using True by (simp_all add: negotiation_accepted_def negotiation_sent_def)
    then show ?thesis
      using W1 R1 W2 R2 by (intro exI [of _ "resp @ ar"]) auto
  next
    case False
    with rest have "resp ! 0 = 5" "resp ! 1 = 0" "s' = s2"
      by (auto simp: io_fail_def io_return_def socks5_consts split: if_splits)
    then have "resp = [5, 0]" using resp by simp
    then show ?thesis
      using W1 R1 \<open>s' = s2\<close>
      by (intro exI [of _ "[5, 0]"]) (auto simp: negotiation_accepted_def negotiation_sent_def)
  qed
qed

definition connect_accepted :: "bool \<Rightarrow> bytes \<Rightarrow> bytes \<Rightarrow> bytes \<Rightarrow> bool" where
  "connect_accepted auth n r rest =
     (negotiation_accepted auth n \<and> length r = 10 \<and> r ! 0 = 5 \<and> r ! 1 = 0)"

lemma connect_complete:
  assumes "tx_room s = None" and acc: "connect_accepted (use_auth user pass) n r rest"
    and peer: "concat (rx s) = n @ r @ rest"
  shows "\<exists>s'. socks5_connect ip p user pass s = (Inr (), s')
    \<and> tx s' = tx s @ negotiation_sent user pass n @ connect_request ip p \<and> concat (rx s') = rest"
proof -
  have "negotiation_accepted (use_auth user pass) n" using acc by (simp add: connect_accepted_def)
  from negotiate_complete [OF assms(1) this peer] obtain s1 where
      n1: "socks5_negotiate user pass s = (Inr (), s1)"
      and t1: "tx s1 = tx s @ negotiation_sent user pass n" and x1: "concat (rx s1) = r @ rest"
      and f1: "tx_room s1 = None" .
  define s2 where "s2 = s1\<lparr>tx := tx s1 @ connect_request ip p\<rparr>"
  have w2: "write_all (connect_request ip p) s1 = (Inr (), s2)"
    using f1 by (simp add: write_all_free s2_def)
  have "concat (rx s2) = r @ rest" "length r = 10"
    using x1 acc by (simp_all add: s2_def connect_accepted_def)
  then obtain segs where r3: "read_exact 10 s2 = (Inr r, s2\<lparr>rx := segs\<rparr>)" and "concat segs = rest"
    by (rule read_exact_ok)
  with acc t1 show ?thesis
    by (simp add: socks5_connect_def io_bind_def n1 w2 r3 socks5_consts connect_accepted_def io_return_def s2_def)
qed

lemma connect_sound:
  assumes "socks5_connect ip p user pass s = (Inr u, s')"
  shows "\<exists>n r. connect_accepted (use_auth user pass) n r (concat (rx s'))
    \<and> concat (rx s) = n @ r @ concat (rx s')
    \<and> tx s' = tx s @ negotiation_sent user pass n @ connect_request ip p"
proof -
  from assms obtain u1 s1 u2 s2 r where n1: "socks5_negotiate user pass s = (Inr u1, s1)"
      and w2: "write_all (connect_request ip p) s1 = (Inr u2, s2)"
      and r3: "read_exact 10 s2 = (Inr r, s')" and ok: "r ! 0 = 5" "r ! 1 = 0"
    by (auto simp: socks5_connect_def io_bind_Inr io_fail_def io_return_def socks5_consts
        split: if_splits)
  note W = write_all_Inr [OF w2] and R = read_exact_Inr [OF r3]
  from negotiate_sound [OF n1] obtain n where "negotiation_accepted (use_auth user pass) n"
      "concat (rx s) = n @ concat (rx s1)" "tx s1 = tx s @ negotiation_sent user pass n" by blast
  with W R ok show ?thesis
    by (intro exI [of _ n] exI [of _ r]) (auto simp: connect_accepted_def)
qed

text \<open>The same for UDP ASSOCIATE: the relay's address is read from the reply.\<close>

definition associate_accepted :: "bool \<Rightarrow> bytes \<Rightarrow> bytes \<Rightarrow> u32 \<Rightarrow> u16 \<Rightarrow> bool" where
  "associate_accepted auth n r ip p =
     (negotiation_accepted auth n \<and> length r = 10 \<and> r ! 0 = 5 \<and> r ! 1 = 0 \<and> r ! 3 = 1
      \<and> u32_from_ne_bytes (take 4 (drop 4 r)) = Some ip \<and> u16_from_be_bytes (drop 8 r) = Some p)"

lemma associate_complete:
  assumes "tx_room s = None" and acc: "associate_accepted (use_auth user pass) n r ip p"
    and peer: "concat (rx s) = n @ r @ rest"
  shows "\<exists>s'. socks5_udp_associate user pass s = (Inr (ip, p), s')
    \<and> tx s' = tx s @ negotiation_sent user pass n @ associate_request \<and> concat (rx s') = rest"
proof -
  have "negotiation_accepted (use_auth user pass) n" using acc by (simp add: associate_accepted_def)
  from negotiate_complete [OF assms(1) this peer] obtain s1 where
      n1: "socks5_negotiate user pass s = (Inr (), s1)"
      and t1: "tx s1 = tx s @ negotiation_sent user pass n" and x1: "concat (rx s1) = r @ rest"
      and f1: "tx_room s1 = None" .
  define s2 where "s2 = s1\<lparr>tx := tx s1 @ associate_request\<rparr>"
  have w2: "write_all associate_request s1 = (Inr (), s2)"
    using f1 by (simp add: write_all_free s2_def)
  have "concat (rx s2) = r @ rest" "length r = 10"
    using x1 acc by (simp_all add: s2_def associate_accepted_def)
  then obtain segs where r3: "read_exact 10 s2 = (Inr r, s2\<lparr>rx := segs\<rparr>)" and "concat segs = rest"
    by (rule read_exact_ok)
  with acc t1 show ?thesis
    by (simp add: socks5_udp_associate_def io_bind_def n1 w2 r3 socks5_consts associate_accepted_def
        io_return_def s2_def)
qed

lemma associate_sound:
  assumes "socks5_udp_associate user pass s = (Inr (ip, p), s')"
  shows "\<exists>n r. associate_accepted (use_auth user pass) n r ip p
    \<and> concat (rx s) = n @ r @ concat (rx s')
    \<and> tx s' = tx s @ negotiation_sent user pass n @ associate_request"
proof -
  from assms obtain u1 s1 u2 s2 r where n1: "socks5_negotiate user pass s = (Inr u1, s1)"
      and w2: "write_all associate_request s1 = (Inr u2, s2)"
      and r3: "read_exact 10 s2 = (Inr r, s')" and ok: "r ! 0 = 5" "r ! 1 = 0" "r ! 3 = 1"
      and ip: "ip = the (u32_from_ne_bytes (take 4 (drop 4 r)))"
      and p: "p = the (u16_from_be_bytes (take 2 (drop 8 r)))"
    by (auto simp: socks5_udp_associate_def io_bind_Inr io_fail_def io_return_def socks5_consts
        split: if_splits)
  note W = write_all_Inr [OF w2] and R = read_exact_Inr [OF r3]
  have "u32_from_ne_bytes (take 4 (drop 4 r)) = Some ip" "u16_from_be_bytes (drop 8 r) = Some p"
    using R u32_from_ne_bytes_Some_iff [of "take 4 (drop 4 r)"]
      u16_from_be_bytes_Some_iff [of "drop 8 r"] by (auto simp: ip p)
  moreover from negotiate_sound [OF n1] obtain n where "negotiation_accepted (use_auth user pass) n"
      "concat (rx s) = n @ concat (rx s1)" "tx s1 = tx s @ negotiation_sent user pass n" by blast
  ultimately show ?thesis
    using W R ok by (intro exI [of _ n] exI [of _ r]) (auto simp: associate_accepted_def)
qed

section \<open>The properties of the client\<close>

text \<open>C22: a CONNECT handshake on a connection that accepts its writes succeeds exactly when the
  proxy's bytes are an accepted negotiation and a ten-byte reply with version 5 and status 0; it
  has then sent the greeting, the credentials when asked, and the request, and leaves for the tunnel
  exactly what follows the reply, however the bytes were cut into segments.\<close>

theorem connect_exactly:
  assumes "tx_room s = None"
  shows "(\<exists>s'. socks5_connect ip p user pass s = (Inr (), s') \<and> tx s' = tx s @ m \<and> concat (rx s') = rest)
    \<longleftrightarrow> (\<exists>n r. connect_accepted (use_auth user pass) n r rest \<and> concat (rx s) = n @ r @ rest
          \<and> m = negotiation_sent user pass n @ connect_request ip p)"
  (is "?l \<longleftrightarrow> ?r")
proof
  assume ?l
  then obtain s' where s: "socks5_connect ip p user pass s = (Inr (), s')" "tx s' = tx s @ m" "concat (rx s') = rest"
    by blast
  from connect_sound [OF s(1)] s(2,3) show ?r by auto
next
  assume ?r
  with connect_complete [OF assms] show ?l by blast
qed

theorem connect_exactly_witness:
  "\<exists>s'. socks5_connect 0x0500000A 80 None None
      \<lparr>rx = [[5], [0, 5, 0, 0, 1, 0, 0], [0, 0, 0, 0, 72]], rx_reset = False, tx = [], tx_room = None\<rparr> = (Inr (), s')
    \<and> tx s' = [] @ (greeting False @ connect_request 0x0500000A 80) \<and> concat (rx s') = [72]"
proof -
  let ?s = "\<lparr>rx = [[5], [0, 5, 0, 0, 1, 0, 0], [0, 0, 0, 0, 72]], rx_reset = False, tx = [], tx_room = None\<rparr>"
  have "tx_room ?s = None" by simp
  from connect_exactly [OF this, of "0x0500000A" 80 None None "greeting False @ connect_request 0x0500000A 80" "[72]"]
  show ?thesis
    by (simp add: connect_accepted_def negotiation_accepted_def negotiation_sent_def use_auth_def)
qed

text \<open>C23: a UDP ASSOCIATE handshake succeeds exactly when the negotiation is accepted and the reply
  is a positive one with an IPv4 address, and it returns the address and port of that reply.\<close>

theorem associate_exactly:
  assumes "tx_room s = None"
  shows "(\<exists>s'. socks5_udp_associate user pass s = (Inr (ip, p), s') \<and> tx s' = tx s @ m \<and> concat (rx s') = rest)
    \<longleftrightarrow> (\<exists>n r. associate_accepted (use_auth user pass) n r ip p \<and> concat (rx s) = n @ r @ rest
          \<and> m = negotiation_sent user pass n @ associate_request)"
  (is "?l \<longleftrightarrow> ?r")
proof
  assume ?l
  then obtain s' where s: "socks5_udp_associate user pass s = (Inr (ip, p), s')" "tx s' = tx s @ m"
      "concat (rx s') = rest"
    by blast
  from associate_sound [OF s(1)] s(2,3) show ?r by auto
next
  assume ?r
  with associate_complete [OF assms] show ?l by blast
qed

theorem associate_exactly_witness:
  "\<exists>s'. socks5_udp_associate None None
      \<lparr>rx = [[5, 0], [5, 0, 0, 1, 10, 0, 0, 5], [0, 80]], rx_reset = False, tx = [], tx_room = None\<rparr> = (Inr (0x0500000A, 80), s')
    \<and> tx s' = [] @ (greeting False @ associate_request) \<and> concat (rx s') = []"
proof -
  let ?s = "\<lparr>rx = [[5, 0], [5, 0, 0, 1, 10, 0, 0, 5], [0, 80]], rx_reset = False, tx = [], tx_room = None\<rparr>"
  have "tx_room ?s = None" by simp
  from associate_exactly [OF this, of None None "0x0500000A" 80 "greeting False @ associate_request" "[]"]
  show ?thesis
    by (simp add: associate_accepted_def negotiation_accepted_def negotiation_sent_def use_auth_def)
qed

text \<open>C31: the server reads the user name and password that were meant from the authentication
  message exactly when both are shorter than 256 bytes; nothing checks that, and a longer one is
  announced by the low eight bits of its length.\<close>

theorem auth_message_fits:
  "rfc1929_decode (auth_message user pass) = Some (str_bytes user, str_bytes pass)
   \<longleftrightarrow> length user < 256 \<and> length pass < 256"
proof
  assume d: "rfc1929_decode (auth_message user pass) = Some (str_bytes user, str_bytes pass)"
  let ?ul = "word_of_nat (length user) :: u8"
  define rest where "rest = str_bytes user @ word_of_nat (length pass) # str_bytes pass"
  have m: "auth_message user pass = 1 # ?ul # rest" by (simp add: auth_message_def rest_def)
  have u: "take (unat ?ul) rest = str_bytes user" and w: "drop (Suc (unat ?ul)) rest = str_bytes pass"
      and l: "length (drop (Suc (unat ?ul)) rest) = unat (rest ! unat ?ul)"
    using d unfolding m
    by (auto simp: rfc1929_decode_def Let_def simp del: length_str_bytes length_drop split: if_splits)
  have p: "length (str_bytes pass) = unat (rest ! unat ?ul)" using l unfolding w .
  have "length (str_bytes user) \<le> unat ?ul" using u by (metis length_take min.cobounded2)
  then have "length user < 256" unfolding length_str_bytes by (rule le_less_trans) (rule unat_u8_less)
  moreover have "length pass < 256" using p unfolding length_str_bytes by (simp only: unat_u8_less)
  ultimately show "length user < 256 \<and> length pass < 256" ..
next
  assume "length user < 256 \<and> length pass < 256"
  then show "rfc1929_decode (auth_message user pass) = Some (str_bytes user, str_bytes pass)"
    by (intro rfc1929_decode_auth_message) simp_all
qed

text \<open>C32: a datagram wrapped for the proxy is parsed back to the same address, port and data, and
  the request of a CONNECT is read by the server as a connect to the address and port that were
  meant.\<close>

theorem datagram_roundtrip:
  "parse_socks5_udp_packet (build_socks5_udp_packet ip p data) = Some (ip, p, 10)
   \<and> drop 10 (build_socks5_udp_packet ip p data) = data
   \<and> rfc1928_decode (connect_request ip p) = Some (1, ip, p)"
  by (simp only: parse_build_udp build_udp_payload rfc1928_decode_connect_request simp_thms)

text \<open>C39: the address type of a CONNECT reply is not looked at: a positive reply that carries an
  IPv6 address is accepted after its first ten bytes, and the twelve that remain are handed to the
  tunnel in front of the data.\<close>

theorem reply_address_leaks:
  assumes "tx_room s = None" and "length addr = 16" and "length prt = 2"
    and "concat (rx s) = [5, 0] @ [5, 0, 0, 4] @ addr @ prt @ data"
  shows "\<exists>s'. socks5_connect ip p None None s = (Inr (), s') \<and> concat (rx s') = drop 6 addr @ prt @ data"
proof -
  have "connect_accepted (use_auth None None) [5, 0] ([5, 0, 0, 4] @ take 6 addr) (drop 6 addr @ prt @ data)"
    using assms(2) by (simp add: connect_accepted_def negotiation_accepted_def)
  moreover have "concat (rx s) = [5, 0] @ ([5, 0, 0, 4] @ take 6 addr) @ drop 6 addr @ prt @ data"
    using assms(4) by simp
  ultimately show ?thesis using connect_complete [OF assms(1)] by blast
qed

theorem reply_address_leaks_witness:
  "\<exists>s'. socks5_connect 1 80 None None \<lparr>rx = [[5, 0], [5, 0, 0, 4] @ replicate 16 9 @ [0, 80]],
      rx_reset = False, tx = [], tx_room = None\<rparr> = (Inr (), s')
    \<and> concat (rx s') = drop 6 (replicate 16 9) @ [0, 80] @ []"
  by (rule reply_address_leaks) simp_all

end
