(* ===== verification/Http_Connect.thy ===== *)
theory Http_Connect
  imports Net_Stream Patterns
begin

text \<open>
  \<open>proxy/http.rs\<close>: the HTTP CONNECT client. The base64 encoder is the \<open>base64\<close> crate, so
  it is the argument \<open>b64\<close>.
\<close>

definition crlf :: string where
  "crlf = [char_of (13 :: nat), char_of (10 :: nat)]"

definition http_request ::
  "(string \<Rightarrow> string) \<Rightarrow> u32 \<Rightarrow> u16 \<Rightarrow> string option \<Rightarrow> string option \<Rightarrow> string"
where
  "http_request b64 dest_ip dest_port user pass =
     (let dest_ip_str = format_ip dest_ip;
          target = dest_ip_str @ '':'' @ show_nat (unat dest_port);
          request = ''CONNECT '' @ target @ '' HTTP/1.1'' @ crlf
                    @ ''Host: '' @ target @ crlf
                    @ ''Proxy-Connection: Keep-Alive'' @ crlf;
          auth = (case (user, pass) of
                    (Some u, Some p) \<Rightarrow>
                      ''Proxy-Authorization: Basic '' @ b64 (u @ '':'' @ p) @ crlf
                  | _ \<Rightarrow> [])
      in request @ auth @ crlf)"

definition http_status :: "string \<Rightarrow> u16" where
  "http_status response =
     unwrap_or (Option.bind (str_get response 9 12) (\<lambda>s. parse_u16 (trim s))) 0"

definition http_check :: "bytes \<Rightarrow> net_error + unit" where
  "http_check buf =
     (if length buf < 12 then Inl (Http_too_short (length buf))
      else let response = from_utf8_lossy buf in
        if \<not> starts_with ''HTTP/1.'' response then Inl Http_invalid
        else let status_code = http_status response in
          if status_code \<noteq> 200 then Inl (Http_status status_code)
          else Inr ())"

definition http_connect ::
  "(string \<Rightarrow> string) \<Rightarrow> u32 \<Rightarrow> u16 \<Rightarrow> string option \<Rightarrow> string option \<Rightarrow> unit io"
where
  "http_connect b64 dest_ip dest_port user pass =
     io_bind (write_all (str_bytes (http_request b64 dest_ip dest_port user pass))) (\<lambda>_.
     io_bind (read_some 1024) (\<lambda>buf.
       case http_check buf of Inl e \<Rightarrow> io_fail e | Inr u \<Rightarrow> io_return u))"

lemmas http_defs [eval_defs] = crlf_def http_request_def http_status_def http_check_def
  http_connect_def

lemma behaved_check [behaved]: "well_behaved (case r of Inl e \<Rightarrow> io_fail e | Inr u \<Rightarrow> io_return u)"
  by (cases r) (simp_all add: behaved)

lemma behaved_http_connect [behaved]: "well_behaved (http_connect b64 ip p user pass)"
  unfolding http_connect_def by (intro behaved)

interpretation http_hs: handshake "http_connect b64 ip p user pass" for b64 ip p user pass
  by unfold_locales (rule behaved_http_connect)

section \<open>Exactly when the tunnel opens\<close>

text \<open>One read decides: the bytes of the first segment, at most 1024 of them.\<close>

lemma http_connect_result:
  assumes "tx_room s = None" and "rx s = seg # segs" and "seg \<noteq> []"
  shows "http_connect b64 ip p user pass s =
    (http_check (take 1024 seg),
     s\<lparr>tx := tx s @ str_bytes (http_request b64 ip p user pass),
       rx := (if length seg \<le> 1024 then segs else drop 1024 seg # segs)\<rparr>)"
  using assms
  by (auto simp: http_connect_def io_bind_def write_all_def read_some_def io_fail_def io_return_def
      split: sum.split)

lemma http_check_Inr:
  "http_check buf = Inr u \<longleftrightarrow>
    12 \<le> length buf \<and> starts_with ''HTTP/1.'' (from_utf8_lossy buf)
    \<and> http_status (from_utf8_lossy buf) = 200"
  by (auto simp: http_check_def Let_def)

lemma http_connect_success:
  assumes "http_connect b64 ip p user pass s = (Inr u, s')"
  shows "\<exists>buf. http_check buf = Inr () \<and> concat (rx s) = buf @ concat (rx s')
    \<and> tx s' = tx s @ str_bytes (http_request b64 ip p user pass)"
proof -
  from assms obtain u1 s1 buf s2 where w: "write_all (str_bytes (http_request b64 ip p user pass)) s = (Inr u1, s1)"
      and r: "read_some 1024 s1 = (Inr buf, s2)"
      and c: "(case http_check buf of Inl e \<Rightarrow> io_fail e | Inr u \<Rightarrow> io_return u) s2 = (Inr u, s')"
    by (auto simp: http_connect_def io_bind_Inr)
  have "http_check buf = Inr () \<and> s2 = s'"
    using c by (cases "http_check buf") (auto simp: io_fail_def io_return_def)
  with write_all_Inr [OF w] read_some_Inr [OF r] show ?thesis by auto
qed

text \<open>
  A response with a three-digit code after \<open>HTTP/1.x\<close> and one space: the code is read, whatever
  bytes follow it.
\<close>

lemma utf8_step_head:
  "bs \<noteq> [] \<Longrightarrow> fst (utf8_step bs) \<Longrightarrow> unat (hd bs) < 128 \<or> 192 \<le> unat (hd bs)"
  by (cases bs) (auto simp: utf8_step_def byte_or_0_def in_range_def Let_def split: if_splits)

lemma utf8_lossy_head:
  "utf8_lossy bs \<noteq> [] \<Longrightarrow> unat (hd (utf8_lossy bs)) < 128 \<or> 192 \<le> unat (hd (utf8_lossy bs))"
proof -
  assume "utf8_lossy bs \<noteq> []"
  then have ne: "bs \<noteq> []" by (auto simp: utf8_lossy.simps)
  show ?thesis
  proof (cases "fst (utf8_step bs)")
    case True
    moreover have "take (snd (utf8_step bs)) bs \<noteq> []" using ne utf8_step_pos [of bs] by simp
    moreover have "hd (take (snd (utf8_step bs)) bs) = hd bs"
      using utf8_step_pos [of bs] by (rule hd_take)
    ultimately show ?thesis
      using ne utf8_step_head [of bs] by (subst (1 2) utf8_lossy.simps) (simp del: take_eq_Nil)
  next
    case False
    then show ?thesis
      using ne by (subst (1 2) utf8_lossy.simps) (simp add: replacement_char_def)
  qed
qed

lemma bytes_str_append [simp]: "bytes_str (a @ b) = bytes_str a @ bytes_str b"
  by (simp add: bytes_str_def)

lemma from_utf8_lossy_ascii_append:
  "list_all (\<lambda>c. code c < 128) t \<Longrightarrow> from_utf8_lossy (str_bytes t @ rest) = t @ from_utf8_lossy rest"
proof -
  assume "list_all (\<lambda>c. code c < 128) t"
  then have "list_all (\<lambda>b. unat b < 128) (str_bytes t)"
    by (auto simp: list_all_iff str_bytes_def unat_of_nat_u8)
  then show ?thesis by (simp add: from_utf8_lossy_def utf8_lossy_ascii_append)
qed

lemma lossy_boundary: "from_utf8_lossy bs \<noteq> [] \<Longrightarrow> \<not> is_cont_byte (hd (from_utf8_lossy bs))"
  using utf8_lossy_head [of bs]
  by (auto simp: from_utf8_lossy_def bytes_str_def is_cont_byte_def hd_map take_bit_eq_mod)

definition status_line :: "char \<Rightarrow> u16 \<Rightarrow> string" where
  "status_line v c = ''HTTP/1.'' @ [v] @ '' '' @ show_nat (unat c)"

lemma plain_ascii: "plain s \<Longrightarrow> list_all (\<lambda>c. code c < 128) s"
  by (auto simp: plain_def plain_char_def list_all_iff)

lemma starts_with_append: "starts_with p (p @ s)"
  by (simp add: starts_with_iff)

lemma http_status_line:
  assumes "code v < 128" and len: "length (show_nat (unat c)) = 3"
  shows "http_status (status_line v c @ from_utf8_lossy rest) = c"
proof -
  let ?d = "show_nat (unat c)" and ?r = "from_utf8_lossy rest"
  let ?t = "status_line v c @ ?r"
  have t: "?t = (''HTTP/1.'' @ [v] @ '' '') @ ?d @ ?r" by (simp add: status_line_def)
  have "is_char_boundary ?t 9"
  proof -
    have "?t ! 9 = hd ?d" unfolding t by (subst nth_append) (simp add: nth_append hd_conv_nth)
    moreover have "hd ?d \<in> set ?d" by simp
    then have "code (hd ?d) < 128"
      using plain_ascii [OF plain_show_nat, of "unat c"] by (auto simp: list_all_iff)
    ultimately show ?thesis using len by (simp add: is_char_boundary_def is_cont_byte_def t)
  qed
  moreover have "is_char_boundary ?t 12"
  proof (cases "?r = []")
    case True
    then show ?thesis using len by (simp add: is_char_boundary_def status_line_def)
  next
    case False
    have "?t ! 12 = hd ?r" using False len unfolding t by (simp add: nth_append hd_conv_nth)
    with False lossy_boundary [OF False] len show ?thesis by (simp add: is_char_boundary_def t)
  qed
  moreover have "take (12 - 9) (drop 9 ?t) = ?d" using len by (simp add: t)
  ultimately have "str_get ?t 9 12 = Some ?d" by (simp add: str_get_def)
  then show ?thesis by (simp add: http_status_def unwrap_or_def)
qed

lemma http_check_status_line:
  assumes "code v < 128" and "length (show_nat (unat c)) = 3"
  shows "http_check (str_bytes (status_line v c) @ rest)
    = (if c = 200 then Inr () else Inl (Http_status c))"
proof -
  have "list_all (\<lambda>c. code c < 128) (status_line v c)"
    using assms(1) plain_ascii [OF plain_show_nat, of "unat c"] by (simp add: status_line_def)
  then have d: "from_utf8_lossy (str_bytes (status_line v c) @ rest) = status_line v c @ from_utf8_lossy rest"
    by (rule from_utf8_lossy_ascii_append)
  have "starts_with ''HTTP/1.'' (status_line v c @ from_utf8_lossy rest)"
    by (simp add: status_line_def)
  moreover have "12 \<le> length (str_bytes (status_line v c) @ rest)"
    using assms(2) by (simp add: status_line_def)
  ultimately show ?thesis
    using http_status_line [OF assms, of rest] by (simp add: http_check_def d Let_def)
qed

section \<open>How a proxy reads the request\<close>

text \<open>The lines of a message, cut at CR LF, and the target of a request line.\<close>

fun crlf_lines :: "string \<Rightarrow> string list" where
  "crlf_lines [] = [[]]"
| "crlf_lines (c # s) =
     (if starts_with crlf (c # s) then [] # crlf_lines (drop 1 s)
      else (case crlf_lines s of l # ls \<Rightarrow> (c # l) # ls | [] \<Rightarrow> [[c]]))"

definition request_target :: "string \<Rightarrow> (u8 option list \<times> u16 option) option" where
  "request_target line =
     (case str_split (\<lambda>c. c = CHR '' '') line of
        [verb, target, version] \<Rightarrow>
          if verb = ''CONNECT'' \<and> version = ''HTTP/1.1'' then
            map_option (\<lambda>(h, p). (map parse_u8 (str_split (\<lambda>c. c = CHR ''.'') h), parse_u16 p))
              (split_once CHR '':'' target)
          else None
      | _ \<Rightarrow> None)"

definition one_line :: "string \<Rightarrow> bool" where
  "one_line s = (\<forall>c \<in> set s. code c \<noteq> 13 \<and> code c \<noteq> 10)"

lemma crlf_lines_line: "one_line l \<Longrightarrow> crlf_lines (l @ crlf @ rest) = l # crlf_lines rest"
proof (induction l)
  case Nil
  then show ?case by (simp add: crlf_def)
next
  case (Cons c l)
  then have "c \<noteq> char_of (13 :: nat)" by (auto simp: one_line_def)
  then have "\<not> starts_with crlf (c # l @ crlf @ rest)" by (simp add: crlf_def)
  with Cons show ?case by (simp add: one_line_def)
qed

lemma one_line_plain: "plain s \<Longrightarrow> one_line s"
  by (auto simp: plain_def one_line_def list_all_iff plain_char_def ws_ascii_def)

lemma one_line_append [simp]: "one_line (a @ b) \<longleftrightarrow> one_line a \<and> one_line b"
  by (auto simp: one_line_def)

lemma plain_format_ip: "plain (format_ip ip)"
  unfolding format_ip_octets by (rule plain_str_join) (auto simp: plain_char_def ws_ascii_def)

lemma format_ip_no_colon: "CHR '':'' \<notin> set (format_ip ip)"
  unfolding format_ip_octets by (auto dest!: set_str_join)

lemma read_format_ip: "map parse_u8 (str_split (\<lambda>c. c = CHR ''.'') (format_ip ip)) = map Some (ip_octets ip)"
proof -
  have "ip_octets ip \<noteq> []" using length_ip_octets [of ip] by force
  then have "str_split (\<lambda>c. c = CHR ''.'') (format_ip ip) = map (\<lambda>b. show_nat (unat b)) (ip_octets ip)"
    unfolding format_ip_octets by (intro str_split_join) auto
  then show ?thesis by simp
qed

lemma plain_no_space: "plain s \<Longrightarrow> c \<in> set s \<Longrightarrow> c \<noteq> CHR '' ''"
  by (auto simp: plain_def list_all_iff plain_char_def ws_ascii_def)

definition target_text :: "u32 \<Rightarrow> u16 \<Rightarrow> string" where
  "target_text ip p = format_ip ip @ '':'' @ show_nat (unat p)"

lemma request_target_read:
  "request_target (''CONNECT '' @ target_text ip p @ '' HTTP/1.1'') = Some (map Some (ip_octets ip), Some p)"
proof -
  have plain: "plain (target_text ip p)"
    by (simp add: target_text_def plain_format_ip plain_char_def ws_ascii_def)
  have ws: "str_join CHR '' '' [''CONNECT'', target_text ip p, ''HTTP/1.1'']
      = ''CONNECT '' @ target_text ip p @ '' HTTP/1.1''" by simp
  have "str_split (\<lambda>c. c = CHR '' '') (str_join CHR '' '' [''CONNECT'', target_text ip p, ''HTTP/1.1''])
      = [''CONNECT'', target_text ip p, ''HTTP/1.1'']"
    using plain_no_space [OF plain] by (intro str_split_join) auto
  moreover have "split_once CHR '':'' (target_text ip p) = Some (format_ip ip, show_nat (unat p))"
    unfolding target_text_def append_Cons append_Nil by (rule split_once_append) (rule format_ip_no_colon)
  ultimately show ?thesis unfolding ws request_target_def by (simp add: read_format_ip)
qed

text \<open>
  \<open>b64\<close> gives one line. Then the lines are the request line, the headers and the empty line
  that ends them, whatever the user name and the password hold.
\<close>

lemma request_lines:
  assumes "\<And>s. one_line (b64 s)"
  shows "crlf_lines (http_request b64 ip p user pass) =
    [''CONNECT '' @ target_text ip p @ '' HTTP/1.1'', ''Host: '' @ target_text ip p, ''Proxy-Connection: Keep-Alive'']
    @ (case (user, pass) of
         (Some u, Some w) \<Rightarrow> [''Proxy-Authorization: Basic '' @ b64 (u @ '':'' @ w)]
       | _ \<Rightarrow> [])
    @ [[], []]"
proof -
  have t: "one_line (target_text ip p)"
    by (rule one_line_plain) (simp add: target_text_def plain_format_ip plain_char_def ws_ascii_def)
  have lines: "one_line (''CONNECT '' @ target_text ip p @ '' HTTP/1.1'')" "one_line (''Host: '' @ target_text ip p)"
      "one_line ''Proxy-Connection: Keep-Alive''" "one_line (''Proxy-Authorization: Basic '' @ b64 s)" for s
    using assms [of s] t by (simp_all only: one_line_append) (simp_all add: one_line_def)
  have last: "crlf_lines crlf = [[], []]" by (simp add: crlf_def)
  have tail: "crlf_lines ((case (user, pass) of
         (Some u, Some w) \<Rightarrow> ''Proxy-Authorization: Basic '' @ b64 (u @ '':'' @ w) @ crlf
       | _ \<Rightarrow> []) @ crlf)
      = (case (user, pass) of
         (Some u, Some w) \<Rightarrow> [''Proxy-Authorization: Basic '' @ b64 (u @ '':'' @ w)]
       | _ \<Rightarrow> []) @ [[], []]"
  proof (cases user; cases pass)
    fix u w assume u: "user = Some u" "pass = Some w"
    have "crlf_lines ((''Proxy-Authorization: Basic '' @ b64 (u @ '':'' @ w)) @ crlf @ crlf)
        = (''Proxy-Authorization: Basic '' @ b64 (u @ '':'' @ w)) # crlf_lines crlf"
      by (rule crlf_lines_line) (rule lines)
    then show ?thesis by (simp only: u option.case prod.case last append_assoc append_Cons append_Nil)
  qed (simp_all add: last)
  let ?auth = "(case (user, pass) of
       (Some u, Some w) \<Rightarrow> ''Proxy-Authorization: Basic '' @ b64 (u @ '':'' @ w) @ crlf
     | _ \<Rightarrow> [])"
  have req: "http_request b64 ip p user pass = (''CONNECT '' @ target_text ip p @ '' HTTP/1.1'') @ crlf
      @ (''Host: '' @ target_text ip p) @ crlf @ ''Proxy-Connection: Keep-Alive'' @ crlf @ ?auth @ crlf"
    by (simp add: http_request_def target_text_def Let_def)
  show ?thesis
    unfolding req crlf_lines_line [OF lines(1)] crlf_lines_line [OF lines(2)] crlf_lines_line [OF lines(3)] tail
    by simp
qed

section \<open>The properties of the client\<close>

text \<open>C33: when the first segment of the answer begins with a status line \<open>HTTP/1.x\<close> and a
  three-digit code (the twelve bytes that are looked at), and the connection takes the request, the
  handshake succeeds exactly for code 200 and reports the code otherwise; the whole request has been
  sent, and of that segment the status line and the next 1012 bytes, or all of it when it has no
  more than 1024, are consumed, with whatever follows the header in them.\<close>

theorem connect_status:
  assumes "tx_room s = None" and "rx s = (str_bytes (status_line v c) @ extra) # segs"
    and "code v < 128" and "length (show_nat (unat c)) = 3"
  shows "http_connect b64 ip p user pass s =
    (if c = 200 then Inr () else Inl (Http_status c),
     s\<lparr>tx := tx s @ str_bytes (http_request b64 ip p user pass),
       rx := (if length extra \<le> 1012 then segs else drop 1012 extra # segs)\<rparr>)"
proof -
  have len: "length (str_bytes (status_line v c)) = 12" using assms(4) by (simp add: status_line_def)
  have "str_bytes (status_line v c) @ extra \<noteq> []" by (simp add: status_line_def str_bytes_def)
  from http_connect_result [OF assms(1,2) this] show ?thesis
    using len by (simp add: http_check_status_line [OF assms(3,4)])
qed

theorem connect_status_witness:
  "fst (http_connect (\<lambda>s. s) 1 80 None None \<lparr>rx = [str_bytes (status_line CHR ''1'' 407) @ [13, 10]],
     rx_reset = False, tx = [], tx_room = None\<rparr>) = Inl (Http_status 407)"
proof -
  let ?s = "\<lparr>rx = [str_bytes (status_line CHR ''1'' 407) @ [13, 10]], rx_reset = False, tx = [], tx_room = None\<rparr>"
  have "length (show_nat (unat (407 :: u16))) = 3" by (simp add: show_nat.simps)
  then show ?thesis
    using connect_status [of ?s "CHR ''1''" 407 "[13, 10]" "[]" "\<lambda>s. s" 1 80 None None]
    by (simp add: status_line_def)
qed

text \<open>An answer whose first segment has fewer than twelve bytes fails, whatever follows.\<close>

lemma split_answer_fails:
  assumes "tx_room s = None" and "rx s = seg # segs" and "seg \<noteq> []" and "length seg < 12"
  shows "fst (http_connect b64 ip p user pass s) = Inl (Http_too_short (length seg))"
  using assms by (simp add: http_connect_result http_check_def)

end
