(* ===== verification/Tcp_Relay.thy ===== *)
theory Tcp_Relay
  imports Connection Socks5 Http_Connect
begin

text \<open>
  \<open>relay/tcp.rs\<close>: the accept loop and the handler of one redirected connection. Opening
  the connection to the proxy is the argument \<open>connect\<close> (\<open>None\<close> when it fails) and the
  copying of both directions, tokio's \<open>copy_bidirectional\<close>, the argument \<open>copy\<close>, which
  maps the client and proxy connections to what they are when it ends. What the code relies on
  of it is \<open>copies_in_order\<close>.
\<close>

type_synonym sock_addr = "bytes \<times> u16"

section \<open>The handler of a connection\<close>

definition proxy_handshake ::
  "(string \<Rightarrow> string) \<Rightarrow> proxy_config \<Rightarrow> u32 \<Rightarrow> u16 \<Rightarrow> unit io"
where
  "proxy_handshake b64 cfg dest_ip dest_port =
     (case proxy_type cfg of
        Socks5 \<Rightarrow> socks5_connect dest_ip dest_port (username cfg) (password cfg)
      | Http \<Rightarrow> http_connect b64 dest_ip dest_port (username cfg) (password cfg))"

text \<open>How a handler ended: its result, the client connection, and the proxy connection it opened.\<close>

record handled =
  h_result :: "net_error + unit"
  h_client :: tcp_stream
  h_proxy :: "(sock_addr \<times> tcp_stream) option"

definition handle_tcp_connection ::
  "(string \<Rightarrow> string) \<Rightarrow> (sock_addr \<Rightarrow> tcp_stream option)
   \<Rightarrow> (tcp_stream \<Rightarrow> tcp_stream \<Rightarrow> tcp_stream \<times> tcp_stream)
   \<Rightarrow> tcp_stream \<Rightarrow> u32 \<Rightarrow> u16 \<Rightarrow> proxy_config \<Rightarrow> handled"
where
  "handle_tcp_connection b64 connect copy client dest_ip dest_port cfg =
     (case resolved_ip cfg of
        None \<Rightarrow> \<lparr>h_result = Inl Not_resolved, h_client = client, h_proxy = None\<rparr>
      | Some proxy_ip \<Rightarrow>
          let proxy_addr = (u32_to_ne_bytes proxy_ip, port cfg) in
          case connect proxy_addr of
            None \<Rightarrow> \<lparr>h_result = Inl Connect_failed, h_client = client, h_proxy = None\<rparr>
          | Some proxy_stream \<Rightarrow>
              (case proxy_handshake b64 cfg dest_ip dest_port proxy_stream of
                 (Inl e, s) \<Rightarrow> \<lparr>h_result = Inl e, h_client = client, h_proxy = Some (proxy_addr, s)\<rparr>
               | (Inr _, s) \<Rightarrow>
                   let (client', s') = copy client s
                   in \<lparr>h_result = Inr (), h_client = client', h_proxy = Some (proxy_addr, s')\<rparr>))"

section \<open>The accept loop\<close>

text \<open>
  One turn, \<open>running\<close> being true: the one-second sleep ends first, \<open>accept\<close> fails, or a
  connection from a port arrives while the tracker is as given. The list ends when
  \<open>running\<close> is found false.
\<close>

datatype accept_event =
    Accept_timeout
  | Accept_error
  | Accepted u16 tcp_stream connection_tracker

record relay_task =
  task_client :: tcp_stream
  task_dest_ip :: u32
  task_dest_port :: u16

fun accept_turn :: "accept_event \<Rightarrow> relay_task option" where
  "accept_turn Accept_timeout = None"
| "accept_turn Accept_error = None"
| "accept_turn (Accepted client_port client_stream conn_tracker) =
     (case tracker_get conn_tracker client_port of
        Some (dest_ip, dest_port) \<Rightarrow>
          Some \<lparr>task_client = client_stream, task_dest_ip = dest_ip, task_dest_port = dest_port\<rparr>
      | None \<Rightarrow> None)"

fun accept_loop :: "accept_event list \<Rightarrow> relay_task list" where
  "accept_loop [] = []"
| "accept_loop (ev # evs) =
     (case accept_turn ev of None \<Rightarrow> accept_loop evs | Some t \<Rightarrow> t # accept_loop evs)"

text \<open>The tasks the relay spawns, or the error of \<open>bind\<close>.\<close>

definition run_tcp_relay :: "bool \<Rightarrow> accept_event list \<Rightarrow> net_error + relay_task list" where
  "run_tcp_relay bind_ok evs = (if bind_ok then Inr (accept_loop evs) else Inl Bind_failed)"

lemmas tcp_relay_defs [eval_defs] = proxy_handshake_def handle_tcp_connection_def run_tcp_relay_def

section \<open>The tunnel\<close>

text \<open>
  The documented behaviour of the copy: each side is sent a prefix of what the other still
  has to deliver, after what it was sent before.
\<close>

definition copies_in_order :: "(tcp_stream \<Rightarrow> tcp_stream \<Rightarrow> tcp_stream \<times> tcp_stream) \<Rightarrow> bool" where
  "copies_in_order copy =
     (\<forall>c p. (\<exists>k. tx (fst (copy c p)) = tx c @ take k (concat (rx p)))
          \<and> (\<exists>k. tx (snd (copy c p)) = tx p @ take k (concat (rx c))))"

text \<open>A copy that moves everything.\<close>

definition copy_all :: "tcp_stream \<Rightarrow> tcp_stream \<Rightarrow> tcp_stream \<times> tcp_stream" where
  "copy_all c p =
     (c\<lparr>tx := tx c @ concat (rx p), rx := []\<rparr>, p\<lparr>tx := tx p @ concat (rx c), rx := []\<rparr>)"

lemma copies_in_order_copy_all: "copies_in_order copy_all"
proof -
  have "\<exists>k. xs = take k xs" for xs :: bytes
    by (rule exI [of _ "length xs"]) simp
  then show ?thesis by (simp add: copies_in_order_def copy_all_def)
qed

lemma copies_in_orderD:
  assumes "copies_in_order copy" and "copy c p = (c', p')"
  obtains k l where "tx c' = tx c @ take k (concat (rx p))" and "tx p' = tx p @ take l (concat (rx c))"
proof -
  have "(\<exists>k. tx (fst (copy c p)) = tx c @ take k (concat (rx p)))
      \<and> (\<exists>k. tx (snd (copy c p)) = tx p @ take k (concat (rx c)))"
    using assms(1) unfolding copies_in_order_def by blast
  with assms(2) that show thesis by auto
qed

lemma behaved_proxy_handshake [behaved]: "well_behaved (proxy_handshake b64 cfg ip p)"
  by (cases "proxy_type cfg") (simp_all add: proxy_handshake_def behaved)

interpretation proxy_hs: handshake "proxy_handshake b64 cfg ip p" for b64 cfg ip p
  by unfold_locales (rule behaved_proxy_handshake)

text \<open>The two ways a handler ends.\<close>

lemma handle_failed:
  assumes "h_result (handle_tcp_connection b64 connect copy client ip p cfg) = Inl e"
  shows "h_client (handle_tcp_connection b64 connect copy client ip p cfg) = client"
  using assms
  by (auto simp: handle_tcp_connection_def Let_def split: option.splits sum.splits prod.splits)

lemma handle_ok:
  assumes "h_result (handle_tcp_connection b64 connect copy client ip p cfg) = Inr ()"
  obtains proxy_ip s0 s s' where "resolved_ip cfg = Some proxy_ip"
    and "connect (u32_to_ne_bytes proxy_ip, port cfg) = Some s0"
    and "proxy_handshake b64 cfg ip p s0 = (Inr (), s)"
    and "copy client s = (h_client (handle_tcp_connection b64 connect copy client ip p cfg), s')"
    and "h_proxy (handle_tcp_connection b64 connect copy client ip p cfg)
      = Some ((u32_to_ne_bytes proxy_ip, port cfg), s')"
  using assms that
  by (auto simp: handle_tcp_connection_def Let_def split: option.splits sum.splits prod.splits)

text \<open>
  Neither side of the tunnel sees bytes out of order, made up or duplicated: the client gets a
  piece of what the proxy sent, starting where the handshake stopped reading, and the proxy gets
  the handshake's bytes and then a prefix of the client's.
\<close>

lemma tunnel_in_order:
  assumes copy: "copies_in_order copy"
    and ok: "h_result (handle_tcp_connection b64 connect copy client ip p cfg) = Inr ()"
    and conn: "\<And>a. connect a = Some s0"
  shows "\<exists>i k. tx (h_client (handle_tcp_connection b64 connect copy client ip p cfg))
      = tx client @ take k (drop i (concat (rx s0)))"
    and "\<exists>w j a s'. h_proxy (handle_tcp_connection b64 connect copy client ip p cfg) = Some (a, s')
      \<and> tx s' = tx s0 @ w @ take j (concat (rx client))"
proof -
  from handle_ok [OF ok] conn obtain proxy_ip s s' where
      hs: "proxy_handshake b64 cfg ip p s0 = (Inr (), s)"
      and cp: "copy client s = (h_client (handle_tcp_connection b64 connect copy client ip p cfg), s')"
      and pr: "h_proxy (handle_tcp_connection b64 connect copy client ip p cfg)
        = Some ((u32_to_ne_bytes proxy_ip, port cfg), s')"
    by (metis option.inject)
  obtain k l where k: "tx (h_client (handle_tcp_connection b64 connect copy client ip p cfg))
        = tx client @ take k (concat (rx s))"
      and l: "tx s' = tx s @ take l (concat (rx client))"
    using copies_in_orderD [OF copy cp] .
  obtain i where i: "concat (rx s) = drop i (concat (rx s0))"
    using proxy_hs.tunnel_bytes [of b64 cfg ip p s0] hs by auto
  obtain w where w: "tx s = tx s0 @ w"
    using proxy_hs.sent_prefix [of b64 cfg ip p s0] hs by auto
  show "\<exists>i k. tx (h_client (handle_tcp_connection b64 connect copy client ip p cfg))
      = tx client @ take k (drop i (concat (rx s0)))"
    using k i by auto
  show "\<exists>w j a s'. h_proxy (handle_tcp_connection b64 connect copy client ip p cfg) = Some (a, s')
      \<and> tx s' = tx s0 @ w @ take j (concat (rx client))"
    using pr l w by auto
qed

section \<open>What the loop spawns\<close>

lemma accept_turn_Some:
  "accept_turn ev = Some t \<longleftrightarrow>
   (\<exists>q tr. ev = Accepted q (task_client t) tr \<and> tracker_get tr q = Some (task_dest_ip t, task_dest_port t))"
  by (cases ev) (auto split: option.splits)

lemma accept_loop_filter: "accept_loop evs = List.map_filter accept_turn evs"
  by (induction evs) (auto simp: map_filter_simps split: option.splits)

lemma accept_loop_mem: "t \<in> set (accept_loop evs) \<longleftrightarrow> (\<exists>ev \<in> set evs. accept_turn ev = Some t)"
  by (induction evs) (auto split: option.splits)

section \<open>The property of the relay\<close>

text \<open>C19: through a SOCKS5 proxy, a handler that succeeds has made the proxy accept a request for
  exactly the flow's original destination, has sent the proxy a prefix of the client's bytes after
  it and the client a prefix of what follows the proxy's reply, nothing else; one that fails has
  not touched the client's connection.\<close>

theorem tunnel_carries_flow:
  assumes "copies_in_order copy" and "proxy_type cfg = Socks5" and "resolved_ip cfg = Some proxy_ip"
    and "connect (u32_to_ne_bytes proxy_ip, port cfg) = Some s0"
    and "h = handle_tcp_connection b64 connect copy client ip p cfg"
  shows "(h_result h = Inr () \<longrightarrow>
      (\<exists>n r rest k l s'. connect_accepted (use_auth (username cfg) (password cfg)) n r rest
        \<and> concat (rx s0) = n @ r @ rest
        \<and> tx (h_client h) = tx client @ take k rest
        \<and> h_proxy h = Some ((u32_to_ne_bytes proxy_ip, port cfg), s')
        \<and> tx s' = tx s0 @ negotiation_sent (username cfg) (password cfg) n @ connect_request ip p
            @ take l (concat (rx client))))
    \<and> (h_result h \<noteq> Inr () \<longrightarrow> h_client h = client)"
proof (intro conjI impI)
  assume "h_result h = Inr ()"
  from handle_ok [OF this [unfolded assms(5)]] assms(3,4) obtain s s' where
      hs: "proxy_handshake b64 cfg ip p s0 = (Inr (), s)"
      and cp: "copy client s = (h_client h, s')"
      and pr: "h_proxy h = Some ((u32_to_ne_bytes proxy_ip, port cfg), s')"
    unfolding assms(5) by (metis option.inject)
  from hs assms(2) have "socks5_connect ip p (username cfg) (password cfg) s0 = (Inr (), s)"
    by (simp add: proxy_handshake_def)
  from connect_sound [OF this] obtain n r where
      "connect_accepted (use_auth (username cfg) (password cfg)) n r (concat (rx s))"
      "concat (rx s0) = n @ r @ concat (rx s)"
      "tx s = tx s0 @ negotiation_sent (username cfg) (password cfg) n @ connect_request ip p" by blast
  moreover obtain k l where "tx (h_client h) = tx client @ take k (concat (rx s))"
      "tx s' = tx s @ take l (concat (rx client))"
    using copies_in_orderD [OF assms(1) cp] .
  ultimately show "\<exists>n r rest k l s'. connect_accepted (use_auth (username cfg) (password cfg)) n r rest
        \<and> concat (rx s0) = n @ r @ rest
        \<and> tx (h_client h) = tx client @ take k rest
        \<and> h_proxy h = Some ((u32_to_ne_bytes proxy_ip, port cfg), s')
        \<and> tx s' = tx s0 @ negotiation_sent (username cfg) (password cfg) n @ connect_request ip p
            @ take l (concat (rx client))"
    using pr by (intro exI [of _ n] exI [of _ r] exI [of _ "concat (rx s)"] exI [of _ k] exI [of _ l] exI [of _ s']) simp
next
  assume "h_result h \<noteq> Inr ()"
  then obtain e where "h_result h = Inl e" by (cases "h_result h") auto
  then show "h_client h = client" unfolding assms(5) by (rule handle_failed)
qed

definition example_proxy :: proxy_config where
  "example_proxy = \<lparr>proxy_type = Socks5, host = ''127.0.0.1'', port = 1080, username = None,
     password = None, resolved_ip = Some 0x0100007F\<rparr>"

definition example_peer :: tcp_stream where
  "example_peer = \<lparr>rx = [[5, 0], [5, 0, 0, 1, 0, 0, 0, 0, 0, 0, 72, 105]], rx_reset = False, tx = [], tx_room = None\<rparr>"

definition example_client :: tcp_stream where
  "example_client = \<lparr>rx = [[71]], rx_reset = False, tx = [], tx_room = None\<rparr>"

lemma example_handled:
  "h_result (handle_tcp_connection b64 (\<lambda>_. Some example_peer) copy_all example_client ip p example_proxy) = Inr ()"
proof -
  have "connect_accepted (use_auth None None) [5, 0] [5, 0, 0, 1, 0, 0, 0, 0, 0, 0] [72, 105]"
    by (simp add: connect_accepted_def negotiation_accepted_def)
  from connect_complete [OF _ this, of example_peer ip p] obtain s where
      "socks5_connect ip p None None example_peer = (Inr (), s)"
    by (auto simp: example_peer_def)
  then show ?thesis
    by (simp add: handle_tcp_connection_def example_proxy_def proxy_handshake_def copy_all_def)
qed

theorem tunnel_carries_flow_witness:
  "\<exists>n r rest. concat (rx example_peer) = n @ r @ rest \<and> connect_accepted False n r rest"
proof -
  have "h_result (handle_tcp_connection (\<lambda>s. s) (\<lambda>_. Some example_peer) copy_all example_client 1 80 example_proxy) = Inr ()"
    by (rule example_handled)
  with tunnel_carries_flow [OF copies_in_order_copy_all, of example_proxy "0x0100007F" "\<lambda>_. Some example_peer"
      example_peer _ "\<lambda>s. s" example_client 1 80]
  show ?thesis by (simp add: example_proxy_def use_auth_def) blast
qed

text \<open>C20: through an HTTP proxy, a handler that succeeds has sent a request whose lines, as the proxy
  cuts them, are the request line, the headers and one empty line, whatever the credentials hold;
  the proxy reads the flow's original destination from the request line. After the request come a
  prefix of the client's bytes only, and the client gets a prefix of what follows the accepted
  answer; a handler that fails has not touched the client's connection.\<close>

theorem http_tunnel_carries_flow:
  assumes "copies_in_order copy" and "\<forall>s. one_line (b64 s)" and "proxy_type cfg = Http"
    and "resolved_ip cfg = Some proxy_ip" and "connect (u32_to_ne_bytes proxy_ip, port cfg) = Some s0"
    and "h = handle_tcp_connection b64 connect copy client ip p cfg"
  shows "(h_result h = Inr () \<longrightarrow>
      (\<exists>req answer rest k l s'. crlf_lines req = [''CONNECT '' @ target_text ip p @ '' HTTP/1.1'',
            ''Host: '' @ target_text ip p, ''Proxy-Connection: Keep-Alive'']
          @ (case (username cfg, password cfg) of
               (Some u, Some w) \<Rightarrow> [''Proxy-Authorization: Basic '' @ b64 (u @ '':'' @ w)]
             | _ \<Rightarrow> []) @ [[], []]
        \<and> request_target (hd (crlf_lines req)) = Some (map Some (ip_octets ip), Some p)
        \<and> http_check answer = Inr () \<and> concat (rx s0) = answer @ rest
        \<and> tx (h_client h) = tx client @ take k rest
        \<and> h_proxy h = Some ((u32_to_ne_bytes proxy_ip, port cfg), s')
        \<and> tx s' = tx s0 @ str_bytes req @ take l (concat (rx client))))
    \<and> (h_result h \<noteq> Inr () \<longrightarrow> h_client h = client)"
proof (intro conjI impI)
  assume "h_result h = Inr ()"
  from handle_ok [OF this [unfolded assms(6)]] assms(4,5) obtain s s' where
      hs: "proxy_handshake b64 cfg ip p s0 = (Inr (), s)"
      and cp: "copy client s = (h_client h, s')"
      and pr: "h_proxy h = Some ((u32_to_ne_bytes proxy_ip, port cfg), s')"
    unfolding assms(6) by (metis option.inject)
  let ?req = "http_request b64 ip p (username cfg) (password cfg)"
  from hs assms(3) have "http_connect b64 ip p (username cfg) (password cfg) s0 = (Inr (), s)"
    by (simp add: proxy_handshake_def)
  from http_connect_success [OF this] obtain answer where a: "http_check answer = Inr ()"
      "concat (rx s0) = answer @ concat (rx s)" "tx s = tx s0 @ str_bytes ?req" by blast
  obtain k l where kl: "tx (h_client h) = tx client @ take k (concat (rx s))"
      "tx s' = tx s @ take l (concat (rx client))"
    using copies_in_orderD [OF assms(1) cp] .
  note lines = request_lines [of b64 ip p "username cfg" "password cfg", OF assms(2) [rule_format]]
  have first: "hd (crlf_lines ?req) = ''CONNECT '' @ target_text ip p @ '' HTTP/1.1''"
    unfolding lines by simp
  have "request_target (hd (crlf_lines ?req)) = Some (map Some (ip_octets ip), Some p)"
    unfolding first by (rule request_target_read)
  with lines a kl pr show "\<exists>req answer rest k l s'. crlf_lines req = [''CONNECT '' @ target_text ip p @ '' HTTP/1.1'',
            ''Host: '' @ target_text ip p, ''Proxy-Connection: Keep-Alive'']
          @ (case (username cfg, password cfg) of
               (Some u, Some w) \<Rightarrow> [''Proxy-Authorization: Basic '' @ b64 (u @ '':'' @ w)]
             | _ \<Rightarrow> []) @ [[], []]
        \<and> request_target (hd (crlf_lines req)) = Some (map Some (ip_octets ip), Some p)
        \<and> http_check answer = Inr () \<and> concat (rx s0) = answer @ rest
        \<and> tx (h_client h) = tx client @ take k rest
        \<and> h_proxy h = Some ((u32_to_ne_bytes proxy_ip, port cfg), s')
        \<and> tx s' = tx s0 @ str_bytes req @ take l (concat (rx client))"
    by (intro exI [of _ ?req] exI [of _ answer] exI [of _ "concat (rx s)"] exI [of _ k] exI [of _ l] exI [of _ s'])
      (simp only: append_assoc simp_thms)
next
  assume "h_result h \<noteq> Inr ()"
  then obtain e where "h_result h = Inl e" by (cases "h_result h") auto
  then show "h_client h = client" unfolding assms(6) by (rule handle_failed)
qed

theorem http_tunnel_carries_flow_witness:
  "let h = handle_tcp_connection (\<lambda>s. ''eHg='') (\<lambda>_. Some (example_peer\<lparr>rx := [str_bytes (status_line CHR ''1'' 200), [72]]\<rparr>))
      copy_all example_client 1 80 (example_proxy\<lparr>proxy_type := Http\<rparr>)
   in h_result h = Inr () \<and> (\<exists>k rest. tx (h_client h) = tx example_client @ take k rest)"
proof -
  let ?peer = "example_peer\<lparr>rx := [str_bytes (status_line CHR ''1'' 200), [72]]\<rparr>"
  let ?cfg = "example_proxy\<lparr>proxy_type := Http\<rparr>"
  let ?h = "handle_tcp_connection (\<lambda>s. ''eHg='') (\<lambda>_. Some ?peer) copy_all example_client 1 80 ?cfg"
  have len: "length (show_nat (unat (200 :: u16))) = 3" by (simp add: show_nat.simps)
  have c: "http_check (str_bytes (status_line CHR ''1'' 200)) = Inr ()"
    using http_check_status_line [of "CHR ''1''" 200 "[]"] len by simp
  have ne: "str_bytes (status_line CHR ''1'' 200) \<noteq> []" and short: "length (str_bytes (status_line CHR ''1'' 200)) \<le> 1024"
    using len by (simp_all add: status_line_def str_bytes_def)
  obtain s where "http_connect (\<lambda>s. ''eHg='') 1 80 None None ?peer = (Inr (), s)"
    using http_connect_result [of ?peer "str_bytes (status_line CHR ''1'' 200)" "[[72]]" "\<lambda>s. ''eHg=''" 1 80 None None]
      c ne short by (simp add: example_peer_def)
  then have ok: "h_result ?h = Inr ()"
    by (simp add: handle_tcp_connection_def example_proxy_def proxy_handshake_def copy_all_def)
  have "\<forall>s. one_line ((\<lambda>s. ''eHg='') s)" by (simp add: one_line_def)
  from http_tunnel_carries_flow [OF copies_in_order_copy_all this, of ?cfg "0x0100007F" "\<lambda>_. Some ?peer" ?peer _ example_client 1 80] ok
  show ?thesis by (simp add: example_proxy_def Let_def) blast
qed

end
