(* ===== verification/Udp_Relay.thy ===== *)
theory Udp_Relay
  imports Tcp_Relay
begin

text \<open>
  \<open>relay/udp.rs\<close>: the UDP relay. Its three local variables are the state; one turn of the
  loop is \<open>udp_turn\<close>, and what the sockets and the proxy do in it the record
  \<open>udp_env\<close>. Datagrams sent are the output. A UDP socket is named by its local port.
\<close>

type_synonym udp_socket = u16

record udp_relay =
  control_sock :: "tcp_stream option"
  send_sock :: "udp_socket option"
  relay_addr :: "sock_addr option"

definition udp_relay_new :: udp_relay where
  "udp_relay_new = \<lparr>control_sock = None, send_sock = None, relay_addr = None\<rparr>"

section \<open>The association\<close>

definition establish_udp_associate ::
  "(sock_addr \<Rightarrow> tcp_stream option) \<Rightarrow> udp_socket option \<Rightarrow> proxy_config
   \<Rightarrow> net_error + (tcp_stream \<times> udp_socket \<times> sock_addr)"
where
  "establish_udp_associate connect udp_bind cfg =
     (case resolved_ip cfg of
        None \<Rightarrow> Inl Not_resolved
      | Some proxy_ip \<Rightarrow>
          (case connect (u32_to_ne_bytes proxy_ip, port cfg) of
             None \<Rightarrow> Inl Connect_failed
           | Some tcp_stream \<Rightarrow>
               (case socks5_udp_associate (username cfg) (password cfg) tcp_stream of
                  (Inl e, _) \<Rightarrow> Inl e
                | (Inr (relay_ip, relay_port), s) \<Rightarrow>
                    let actual_ip = (if relay_ip = 0 then proxy_ip else relay_ip) in
                    case udp_bind of
                      None \<Rightarrow> Inl Bind_failed
                    | Some u \<Rightarrow> Inr (s, u, (u32_to_ne_bytes actual_ip, relay_port)))))"

section \<open>One turn of the loop\<close>

datatype local_recv = From_client bytes u16 | Local_error | Local_timeout

datatype udp_out =
    To_proxy udp_socket sock_addr bytes
  | To_client sock_addr bytes

definition UDP_BUF_LEN :: nat where "UDP_BUF_LEN = 65536"

definition relay_from_client ::
  "connection_tracker \<Rightarrow> bool \<Rightarrow> local_recv \<Rightarrow> udp_relay \<Rightarrow> udp_out list \<times> udp_relay"
where
  "relay_from_client conn_tracker send_ok ev s =
     (case ev of
        From_client dgram client_port \<Rightarrow>
          let data = take UDP_BUF_LEN dgram in
          (case tracker_get conn_tracker client_port of
             None \<Rightarrow> ([], s)
           | Some (dest_ip, dest_port) \<Rightarrow>
               let packet = build_socks5_udp_packet dest_ip dest_port data in
               (case (send_sock s, relay_addr s) of
                  (Some sock, Some addr) \<Rightarrow>
                    if send_ok then ([To_proxy sock addr packet], s)
                    else ([], s\<lparr>relay_addr := None\<rparr>)
                | _ \<Rightarrow> ([], s)))
      | Local_error \<Rightarrow> ([], s)
      | Local_timeout \<Rightarrow> ([], s))"

text \<open>\<open>iter\<close> is the order in which the tracker's map is walked; a failed \<open>send_to\<close> is ignored.\<close>

definition relay_from_proxy ::
  "(u16 \<times> connection_info) list \<Rightarrow> bytes option \<Rightarrow> udp_relay \<Rightarrow> udp_out list outcome"
where
  "relay_from_proxy iter remote s =
     (case (send_sock s, remote) of
        (Some sock, Some dgram) \<Rightarrow>
          let buf = take UDP_BUF_LEN dgram in
          (case parse_socks5_udp_packet buf of
             None \<Rightarrow> Return []
           | Some (sip, sport, data_offset) \<Rightarrow>
               (case find_by_dest iter sip sport of
                  None \<Rightarrow> Return []
                | Some client_port \<Rightarrow>
                    obind (subslice buf data_offset (length buf)) (\<lambda>data.
                      Return [To_client ([127, 0, 0, 1], client_port) data])))
      | _ \<Rightarrow> Return [])"

record udp_env =
  ue_connect :: "sock_addr \<Rightarrow> tcp_stream option"
  ue_bind :: "udp_socket option"
  ue_local :: local_recv
  ue_send_ok :: bool
  ue_remote :: "bytes option"

definition udp_turn ::
  "proxy_config \<Rightarrow> udp_env \<Rightarrow> connection_tracker \<Rightarrow> (u16 \<times> connection_info) list
   \<Rightarrow> udp_relay \<Rightarrow> (udp_out list \<times> udp_relay) outcome"
where
  "udp_turn cfg env conn_tracker iter s =
     (case (if relay_addr s = None
            then (case establish_udp_associate (ue_connect env) (ue_bind env) cfg of
                    Inr (ctrl, sock, addr) \<Rightarrow>
                      Some \<lparr>control_sock = Some ctrl, send_sock = Some sock, relay_addr = Some addr\<rparr>
                  | Inl e \<Rightarrow> None)
            else Some s) of
        None \<Rightarrow> Return ([], s)
      | Some s1 \<Rightarrow>
          (case relay_from_client conn_tracker (ue_send_ok env) (ue_local env) s1 of
             (out1, s2) \<Rightarrow>
               obind (relay_from_proxy iter (ue_remote env) s2) (\<lambda>out2. Return (out1 @ out2, s2))))"

text \<open>The turns of a run, each with the tracker it finds; the list ends when \<open>running\<close> is false.\<close>

type_synonym udp_event = "udp_env \<times> connection_tracker \<times> (u16 \<times> connection_info) list"

fun udp_loop :: "proxy_config \<Rightarrow> udp_event list \<Rightarrow> udp_relay \<Rightarrow> (udp_out list \<times> udp_relay) outcome" where
  "udp_loop cfg [] s = Return ([], s)"
| "udp_loop cfg ((env, tr, iter) # evs) s =
     obind (udp_turn cfg env tr iter s) (\<lambda>(out, s').
       obind (udp_loop cfg evs s') (\<lambda>(outs, s''). Return (out @ outs, s'')))"

definition run_udp_relay ::
  "bool \<Rightarrow> proxy_config \<Rightarrow> udp_event list \<Rightarrow> (net_error + udp_out list) outcome"
where
  "run_udp_relay bind_ok cfg evs =
     (if \<not> bind_ok then Return (Inl Bind_failed)
      else obind (udp_loop cfg evs udp_relay_new) (\<lambda>(outs, _). Return (Inr outs)))"

lemmas udp_relay_defs [eval_defs] = udp_relay_new_def establish_udp_associate_def UDP_BUF_LEN_def
  relay_from_client_def relay_from_proxy_def udp_turn_def run_udp_relay_def

section \<open>The association's address\<close>

lemma establish_Inr:
  assumes "establish_udp_associate connect udp_bind cfg = Inr (ctrl, u, addr)"
  obtains proxy_ip s0 rip rport where "resolved_ip cfg = Some proxy_ip"
    and "connect (u32_to_ne_bytes proxy_ip, port cfg) = Some s0"
    and "socks5_udp_associate (username cfg) (password cfg) s0 = (Inr (rip, rport), ctrl)"
    and "addr = (u32_to_ne_bytes (if rip = 0 then proxy_ip else rip), rport)"
    and "udp_bind = Some u"
  using assms that
  by (auto simp: establish_udp_associate_def Let_def split: option.splits sum.splits prod.splits)

section \<open>The state between turns\<close>

text \<open>An address to send to implies a socket to send from and the control connection kept open.\<close>

definition wf_udp_relay :: "udp_relay \<Rightarrow> bool" where
  "wf_udp_relay s =
     ((relay_addr s \<noteq> None \<longrightarrow> send_sock s \<noteq> None) \<and> (send_sock s \<noteq> None \<longleftrightarrow> control_sock s \<noteq> None))"

lemma wf_udp_relay_new [intro, simp]: "wf_udp_relay udp_relay_new"
  by (simp add: wf_udp_relay_def udp_relay_new_def)

lemma relay_from_client_state:
  "snd (relay_from_client tr ok ev s) = s \<or> snd (relay_from_client tr ok ev s) = s\<lparr>relay_addr := None\<rparr>"
  by (auto simp: relay_from_client_def Let_def split: local_recv.splits option.splits)

lemma wf_relay_from_client: "wf_udp_relay s \<Longrightarrow> wf_udp_relay (snd (relay_from_client tr ok ev s))"
  using relay_from_client_state [of tr ok ev s] by (auto simp: wf_udp_relay_def)

lemma udp_turn_Return:
  assumes "udp_turn cfg env tr iter s = Return (out, s')"
  shows "(out = [] \<and> s' = s)
    \<or> (\<exists>s1 out1 out2. (s1 = s \<and> relay_addr s \<noteq> None
           \<or> relay_addr s = None \<and> (\<exists>ctrl u addr. establish_udp_associate (ue_connect env) (ue_bind env) cfg
                 = Inr (ctrl, u, addr)
               \<and> s1 = \<lparr>control_sock = Some ctrl, send_sock = Some u, relay_addr = Some addr\<rparr>))
        \<and> relay_from_client tr (ue_send_ok env) (ue_local env) s1 = (out1, s')
        \<and> relay_from_proxy iter (ue_remote env) s' = Return out2 \<and> out = out1 @ out2)"
proof (cases "relay_addr s")
  case (Some a)
  with assms show ?thesis
    by (cases "relay_from_client tr (ue_send_ok env) (ue_local env) s")
      (auto simp: udp_turn_def obind_eq_Return)
next
  case None
  show ?thesis
  proof (cases "establish_udp_associate (ue_connect env) (ue_bind env) cfg")
    case (Inl e)
    with None assms show ?thesis by (simp add: udp_turn_def)
  next
    case (Inr r)
    obtain ctrl u addr where r: "r = (ctrl, u, addr)" by (cases r)
    let ?s1 = "\<lparr>control_sock = Some ctrl, send_sock = Some u, relay_addr = Some addr\<rparr>"
    from None Inr r assms show ?thesis
      by (cases "relay_from_client tr (ue_send_ok env) (ue_local env) ?s1")
        (auto simp: udp_turn_def obind_eq_Return)
  qed
qed

lemma wf_udp_turn:
  assumes "wf_udp_relay s" and "udp_turn cfg env tr iter s = Return (out, s')"
  shows "wf_udp_relay s'"
proof -
  have new: "wf_udp_relay \<lparr>control_sock = Some c, send_sock = Some u, relay_addr = Some a\<rparr>" for c u a
    by (simp add: wf_udp_relay_def)
  from udp_turn_Return [OF assms(2)] show ?thesis
    using assms(1) new wf_relay_from_client by (metis snd_conv)
qed

text \<open>No turn panics: the offset the parser returns is inside the datagram.\<close>

lemma parse_udp_offset:
  "parse_socks5_udp_packet buf = Some (ip, p, off) \<Longrightarrow> off = 10 \<and> 10 \<le> length buf"
  by (auto simp: parse_socks5_udp_packet_def split: if_splits bind_splits)

lemma relay_from_proxy_returns: "\<exists>out. relay_from_proxy iter remote s = Return out"
  using parse_udp_offset
  by (fastforce simp: relay_from_proxy_def Let_def obind_eq_Return subslice_def split: option.split prod.split)

lemma udp_turn_returns: "\<exists>out s'. udp_turn cfg env tr iter s = Return (out, s')"
proof -
  obtain f where f: "\<And>s. relay_from_proxy iter (ue_remote env) s = Return (f s)"
    using relay_from_proxy_returns by metis
  show ?thesis by (auto simp: udp_turn_def f split: option.split prod.split sum.split)
qed

lemma udp_loop_returns: "\<exists>out s'. udp_loop cfg evs s = Return (out, s')"
proof (induction cfg evs s rule: udp_loop.induct)
  case (2 cfg env tr iter evs s)
  obtain out s' where t: "udp_turn cfg env tr iter s = Return (out, s')"
    using udp_turn_returns by blast
  with "2.IH" obtain outs s'' where "udp_loop cfg evs s' = Return (outs, s'')" by blast
  with t show ?case by simp
qed simp

section \<open>What is sent, and to whom\<close>

text \<open>A datagram to the proxy carries a tracked client's data under its original destination.\<close>

lemma relay_from_client_out:
  assumes "relay_from_client tr ok ev s = (out, s')" and "x \<in> set out"
  obtains dgram q dip dport u addr where "ev = From_client dgram q"
    and "tracker_get tr q = Some (dip, dport)" and "send_sock s = Some u" and "relay_addr s = Some addr"
    and "x = To_proxy u addr (build_socks5_udp_packet dip dport (take UDP_BUF_LEN dgram))"
  using assms
  by (auto simp: relay_from_client_def Let_def split: local_recv.splits option.splits if_splits)

text \<open>A datagram to a client comes from a destination the client has a tracked flow to.\<close>

lemma relay_from_proxy_out:
  assumes "relay_from_proxy iter remote s = Return out" and "x \<in> set out"
  obtains dgram sip sport q where "remote = Some dgram"
    and "parse_socks5_udp_packet (take UDP_BUF_LEN dgram) = Some (sip, sport, 10)"
    and "find_by_dest iter sip sport = Some q"
    and "x = To_client ([127, 0, 0, 1], q) (drop 10 (take UDP_BUF_LEN dgram))"
proof -
  from assms obtain u dgram sip sport off q data where r: "remote = Some dgram"
      and p: "parse_socks5_udp_packet (take UDP_BUF_LEN dgram) = Some (sip, sport, off)"
      and f: "find_by_dest iter sip sport = Some q"
      and d: "subslice (take UDP_BUF_LEN dgram) off (length (take UDP_BUF_LEN dgram)) = Return data"
      and x: "x = To_client ([127, 0, 0, 1], q) data"
    by (auto simp: relay_from_proxy_def Let_def obind_eq_Return split: option.splits)
  have "off = 10" using parse_udp_offset [OF p] by simp
  with d have "data = drop 10 (take UDP_BUF_LEN dgram)"
    by (auto simp: subslice_def split: if_splits)
  with r p f x \<open>off = 10\<close> show thesis using that by simp
qed

lemma relay_from_proxy_delivers:
  assumes "send_sock s = Some u" and "parse_socks5_udp_packet (take UDP_BUF_LEN dgram) = Some (sip, sport, 10)"
    and "find_by_dest iter sip sport = Some q"
  shows "relay_from_proxy iter (Some dgram) s
    = Return [To_client ([127, 0, 0, 1], q) (drop 10 (take UDP_BUF_LEN dgram))]"
  using assms parse_udp_offset [OF assms(2)] by (simp add: relay_from_proxy_def subslice_def Let_def)

section \<open>The properties of the relay\<close>

text \<open>C28: no run of the relay, whatever the clients and the proxy send, panics or fails to end its
  turns, and between turns an address to send to always comes with a bound socket and the
  control connection kept open.\<close>

theorem udp_relay_invariant:
  "\<exists>out s'. udp_loop cfg evs udp_relay_new = Return (out, s') \<and> wf_udp_relay s'"
proof -
  have "wf_udp_relay s \<Longrightarrow> udp_loop cfg evs s = Return (out, s') \<Longrightarrow> wf_udp_relay s'" for s out s'
  proof (induction cfg evs s arbitrary: out rule: udp_loop.induct)
    case (2 cfg env tr iter evs s)
    from "2.prems"(2) obtain o1 s1 o2 where t: "udp_turn cfg env tr iter s = Return (o1, s1)"
        and l: "udp_loop cfg evs s1 = Return (o2, s')"
      by (auto simp: obind_eq_Return)
    from wf_udp_turn [OF "2.prems"(1) t] l show ?case by (auto intro: "2.IH")
  qed simp
  then show ?thesis using udp_loop_returns [of cfg evs udp_relay_new] wf_udp_relay_new by blast
qed

text \<open>A datagram of a tracked client while an association stands, and what the proxy sends in the same turn.\<close>

fun is_reply :: "udp_out \<Rightarrow> bool" where
  "is_reply (To_client addr data) = True"
| "is_reply (To_proxy sock addr packet) = False"

lemma relay_from_proxy_replies: "relay_from_proxy iter remote s = Return out \<Longrightarrow> list_all is_reply out"
  unfolding list_all_iff by (auto elim: relay_from_proxy_out)

lemma relay_from_proxy_addr [simp]: "relay_from_proxy iter remote (s\<lparr>relay_addr := x\<rparr>) = relay_from_proxy iter remote s"
  by (simp add: relay_from_proxy_def)

lemma turn_associated:
  assumes "relay_addr s = Some a" and "send_sock s = Some u" and "ue_local env = From_client dgram q"
    and "tracker_get tr q = Some (dip, dport)" and "relay_from_proxy iter (ue_remote env) s = Return replies"
  shows "udp_turn cfg env tr iter s =
    Return (if ue_send_ok env
      then (To_proxy u a (build_socks5_udp_packet dip dport (take 65536 dgram)) # replies, s)
      else (replies, s\<lparr>relay_addr := None\<rparr>))"
  using assms by (simp add: udp_turn_def relay_from_client_def UDP_BUF_LEN_def Let_def)

text \<open>C26: while an association stands, a datagram from a tracked client leaves for the proxy's relay
  address in a packet from which the proxy reads the flow's original destination and the client's
  data, whatever the proxy sends in the same turn; when the send fails it is not sent, the address is
  forgotten so that the next turn associates anew, and the old socket is kept for replies. The reply
  that came from the proxy in the turn is handed on all the same; there is none when nothing came.\<close>

theorem client_datagram_forwarded:
  assumes "relay_addr s = Some a" and "send_sock s = Some u" and "ue_local env = From_client dgram q"
    and "tracker_get tr q = Some (dip, dport)"
  shows "\<exists>packet replies. udp_turn cfg env tr iter s =
      Return (if ue_send_ok env then (To_proxy u a packet # replies, s) else (replies, s\<lparr>relay_addr := None\<rparr>))
    \<and> parse_socks5_udp_packet packet = Some (dip, dport, 10) \<and> drop 10 packet = take 65536 dgram
    \<and> relay_from_proxy iter (ue_remote env) s = Return replies \<and> list_all is_reply replies
    \<and> (ue_remote env = None \<longrightarrow> replies = [])"
proof -
  obtain replies where r: "relay_from_proxy iter (ue_remote env) s = Return replies"
    using relay_from_proxy_returns by blast
  have "ue_remote env = None \<Longrightarrow> replies = []" using r by (simp add: relay_from_proxy_def split: option.splits)
  with turn_associated [OF assms r, of cfg] relay_from_proxy_replies [OF r] r show ?thesis
    by (intro exI [of _ "build_socks5_udp_packet dip dport (take 65536 dgram)"] exI [of _ replies])
      (simp add: parse_build_udp build_udp_payload)
qed

definition example_reply :: bytes where
  "example_reply = [0, 0, 0, 1, 9, 0, 0, 0, 0, 53, 42]"

definition example_forward_env :: udp_env where
  "example_forward_env = \<lparr>ue_connect = (\<lambda>_. None), ue_bind = None, ue_local = From_client [1, 2] 7,
     ue_send_ok = True, ue_remote = Some example_reply\<rparr>"

definition example_iter :: "(u16 \<times> connection_info) list" where
  "example_iter = [(7, \<lparr>src_ip = 1, src_port = 7, orig_dest_ip = 9, orig_dest_port = 53, last_activity = 0\<rparr>)]"

lemma example_reply_relayed:
  "send_sock s = Some u \<Longrightarrow>
   relay_from_proxy example_iter (Some example_reply) s = Return [To_client ([127, 0, 0, 1], 7) [42]]"
  by (simp add: relay_from_proxy_def UDP_BUF_LEN_def example_reply_def example_iter_def
      parse_socks5_udp_packet_def subslice_def SOCKS5_ATYP_IPV4_def)

theorem client_datagram_forwarded_witness:
  "\<exists>packet. udp_turn example_proxy example_forward_env (tracker_add 0 7 1 9 53 tracker_new) example_iter
      \<lparr>control_sock = Some example_peer, send_sock = Some 40001, relay_addr = Some ([127, 0, 0, 1], 1080)\<rparr>
    = Return ([To_proxy 40001 ([127, 0, 0, 1], 1080) packet, To_client ([127, 0, 0, 1], 7) [42]],
      \<lparr>control_sock = Some example_peer, send_sock = Some 40001, relay_addr = Some ([127, 0, 0, 1], 1080)\<rparr>)
    \<and> parse_socks5_udp_packet packet = Some (9, 53, 10)"
proof -
  let ?s = "\<lparr>control_sock = Some example_peer, send_sock = Some 40001, relay_addr = Some ([127, 0, 0, 1], 1080)\<rparr>"
  have "relay_from_proxy example_iter (ue_remote example_forward_env) ?s = Return [To_client ([127, 0, 0, 1], 7) [42]]"
    by (simp add: example_forward_env_def example_reply_relayed)
  moreover have "ue_send_ok example_forward_env" by (simp add: example_forward_env_def)
  ultimately show ?thesis
    using client_datagram_forwarded [of ?s "([127, 0, 0, 1], 1080)" 40001 example_forward_env "[1, 2]" 7
        "tracker_add 0 7 1 9 53 tracker_new" 9 53 example_proxy example_iter]
    by (auto simp: example_forward_env_def)
qed

section \<open>Recovery\<close>

definition association_fails :: "proxy_config \<Rightarrow> udp_event \<Rightarrow> bool" where
  "association_fails cfg ev = (case ev of (env, _) \<Rightarrow>
     (case establish_udp_associate (ue_connect env) (ue_bind env) cfg of Inl _ \<Rightarrow> True | Inr _ \<Rightarrow> False))"

lemma failing_turns:
  assumes "list_all (association_fails cfg) fails" and "relay_addr s = None"
  shows "udp_loop cfg (fails @ evs) s = udp_loop cfg evs s"
  using assms
proof (induction fails)
  case (Cons ev fails)
  obtain env tr iter where ev: "ev = (env, tr, iter)" by (cases ev) auto
  then obtain e where "establish_udp_associate (ue_connect env) (ue_bind env) cfg = Inl e"
    using Cons.prems(1) by (auto simp: association_fails_def split: sum.splits)
  then have "udp_turn cfg env tr iter s = Return ([], s)" using Cons.prems(2) by (simp add: udp_turn_def)
  moreover have "udp_loop cfg (fails @ evs) s = udp_loop cfg evs s" using Cons by simp
  ultimately show ?case
    by (cases "udp_loop cfg evs s") (simp_all add: ev split: prod.split)
qed simp

text \<open>C27: the relay recovers from an outage of the proxy: however many turns could not associate, the
  first turn in which the proxy can be reached, takes the messages and answers them positively, and a
  socket can be bound, associates anew: the new address is the proxy's own when the answer says
  0.0.0.0. A datagram that a tracked client sends in that turn leaves through the new socket for that
  address, with the flow's original destination and the data, whatever the proxy sends in the same
  turn; only when this send fails is it lost and the address forgotten again.\<close>

theorem association_recovers:
  assumes "list_all (association_fails cfg) fails" and "relay_addr s = None"
    and "resolved_ip cfg = Some proxy_ip" and "ue_connect env (u32_to_ne_bytes proxy_ip, port cfg) = Some peer"
    and "tx_room peer = None" and "concat (rx peer) = n @ r @ rest"
    and "associate_accepted (use_auth (username cfg) (password cfg)) n r rip rport"
    and "ue_bind env = Some u" and "ue_local env = From_client dgram q"
    and "tracker_get tr q = Some (dip, dport)"
    and "addr = (u32_to_ne_bytes (if rip = 0 then proxy_ip else rip), rport)"
  shows "\<exists>ctrl packet replies. udp_loop cfg (fails @ [(env, tr, iter)]) s =
      Return (if ue_send_ok env
        then (To_proxy u addr packet # replies,
          \<lparr>control_sock = Some ctrl, send_sock = Some u, relay_addr = Some addr\<rparr>)
        else (replies, \<lparr>control_sock = Some ctrl, send_sock = Some u, relay_addr = None\<rparr>))
    \<and> parse_socks5_udp_packet packet = Some (dip, dport, 10) \<and> drop 10 packet = take 65536 dgram
    \<and> list_all is_reply replies \<and> (ue_remote env = None \<longrightarrow> replies = [])"
proof -
  from associate_complete [OF assms(5,7,6)] obtain ctrl where
      "socks5_udp_associate (username cfg) (password cfg) peer = (Inr (rip, rport), ctrl)" by blast
  with assms(3,4,8,11) have e: "establish_udp_associate (ue_connect env) (ue_bind env) cfg = Inr (ctrl, u, addr)"
    by (simp add: establish_udp_associate_def)
  let ?s = "\<lparr>control_sock = Some ctrl, send_sock = Some u, relay_addr = Some addr\<rparr>"
  obtain replies where r: "relay_from_proxy iter (ue_remote env) ?s = Return replies"
    using relay_from_proxy_returns by blast
  have none: "ue_remote env = None \<Longrightarrow> replies = []" using r by (simp add: relay_from_proxy_def)
  have "udp_turn cfg env tr iter s = udp_turn cfg env tr iter ?s"
    using assms(2) e by (simp add: udp_turn_def)
  also have "\<dots> = Return (if ue_send_ok env
      then (To_proxy u addr (build_socks5_udp_packet dip dport (take 65536 dgram)) # replies, ?s)
      else (replies, ?s\<lparr>relay_addr := None\<rparr>))"
    by (rule turn_associated [OF _ _ assms(9,10) r]) simp_all
  finally show ?thesis
    using none relay_from_proxy_replies [OF r] unfolding failing_turns [OF assms(1,2)]
    by (intro exI [of _ ctrl] exI [of _ "build_socks5_udp_packet dip dport (take 65536 dgram)"] exI [of _ replies])
      (simp add: parse_build_udp build_udp_payload)
qed

definition example_associate_peer :: tcp_stream where
  "example_associate_peer =
     \<lparr>rx = [[5, 0], [5, 0, 0, 1, 0, 0, 0, 0, 4, 56]], rx_reset = False, tx = [], tx_room = None\<rparr>"

definition example_udp_env :: udp_env where
  "example_udp_env = \<lparr>ue_connect = (\<lambda>_. Some example_associate_peer), ue_bind = Some 40001,
     ue_local = From_client [1, 2] 7, ue_send_ok = True, ue_remote = None\<rparr>"

theorem association_recovers_witness:
  "\<exists>ctrl packet. udp_loop example_proxy
      (replicate 2 (example_udp_env\<lparr>ue_connect := (\<lambda>_. None)\<rparr>, tracker_new, [])
         @ [(example_udp_env, tracker_add 0 7 1 9 53 tracker_new, [])]) udp_relay_new =
      Return ([To_proxy 40001 ([127, 0, 0, 1], 1080) packet],
        \<lparr>control_sock = Some ctrl, send_sock = Some 40001, relay_addr = Some ([127, 0, 0, 1], 1080)\<rparr>)
    \<and> parse_socks5_udp_packet packet = Some (9, 53, 10)"
proof -
  let ?fails = "replicate 2 (example_udp_env\<lparr>ue_connect := (\<lambda>_. None)\<rparr>, tracker_new, [])"
  have "association_fails example_proxy (example_udp_env\<lparr>ue_connect := (\<lambda>_. None)\<rparr>, tr, iter)" for tr iter
    by (simp add: association_fails_def establish_udp_associate_def example_proxy_def)
  then have fails: "list_all (association_fails example_proxy) ?fails" by (simp add: list_all_iff)
  have acc: "associate_accepted (use_auth (username example_proxy) (password example_proxy)) [5, 0]
      [5, 0, 0, 1, 0, 0, 0, 0, 4, 56] 0 1080"
    by (simp add: associate_accepted_def negotiation_accepted_def use_auth_def example_proxy_def)
  have addr: "(([127, 0, 0, 1], 1080) :: sock_addr) = (u32_to_ne_bytes (if (0 :: u32) = 0 then 0x0100007F else 0), 1080)"
    by (simp add: u32_to_ne_bytes_def)
  show ?thesis
    using association_recovers [OF fails _ _ _ _ _ acc _ _ _ addr, of udp_relay_new example_udp_env
        example_associate_peer "[]" 40001 "[1, 2]" 7 "tracker_add 0 7 1 9 53 tracker_new" 9 53 "[]"]
    by (simp add: udp_relay_new_def example_proxy_def example_udp_env_def example_associate_peer_def) blast
qed

end
