(* ===== verification/Main_Program.thy ===== *)
theory Main_Program
  imports Cli Netfilter Nfqueue Udp_Relay
begin

text \<open>
  \<open>main.rs\<close>: from the arguments to the running threads and back. What the system answers
  is the record \<open>main_env\<close>; the batches handed to the kernel are the trace of the run. The
  threads themselves are \<open>run_nfqueue\<close>, \<open>run_tcp_relay\<close> and \<open>run_udp_relay\<close>, started on what
  \<open>prepare\<close> returns.
\<close>

datatype resolved_addr = V4 u8 u8 u8 u8 | V6

record main_env =
  me_root :: bool
  me_resolve :: "string \<Rightarrow> resolved_addr list option"
  me_pid :: u32
  me_nft_before :: exchange
  me_nft_setup :: exchange
  me_nft_after :: exchange
  me_runtime_ok :: bool
  me_signal_ok :: bool
  me_interrupted :: bool

datatype main_error =
    Url_error url_error
  | Resolve_error
  | Rule_error rule_error
  | Nft_error nft_error
  | Runtime_error
  | Signal_error

datatype exit_status = Exit_ok | Exit_err main_error | Exit_code nat

definition log_level :: "u8 \<Rightarrow> string" where
  "log_level verbose =
     (if verbose = 0 then ''warn'' else if verbose = 1 then ''info''
      else if verbose = 2 then ''info'' else ''debug'')"

section \<open>Configuration\<close>

fun is_ipv4 :: "resolved_addr \<Rightarrow> bool" where
  "is_ipv4 (V4 a b c d) = True"
| "is_ipv4 V6 = False"

definition resolve_proxy :: "main_env \<Rightarrow> proxy_config \<Rightarrow> exit_status + proxy_config" where
  "resolve_proxy env cfg =
     (let addr_str = host cfg @ '':'' @ show_nat (unat (port cfg)) in
      case me_resolve env addr_str of
        None \<Rightarrow> Inl (Exit_err Resolve_error)
      | Some addrs \<Rightarrow>
          let cfg' = (case List.find is_ipv4 addrs of
                        Some (V4 a b c d) \<Rightarrow> cfg\<lparr>resolved_ip := u32_from_ne_bytes [a, b, c, d]\<rparr>
                      | _ \<Rightarrow> cfg)
          in if resolved_ip cfg' = None then Inl (Exit_code 1) else Inr cfg')"

definition proxy_of_url :: "string \<Rightarrow> exit_status + proxy_config" where
  "proxy_of_url url =
     (case parse_proxy_url url of
        Inl e \<Rightarrow> Inl (Exit_err (Url_error e))
      | Inr parsed \<Rightarrow>
          Inr ((proxy_config_new (pp_type parsed) (pp_host parsed) (pp_port parsed))
                 \<lparr>username := pp_username parsed, password := pp_password parsed\<rparr>))"

fun load_rules :: "string list \<Rightarrow> rule_engine \<Rightarrow> exit_status + rule_engine" where
  "load_rules [] e = Inr e"
| "load_rules (rule_str # rest) e =
     (case parse_rule_str rule_str of
        Inl err \<Rightarrow> Inl (Exit_err (Rule_error err))
      | Inr (proc_name, hosts, ports, proto, act) \<Rightarrow>
          load_rules rest (snd (add_rule proc_name hosts ports proto act e)))"

text \<open>Everything \<open>main\<close> does before it touches the firewall.\<close>

definition prepare :: "main_env \<Rightarrow> cli_args \<Rightarrow> exit_status + (proxy_config \<times> rule_engine)" where
  "prepare env args =
     (if \<not> me_root env then Inl (Exit_code 1)
      else rbind (proxy_of_url (arg_proxy args)) (\<lambda>cfg0.
           rbind (resolve_proxy env cfg0) (\<lambda>cfg.
           rbind (load_rules (arg_rule args) rule_engine_new) (\<lambda>e. Inr (cfg, e)))))"

section \<open>The threads' parameters\<close>

definition nfq_config_of :: "main_env \<Rightarrow> cli_args \<Rightarrow> proxy_config \<Rightarrow> nfq_config" where
  "nfq_config_of env args cfg =
     \<lparr>proxy_cfg = cfg, dns_via_proxy = arg_dns_via_proxy args, current_pid = me_pid env,
      verbose_level = arg_verbose args\<rparr>"

definition initial_state :: "rule_engine \<Rightarrow> nfq_state" where
  "initial_state e = \<lparr>engine = e, tracker = tracker_new, pids = pid_cache_new\<rparr>"

text \<open>The UDP relay is started only for a SOCKS5 proxy.\<close>

definition starts_udp_relay :: "proxy_config \<Rightarrow> bool" where
  "starts_udp_relay cfg = (proxy_type cfg = Socks5)"

section \<open>The program\<close>

text \<open>\<open>--cleanup\<close>, and the end of a run that an interrupt stops.\<close>

definition run_cleanup :: "main_env \<Rightarrow> exit_status outcome \<times> nft_msg list list" where
  "run_cleanup env =
     (case nf_cleanup (me_nft_before env) [] of (r, sent) \<Rightarrow> (obind r (\<lambda>_. Return Exit_ok), sent))"

definition serve_until_interrupt ::
  "main_env \<Rightarrow> nft_msg list list \<Rightarrow> exit_status outcome \<times> nft_msg list list"
where
  "serve_until_interrupt env sent =
     (if \<not> me_interrupted env then (Hang, sent)
      else (case nf_cleanup (me_nft_after env) sent of
              (r, sent') \<Rightarrow> (obind r (\<lambda>_. Return Exit_ok), sent')))"

definition main_program ::
  "main_env \<Rightarrow> cli_args \<Rightarrow> exit_status outcome \<times> nft_msg list list"
where
  "main_program env args =
     (if arg_cleanup args then run_cleanup env
      else case prepare env args of
        Inl ex \<Rightarrow> (Return ex, [])
      | Inr (cfg, e) \<Rightarrow>
          (case nf_setup (me_nft_before env) (me_nft_setup env) LOCAL_PROXY_PORT LOCAL_UDP_RELAY_PORT
                  NFQUEUE_NUM [] of
             (Return (Inl err), sent) \<Rightarrow> (Return (Exit_err (Nft_error err)), sent)
           | (Return (Inr _), sent) \<Rightarrow>
               if \<not> me_runtime_ok env then (Return (Exit_err Runtime_error), sent)
               else if \<not> me_signal_ok env then (Return (Exit_err Signal_error), sent)
               else serve_until_interrupt env sent
           | (r, sent) \<Rightarrow> (obind r (\<lambda>_. Return Exit_ok), sent)))"

lemmas program_defs = main_program_def run_cleanup_def serve_until_interrupt_def

lemmas main_defs [eval_defs] = log_level_def resolve_proxy_def proxy_of_url_def prepare_def
  nfq_config_of_def initial_state_def starts_udp_relay_def program_defs

section \<open>What has been checked before the firewall is touched\<close>

lemma resolve_proxy_Inr:
  assumes "resolve_proxy env cfg0 = Inr cfg"
  shows "resolved_ip cfg \<noteq> None \<and> (resolved_ip cfg0 = None \<longrightarrow>
      (\<exists>addrs a b c d. me_resolve env (host cfg0 @ '':'' @ show_nat (unat (port cfg0))) = Some addrs
        \<and> V4 a b c d \<in> set addrs \<and> resolved_ip cfg = u32_from_ne_bytes [a, b, c, d]))
    \<and> host cfg = host cfg0 \<and> port cfg = port cfg0 \<and> proxy_type cfg = proxy_type cfg0
    \<and> username cfg = username cfg0 \<and> password cfg = password cfg0"
  using assms
  by (auto simp: resolve_proxy_def Let_def find_Some_iff split: option.splits resolved_addr.splits if_splits)
    (metis nth_mem)+

lemma proxy_of_url_Inr:
  assumes "proxy_of_url url = Inr cfg"
  shows "\<exists>pp. parse_proxy_url url = Inr pp \<and> cfg = \<lparr>proxy_type = pp_type pp, host = pp_host pp,
    port = pp_port pp, username = pp_username pp, password = pp_password pp, resolved_ip = None\<rparr>"
  using assms by (auto simp: proxy_of_url_def proxy_config_new_def split: sum.splits)

lemma proxy_port_nonzero: "parse_proxy_url url = Inr pp \<Longrightarrow> pp_port pp \<noteq> 0"
  using parse_proxy_url_Inr parse_parts_Inr by metis

text \<open>The table that a list of parsed rules builds: one enabled rule each, in order.\<close>

definition rule_of_parts ::
  "u32 \<Rightarrow> string \<times> string \<times> string \<times> rule_protocol \<times> rule_action \<Rightarrow> rule"
where
  "rule_of_parts i parts = (case parts of (pn, hs, ps, t, a) \<Rightarrow>
     \<lparr>rule_id = i, process_name = pn, target_hosts = hs, target_ports = ps, protocol = t,
      action = a, enabled = True\<rparr>)"

lemma load_rules_Inr:
  "load_rules ss e = Inr e' \<Longrightarrow>
   \<exists>ps. map parse_rule_str ss = map Inr ps
     \<and> rules e' = rules e @ map (\<lambda>(i, p). rule_of_parts (next_rule_id e + of_nat i) p)
                              (zip [0..<length ps] ps)
     \<and> next_rule_id e' = next_rule_id e + of_nat (length ps)"
proof (induction ss arbitrary: e)
  case (Cons s ss)
  from Cons.prems obtain pn hs pts t a where p: "parse_rule_str s = Inr (pn, hs, pts, t, a)"
      and l: "load_rules ss (snd (add_rule pn hs pts t a e)) = Inr e'"
    by (auto split: sum.splits)
  have ne: "pn \<noteq> []" "hs \<noteq> []" "pts \<noteq> []" using parse_rule_str_Inr [OF p] by auto
  let ?e1 = "snd (add_rule pn hs pts t a e)"
  have e1: "rules ?e1 = rules e @ [rule_of_parts (next_rule_id e) (pn, hs, pts, t, a)]"
      "next_rule_id ?e1 = next_rule_id e + 1"
    using ne by (simp_all add: add_rule_def Let_def rule_of_parts_def)
  from Cons.IH [OF l] obtain ps where ps: "map parse_rule_str ss = map Inr ps"
      "rules e' = rules ?e1 @ map (\<lambda>(i, p). rule_of_parts (next_rule_id ?e1 + of_nat i) p)
                              (zip [0..<length ps] ps)"
      "next_rule_id e' = next_rule_id ?e1 + of_nat (length ps)" by blast
  have shift: "zip [0..<Suc (length ps)] (x # ps) = (0, x) # map (\<lambda>(i, p). (Suc i, p)) (zip [0..<length ps] ps)" for x :: "string \<times> string \<times> string \<times> rule_protocol \<times> rule_action"
    by (simp add: upt_rec [of 0 "Suc (length ps)"] map_Suc_upt [symmetric] zip_map1 del: upt_Suc)
  show ?case
    using p ps e1 by (intro exI [of _ "(pn, hs, pts, t, a) # ps"])
      (simp add: shift case_prod_beta o_def add.assoc del: upt_Suc)
qed simp

lemma loaded_rules:
  assumes "load_rules ss rule_engine_new = Inr e"
  obtains ps where "map parse_rule_str ss = map Inr ps"
    and "rules e = map (\<lambda>(i, p). rule_of_parts (1 + of_nat i) p) (zip [0..<length ps] ps)"
  using load_rules_Inr [OF assms] by (auto simp: rule_engine_new_def)

lemma load_rules_enabled:
  assumes "load_rules ss rule_engine_new = Inr e'" and "r \<in> set (rules e')"
  shows "enabled r"
proof -
  obtain ps where "rules e' = map (\<lambda>(i, p). rule_of_parts (1 + of_nat i) p) (zip [0..<length ps] ps)"
    using loaded_rules [OF assms(1)] by blast
  with assms(2) show ?thesis by (auto simp: rule_of_parts_def split: prod.splits)
qed

lemma load_rules_active:
  assumes l: "load_rules ss rule_engine_new = Inr e"
  shows "has_active_rules e \<longleftrightarrow> ss \<noteq> []"
proof -
  obtain ps where m: "map parse_rule_str ss = map Inr ps"
      and r: "rules e = map (\<lambda>(i, p). rule_of_parts (1 + of_nat i) p) (zip [0..<length ps] ps)"
    using loaded_rules [OF l] by blast
  have "length (rules e) = length ps" by (simp add: r)
  moreover have "length ss = length ps" using arg_cong [OF m, of length] by simp
  ultimately have "rules e = [] \<longleftrightarrow> ss = []" by auto
  with load_rules_enabled [OF l] show ?thesis
    by (cases "rules e") (auto simp: has_active_rules_def)
qed

lemma prepare_Inr:
  assumes "prepare env args = Inr (cfg, e)"
  obtains cfg0 where "me_root env" and "proxy_of_url (arg_proxy args) = Inr cfg0"
    and "resolve_proxy env cfg0 = Inr cfg" and "load_rules (arg_rule args) rule_engine_new = Inr e"
  using assms that by (auto simp: prepare_def rbind_eq_Inr split: if_splits)

lemma prepare_not_ok: "prepare env args \<noteq> Inl Exit_ok"
proof -
  have "proxy_of_url u \<noteq> Inl Exit_ok" for u by (auto simp: proxy_of_url_def split: sum.splits)
  moreover have "resolve_proxy env c \<noteq> Inl Exit_ok" for c
    by (auto simp: resolve_proxy_def Let_def split: option.splits)
  moreover have "load_rules ss e \<noteq> Inl Exit_ok" for ss e
    by (induction ss arbitrary: e) (auto split: sum.splits)
  ultimately show ?thesis by (auto simp: prepare_def rbind_eq_Inl)
qed

section \<open>What the kernel is told\<close>

lemma send_and_process_sent:
  "snd (send_and_process x b sent) = sent @ (if open_ok x \<and> send_ok x then [b] else [])"
  by (simp add: send_and_process_def)

lemma nf_cleanup_sent:
  "snd (nf_cleanup x sent) = sent @ (if open_ok x \<and> send_ok x then [cleanup_batch] else [])"
  by (simp add: nf_cleanup_def send_and_process_def)

lemma nf_cleanup_never_fails: "fst (nf_cleanup x sent) \<noteq> Return (Inl e)"
  by (cases "fst (send_and_process x cleanup_batch sent)") (auto simp: nf_cleanup_def split: prod.splits)

section \<open>An example start\<close>

definition example_args :: cli_args where
  "example_args = \<lparr>arg_proxy = url_of Socks5 ''127.0.0.1'' 1080 None, arg_rule = [''*:*:*:BOTH:BLOCK''],
     arg_dns_via_proxy = True, arg_verbose = 0, arg_cleanup = False\<rparr>"

definition acked :: exchange where
  "acked = \<lparr>open_ok = True, send_ok = True, answers = [Cb_stop]\<rparr>"

definition example_main_env :: main_env where
  "example_main_env = \<lparr>me_root = True, me_resolve = (\<lambda>_. Some [V6, V4 127 0 0 1]), me_pid = 99,
     me_nft_before = acked, me_nft_setup = acked, me_nft_after = acked,
     me_runtime_ok = True, me_signal_ok = True, me_interrupted = True\<rparr>"

lemma example_rule: "parse_rule_str ''*:*:*:BOTH:BLOCK'' = Inr (''*'', ''*'', ''*'', Both, Block)"
  by (simp add: eval_defs)

lemma example_prepared: "\<exists>cfg e. prepare example_main_env example_args = Inr (cfg, e)"
proof -
  have "parse_proxy_url (arg_proxy example_args) = Inr \<lparr>pp_type = Socks5, pp_host = ''127.0.0.1'',
      pp_port = 1080, pp_username = None, pp_password = None\<rparr>"
    using parse_url_of [of 1080 "''127.0.0.1''" None Socks5] by (simp add: example_args_def)
  then obtain cfg0 where u: "proxy_of_url (arg_proxy example_args) = Inr cfg0"
    by (simp add: proxy_of_url_def)
  obtain cfg where r: "resolve_proxy example_main_env cfg0 = Inr cfg"
    by (simp add: resolve_proxy_def example_main_env_def)
  obtain e where "load_rules (arg_rule example_args) rule_engine_new = Inr e"
    by (simp add: example_args_def example_rule)
  with u r show ?thesis by (simp add: prepare_def) (simp add: example_main_env_def)
qed

lemma acked_cleanup: "nf_cleanup acked sent = (Return (Inr ()), sent @ [cleanup_batch])"
  by (simp add: nf_cleanup_def send_and_process_def acked_def)

lemma acked_setup: "nf_setup acked acked t u q sent = (Return (Inr ()), sent @ [cleanup_batch, setup_batch t u q])"
  by (simp add: nf_setup_def acked_cleanup) (simp add: send_and_process_def acked_def)

section \<open>The properties of the program\<close>

text \<open>C35: unless it was asked to clean up, the program sends nothing to the firewall before it has
  found that it runs as root, that the proxy URL and every rule parse, and that the proxy has an
  IPv4 address; the port is then not zero.\<close>

theorem firewall_untouched_before_checks:
  assumes "\<not> arg_cleanup args" and "snd (main_program env args) \<noteq> []"
  shows "me_root env \<and> (\<forall>s \<in> set (arg_rule args). \<exists>x. parse_rule_str s = Inr x)
    \<and> (\<exists>cfg e pp. prepare env args = Inr (cfg, e) \<and> parse_proxy_url (arg_proxy args) = Inr pp
         \<and> host cfg = pp_host pp \<and> port cfg = pp_port pp \<and> port cfg \<noteq> 0 \<and> resolved_ip cfg \<noteq> None)"
proof -
  obtain cfg e where p: "prepare env args = Inr (cfg, e)"
    using assms by (cases "prepare env args") (auto simp: program_defs)
  from prepare_Inr [OF p] obtain cfg0 where root: "me_root env"
      and u: "proxy_of_url (arg_proxy args) = Inr cfg0" and r: "resolve_proxy env cfg0 = Inr cfg"
      and l: "load_rules (arg_rule args) rule_engine_new = Inr e" .
  from proxy_of_url_Inr [OF u] obtain pp where pp: "parse_proxy_url (arg_proxy args) = Inr pp"
      and c: "host cfg0 = pp_host pp" "port cfg0 = pp_port pp" by auto
  obtain ps where ps: "map parse_rule_str (arg_rule args) = map Inr ps"
    using loaded_rules [OF l] by blast
  have "\<forall>s \<in> set (arg_rule args). \<exists>x. parse_rule_str s = Inr x"
  proof
    fix s assume "s \<in> set (arg_rule args)"
    then have "parse_rule_str s \<in> set (map Inr ps)" unfolding ps [symmetric] by simp
    then show "\<exists>x. parse_rule_str s = Inr x" by auto
  qed
  then show ?thesis
    using root p pp c resolve_proxy_Inr [OF r] proxy_port_nonzero [OF pp] by auto
qed

theorem firewall_untouched_before_checks_witness:
  "me_root example_main_env \<and> \<not> arg_cleanup example_args \<and> snd (main_program example_main_env example_args) \<noteq> []"
proof -
  have c: "\<not> arg_cleanup example_args" by (simp add: example_args_def)
  have s: "snd (main_program example_main_env example_args) \<noteq> []"
    using example_prepared c by (auto simp: program_defs) (simp add: example_main_env_def serve_until_interrupt_def acked_setup acked_cleanup)
  from firewall_untouched_before_checks [OF c s] c s show ?thesis by simp
qed

text \<open>C36: when the program ends normally, after an interrupt or after \<open>--cleanup\<close>, and the netlink
  socket takes the batch, the last thing the kernel was told is to delete the table.\<close>

theorem clean_exit_removes_table:
  assumes "main_program env args = (Return Exit_ok, sent)"
    and "open_ok (me_nft_before env) \<and> send_ok (me_nft_before env)"
    and "open_ok (me_nft_after env) \<and> send_ok (me_nft_after env)"
  shows "sent \<noteq> [] \<and> last sent = cleanup_batch"
proof (cases "arg_cleanup args")
  case True
  with assms(1,2) nf_cleanup_sent [of "me_nft_before env" "[]"] show ?thesis
    by (auto simp: program_defs split: prod.splits)
next
  case False
  with assms(1) obtain cfg e where p: "prepare env args = Inr (cfg, e)"
    using prepare_not_ok by (cases "prepare env args") (auto simp: program_defs)
  obtain r sent0 where s: "nf_setup (me_nft_before env) (me_nft_setup env) LOCAL_PROXY_PORT
      LOCAL_UDP_RELAY_PORT NFQUEUE_NUM [] = (r, sent0)" by (cases rule: prod.exhaust)
  obtain x where r: "r = Return (Inr x)"
    using assms(1) False p s by (cases r) (auto simp: program_defs split: sum.splits)
  have "snd (nf_cleanup (me_nft_after env) sent0) = sent"
    using assms(1) False p s r by (auto simp: program_defs split: if_splits prod.splits)
  with assms(3) nf_cleanup_sent [of "me_nft_after env" sent0] show ?thesis by auto
qed

theorem clean_exit_removes_table_witness:
  "last (snd (main_program example_main_env example_args)) = cleanup_batch"
proof -
  have "main_program example_main_env example_args = (Return Exit_ok, snd (main_program example_main_env example_args))"
    using example_prepared by (auto simp: program_defs example_args_def)
      (simp add: example_main_env_def serve_until_interrupt_def acked_setup acked_cleanup)
  from clean_exit_removes_table [OF this] example_prepared show ?thesis
    by (auto simp: example_main_env_def acked_def)
qed

text \<open>C40: when the runtime or the signal handler cannot be set up, the program ends with an error
  and the table it has installed stays: every new flow goes on being sent to a queue that nobody
  reads.\<close>

theorem table_left_behind:
  assumes "\<not> arg_cleanup args" and "prepare env args = Inr (cfg, e)"
    and "nf_setup (me_nft_before env) (me_nft_setup env) LOCAL_PROXY_PORT LOCAL_UDP_RELAY_PORT NFQUEUE_NUM []
      = (Return (Inr ()), sent)"
    and "\<not> (me_runtime_ok env \<and> me_signal_ok env)"
  shows "(\<exists>err. fst (main_program env args) = Return (Exit_err err)) \<and> snd (main_program env args) = sent
    \<and> last sent = setup_batch LOCAL_PROXY_PORT LOCAL_UDP_RELAY_PORT NFQUEUE_NUM"
proof -
  have "(\<exists>err. fst (main_program env args) = Return (Exit_err err)) \<and> snd (main_program env args) = sent"
    using assms by (auto simp: program_defs)
  moreover have "last sent = setup_batch LOCAL_PROXY_PORT LOCAL_UDP_RELAY_PORT NFQUEUE_NUM"
    using assms(3) by (auto simp: nf_setup_def send_and_process_def split: prod.splits outcome.splits if_splits)
  ultimately show ?thesis by blast
qed

theorem table_left_behind_witness:
  "last (snd (main_program (example_main_env\<lparr>me_runtime_ok := False\<rparr>) example_args))
     = setup_batch LOCAL_PROXY_PORT LOCAL_UDP_RELAY_PORT NFQUEUE_NUM"
proof -
  have "prepare (example_main_env\<lparr>me_runtime_ok := False\<rparr>) example_args = prepare example_main_env example_args"
    by (simp add: prepare_def resolve_proxy_def)
  then obtain cfg e where "prepare (example_main_env\<lparr>me_runtime_ok := False\<rparr>) example_args = Inr (cfg, e)"
    using example_prepared by auto
  from table_left_behind [OF _ this] show ?thesis
    using acked_setup [of LOCAL_PROXY_PORT LOCAL_UDP_RELAY_PORT NFQUEUE_NUM "[]"]
    by (simp add: example_args_def example_main_env_def)
qed

text \<open>C21: the table the packet processor starts with has one enabled rule for each \<open>--rule\<close>, in
  their order, numbered from 1, with the parts that its text was parsed to.\<close>

theorem command_line_table:
  assumes "prepare env args = Inr (cfg, e)"
  shows "\<exists>ps. map parse_rule_str (arg_rule args) = map Inr ps
    \<and> rules e = map (\<lambda>(i, p). rule_of_parts (1 + of_nat i) p) (zip [0..<length ps] ps)
    \<and> (has_active_rules e \<longleftrightarrow> arg_rule args \<noteq> [])"
proof -
  obtain cfg0 where l: "load_rules (arg_rule args) rule_engine_new = Inr e"
    using prepare_Inr [OF assms] .
  from loaded_rules [OF l] load_rules_active [OF l] show ?thesis by metis
qed

theorem command_line_table_witness:
  "\<exists>cfg e. prepare example_main_env example_args = Inr (cfg, e) \<and> has_active_rules e"
proof -
  obtain cfg e where p: "prepare example_main_env example_args = Inr (cfg, e)" using example_prepared by blast
  from command_line_table [OF p] p show ?thesis by (auto simp: example_args_def)
qed

end
