(* ===== verification/Packet_Steps.thy ===== *)
theory Packet_Steps
  imports Nfqueue
begin

text \<open>
  The packet thread at the grain of its accesses to shared state. Between two of them other
  threads may run, so a packet is not one step but several: its header and the rules, the
  tracker, the PID cache, the system, the PID cache again, the process name with the rules, and
  the tracker. \<open>stage\<close> is where the loop body of \<open>run_nfqueue\<close> stands, with the locals still
  needed; \<open>packet_step\<close> goes on to the next access. Without interruption the steps are
  \<open>process_packet\<close>.
\<close>

datatype stage =
    At_header
  | At_tracked u32 u32 transport
  | At_cache u32 u32 transport
  | At_lookup u32 u32 transport
  | At_put u32 u32 transport u32
  | At_name u32 u32 transport u32
  | At_add u32 u32 transport "string list"
  | At_verdict packet_out

text \<open>What the matching action leads to: only \<open>Proxy\<close> touches the tracker.\<close>

definition after_action ::
  "proxy_config \<Rightarrow> u32 \<Rightarrow> u32 \<Rightarrow> transport \<Rightarrow> rule_action \<Rightarrow> string list \<Rightarrow> stage"
where
  "after_action pc sip dip tp a log =
     (case adjust_action pc dip (tp_dest_port tp) (\<not> tp_is_tcp tp) a of
        Direct \<Rightarrow> At_verdict \<lparr>out_verdict = Accept, out_mark = None, out_log = log\<rparr>
      | Block \<Rightarrow> At_verdict \<lparr>out_verdict = Drop, out_mark = None, out_log = log\<rparr>
      | Proxy \<Rightarrow> At_add sip dip tp log)"

definition read_header :: "bytes \<Rightarrow> nfq_state \<Rightarrow> stage outcome" where
  "read_header payload st =
     (if length payload < 20 then Return (At_verdict accept_out)
      else obind (index payload 0) (\<lambda>version_ihl.
           obind (index payload 9) (\<lambda>proto.
           obind (subslice payload 12 16) (\<lambda>src.
           obind (subslice payload 16 20) (\<lambda>dst.
             let ihl = unat (version_ihl AND 0x0F) * 4;
                 sip = unwrap_or (u32_from_ne_bytes src) 0;
                 dip = unwrap_or (u32_from_ne_bytes dst) 0
             in if \<not> has_active_rules (engine st) then Return (At_verdict accept_out)
                else obind (parse_transport payload ihl proto) (\<lambda>t.
                  Return (case t of
                      None \<Rightarrow> At_verdict accept_out
                    | Some tp \<Rightarrow>
                        if tp_is_tcp tp \<and> tp_src_port tp = LOCAL_PROXY_PORT then At_verdict accept_out
                        else if \<not> tp_is_tcp tp \<and> tp_src_port tp = LOCAL_UDP_RELAY_PORT
                        then At_verdict accept_out
                        else At_tracked sip dip tp)))))))"

text \<open>The system's answer to a lookup that the cache could not give, \<open>0\<close> when there is none.\<close>

definition lookup_pid :: "os \<Rightarrow> u32 \<Rightarrow> u16 \<Rightarrow> bool \<Rightarrow> u32 outcome" where
  "lookup_pid w sip sport is_udp =
     obind (get_pid_via_netlink w sip sport is_udp) (\<lambda>found. Return (case found of
         Some p \<Rightarrow> p
       | None \<Rightarrow> if is_udp then unwrap_or (get_pid_from_proc_net_udp w sport) 0 else 0))"

fun packet_step ::
  "nfq_config \<Rightarrow> os \<Rightarrow> instant \<Rightarrow> bytes \<Rightarrow> stage \<Rightarrow> nfq_state \<Rightarrow> (stage \<times> nfq_state) outcome"
where
  "packet_step cfg w t payload At_header st =
     obind (read_header payload st) (\<lambda>g. Return (g, st))"
| "packet_step cfg w t payload (At_tracked sip dip tp) st = Return
     (if is_tracked (tracker st) (tp_src_port tp) then At_verdict accept_out
      else if tp_is_tcp tp \<and> \<not> tp_is_syn tp then At_verdict accept_out
      else if tp_dest_port tp = 53 \<and> \<not> dns_via_proxy cfg
      then after_action (proxy_cfg cfg) sip dip tp Direct []
      else At_cache sip dip tp, st)"
| "packet_step cfg w t payload (At_cache sip dip tp) st = Return
     (case pid_get t (pids st) sip (tp_src_port tp) (\<not> tp_is_tcp tp) of
        Some p \<Rightarrow> At_name sip dip tp p
      | None \<Rightarrow> At_lookup sip dip tp, st)"
| "packet_step cfg w t payload (At_lookup sip dip tp) st =
     obind (lookup_pid w sip (tp_src_port tp) (\<not> tp_is_tcp tp)) (\<lambda>p. Return
       (if p \<noteq> 0 then At_put sip dip tp p else At_name sip dip tp 0, st))"
| "packet_step cfg w t payload (At_put sip dip tp p) st = Return
     (At_name sip dip tp p,
      st\<lparr>pids := pid_put t sip (tp_src_port tp) p (\<not> tp_is_tcp tp) (pids st)\<rparr>)"
| "packet_step cfg w t payload (At_name sip dip tp p) st = Return
     (if p = 0 \<or> p = current_pid cfg then after_action (proxy_cfg cfg) sip dip tp Direct []
      else case get_process_name w p of
          Some name \<Rightarrow>
            let matched = match_rule (engine st) name dip (tp_dest_port tp) (\<not> tp_is_tcp tp)
            in after_action (proxy_cfg cfg) sip dip tp matched
                 (if verbose_level cfg \<ge> 2
                  then [log_line cfg name p dip (tp_dest_port tp) (\<not> tp_is_tcp tp) matched] else [])
        | None \<Rightarrow> after_action (proxy_cfg cfg) sip dip tp Direct [], st)"
| "packet_step cfg w t payload (At_add sip dip tp log) st = Return
     (At_verdict \<lparr>out_verdict = Accept,
        out_mark = Some (if tp_is_tcp tp then TCP_MARK else UDP_MARK), out_log = log\<rparr>,
      st\<lparr>tracker := tracker_add t (tp_src_port tp) sip dip (tp_dest_port tp) (tracker st)\<rparr>)"
| "packet_step cfg w t payload (At_verdict out) st = Return (At_verdict out, st)"

section \<open>The steps without interruption\<close>

text \<open>The moment of \<open>pkt_env\<close> that each access happens at.\<close>

definition time_of :: "pkt_env \<Rightarrow> stage \<Rightarrow> instant" where
  "time_of env g = (case g of
       At_put _ _ _ _ \<Rightarrow> t_put env | At_name _ _ _ _ \<Rightarrow> t_put env
     | At_add _ _ _ _ \<Rightarrow> t_add env | At_verdict _ \<Rightarrow> t_add env | _ \<Rightarrow> t_get env)"

definition env_ordered :: "pkt_env \<Rightarrow> bool" where
  "env_ordered env = (t_get env \<le> t_put env \<and> t_put env \<le> t_add env)"

primrec packet_run ::
  "nfq_config \<Rightarrow> pkt_env \<Rightarrow> bytes \<Rightarrow> nat \<Rightarrow> stage \<Rightarrow> nfq_state \<Rightarrow> (stage \<times> nfq_state) outcome"
where
  "packet_run cfg env payload 0 g st = Return (g, st)"
| "packet_run cfg env payload (Suc n) g st =
     obind (packet_step cfg (world env) (time_of env g) payload g st)
       (\<lambda>(g', st'). packet_run cfg env payload n g' st')"

lemma packet_run_verdict [simp]:
  "packet_run cfg env payload n (At_verdict out) st = Return (At_verdict out, st)"
  by (induction n) simp_all

lemma time_of_after_action: "time_of env (after_action pcfg sip dip tp a log) = t_add env"
  by (simp add: after_action_def time_of_def split: rule_action.split)

lemma time_of_mono:
  assumes "env_ordered env" and "packet_step cfg w t payload g st = Return (g', st')"
  shows "time_of env g \<le> time_of env g'"
proof -
  have late: "time_of env g'' \<le> t_add env" "t_get env \<le> time_of env g''" for g''
    using assms(1) by (auto simp: env_ordered_def time_of_def split: stage.split)
  show ?thesis
  proof (cases g)
    case (At_put sip dip tp p)
    then show ?thesis using assms by (auto simp: time_of_def)
  next
    case (At_name sip dip tp p)
    then have "time_of env g' = t_add env"
      using assms(2) by (auto simp: time_of_after_action Let_def split: option.splits if_splits)
    with late show ?thesis by simp
  next
    case (At_add sip dip tp log)
    then show ?thesis using assms(2) by (auto simp: time_of_def)
  next
    case (At_verdict out)
    then show ?thesis using assms(2) by auto
  qed (use late(2) [of g'] in \<open>simp_all add: time_of_def\<close>)
qed

text \<open>From each stage on, the rest of the packet as the one-step functions say it.\<close>

lemma run_after_action:
  "packet_run cfg env payload (Suc n) (after_action pcfg sip dip tp a log) st =
     (case apply_action env sip dip tp (adjust_action pcfg dip (tp_dest_port tp) (\<not> tp_is_tcp tp) a) log st of
        (out, st') \<Rightarrow> Return (At_verdict out, st'))"
  by (simp add: after_action_def apply_action_def time_of_def split: rule_action.split)

lemma lookup_not_cached:
  "pid_get t c sip sport is_udp = None \<Longrightarrow>
   get_pid_from_connection t t' w sip sport is_udp c =
     obind (lookup_pid w sip sport is_udp)
       (\<lambda>p. Return (p, if p \<noteq> 0 then pid_put t' sip sport p is_udp c else c))"
  by (auto simp: get_pid_from_connection_def lookup_pid_def obind_assoc Let_def intro!: arg_cong2 [of _ _ _ _ obind] split: option.split)

text \<open>The verdict of the rules once the process is known.\<close>

definition pid_decision ::
  "nfq_config \<Rightarrow> os \<Rightarrow> u32 \<Rightarrow> transport \<Rightarrow> u32 \<Rightarrow> nfq_state \<Rightarrow> rule_action \<times> string list"
where
  "pid_decision cfg w dip tp p st =
     (if p = 0 \<or> p = current_pid cfg then (Direct, [])
      else case get_process_name w p of
          Some name \<Rightarrow>
            let matched = match_rule (engine st) name dip (tp_dest_port tp) (\<not> tp_is_tcp tp)
            in (matched, if verbose_level cfg \<ge> 2
                  then [log_line cfg name p dip (tp_dest_port tp) (\<not> tp_is_tcp tp) matched] else [])
        | None \<Rightarrow> (Direct, []))"

lemma pid_decision_pids [simp]: "pid_decision cfg w dip tp p (st\<lparr>pids := c\<rparr>) = pid_decision cfg w dip tp p st"
  by (simp add: pid_decision_def Let_def split: option.split)

lemma choose_action_pid:
  "choose_action cfg env sip dip (tp_src_port tp) (tp_dest_port tp) (\<not> tp_is_tcp tp) st =
     (if tp_dest_port tp = 53 \<and> \<not> dns_via_proxy cfg then Return (Direct, [], st)
      else obind (get_pid_from_connection (t_get env) (t_put env) (world env) sip (tp_src_port tp)
                    (\<not> tp_is_tcp tp) (pids st))
        (\<lambda>(p, c). case pid_decision cfg (world env) dip tp p st of
            (a, log) \<Rightarrow> Return (a, log, st\<lparr>pids := c\<rparr>)))"
  by (auto simp: choose_action_def pid_decision_def Let_def intro!: arg_cong2 [of _ _ _ _ obind] split: option.split)

lemma step_name:
  "packet_step cfg w t payload (At_name sip dip tp p) st =
     (case pid_decision cfg w dip tp p st of (a, log) \<Rightarrow> Return (after_action (proxy_cfg cfg) sip dip tp a log, st))"
  by (auto simp: pid_decision_def Let_def split: option.split)

definition conclude ::
  "nfq_config \<Rightarrow> pkt_env \<Rightarrow> u32 \<Rightarrow> u32 \<Rightarrow> transport \<Rightarrow> rule_action \<times> string list \<times> nfq_state
   \<Rightarrow> (stage \<times> nfq_state) outcome"
where
  "conclude cfg env sip dip tp r = (case r of (a, log, st) \<Rightarrow>
     (case apply_action env sip dip tp (adjust_action (proxy_cfg cfg) dip (tp_dest_port tp) (\<not> tp_is_tcp tp) a) log st of
        (out, st') \<Rightarrow> Return (At_verdict out, st')))"

lemma run_after:
  "packet_run cfg env payload (Suc n) (after_action (proxy_cfg cfg) sip dip tp a log) st
     = conclude cfg env sip dip tp (a, log, st)"
  by (simp add: conclude_def run_after_action del: packet_run.simps(2))

lemma run_name:
  "packet_run cfg env payload (Suc (Suc n)) (At_name sip dip tp p) st =
     (case pid_decision cfg (world env) dip tp p st of (a, log) \<Rightarrow> conclude cfg env sip dip tp (a, log, st))"
  by (simp only: packet_run.simps(2) [of cfg env payload "Suc n" "At_name sip dip tp p"] step_name)
    (simp add: run_after del: packet_run.simps(2) split: prod.split)

lemma run_cache:
  "packet_run cfg env payload (Suc (Suc (Suc (Suc (Suc n))))) (At_cache sip dip tp) st =
     obind (get_pid_from_connection (t_get env) (t_put env) (world env) sip (tp_src_port tp)
              (\<not> tp_is_tcp tp) (pids st))
       (\<lambda>(p, c). case pid_decision cfg (world env) dip tp p st of
          (a, log) \<Rightarrow> conclude cfg env sip dip tp (a, log, st\<lparr>pids := c\<rparr>))"
proof (cases "pid_get (t_get env) (pids st) sip (tp_src_port tp) (\<not> tp_is_tcp tp)")
  case (Some p)
  have "packet_run cfg env payload (Suc (Suc (Suc (Suc (Suc n))))) (At_cache sip dip tp) st
      = packet_run cfg env payload (Suc (Suc (Suc (Suc n)))) (At_name sip dip tp p) st"
    using Some by (simp add: time_of_def del: packet_run.simps(2) add: packet_run.simps(2) [of _ _ _ "Suc (Suc (Suc (Suc n)))" "At_cache sip dip tp"])
  with Some show ?thesis by (simp add: run_name get_pid_from_connection_def del: packet_run.simps(2))
next
  case None
  let ?look = "lookup_pid (world env) sip (tp_src_port tp) (\<not> tp_is_tcp tp)"
  have put: "packet_run cfg env payload (Suc (Suc (Suc n))) (At_put sip dip tp p) st
      = (case pid_decision cfg (world env) dip tp p st of
          (a, log) \<Rightarrow> conclude cfg env sip dip tp (a, log,
            st\<lparr>pids := pid_put (t_put env) sip (tp_src_port tp) p (\<not> tp_is_tcp tp) (pids st)\<rparr>))" for p
    by (simp add: time_of_def run_name del: packet_run.simps(2) add: packet_run.simps(2) [of _ _ _ "Suc (Suc n)" "At_put sip dip tp p"])
  have look: "packet_run cfg env payload (Suc (Suc (Suc (Suc n)))) (At_lookup sip dip tp) st
      = obind ?look (\<lambda>p. case pid_decision cfg (world env) dip tp p st of
          (a, log) \<Rightarrow> conclude cfg env sip dip tp (a, log, st\<lparr>pids :=
            if p \<noteq> 0 then pid_put (t_put env) sip (tp_src_port tp) p (\<not> tp_is_tcp tp) (pids st) else pids st\<rparr>))"
    by (simp add: time_of_def run_name put obind_assoc del: packet_run.simps(2)
        add: packet_run.simps(2) [of _ _ _ "Suc (Suc (Suc n))" "At_lookup sip dip tp"])
      (auto simp: put run_name intro!: arg_cong2 [of _ _ _ _ obind] simp del: packet_run.simps(2))
  have "packet_run cfg env payload (Suc (Suc (Suc (Suc (Suc n))))) (At_cache sip dip tp) st
      = packet_run cfg env payload (Suc (Suc (Suc (Suc n)))) (At_lookup sip dip tp) st"
    using None by (simp add: time_of_def del: packet_run.simps(2) add: packet_run.simps(2) [of _ _ _ "Suc (Suc (Suc (Suc n)))" "At_cache sip dip tp"])
  with None look show ?thesis by (simp add: lookup_not_cached obind_assoc del: packet_run.simps(2))
qed

lemma run_tracked:
  "packet_run cfg env payload (Suc (Suc (Suc (Suc (Suc (Suc n)))))) (At_tracked sip dip tp) st =
     (if is_tracked (tracker st) (tp_src_port tp) \<or> tp_is_tcp tp \<and> \<not> tp_is_syn tp
      then Return (At_verdict accept_out, st)
      else obind (choose_action cfg env sip dip (tp_src_port tp) (tp_dest_port tp) (\<not> tp_is_tcp tp) st)
             (conclude cfg env sip dip tp))"
  by (subst packet_run.simps(2))
    (auto simp: run_cache run_after choose_action_pid obind_assoc case_prod_beta
      simp del: packet_run.simps(2) intro!: arg_cong2 [of _ _ _ _ obind])

lemma read_header_of:
  "read_header payload st = Return
     (case header_of payload of
        None \<Rightarrow> At_verdict accept_out
      | Some (sip, dip, tp) \<Rightarrow>
          if \<not> has_active_rules (engine st) then At_verdict accept_out
          else if tp_is_tcp tp \<and> tp_src_port tp = LOCAL_PROXY_PORT then At_verdict accept_out
          else if \<not> tp_is_tcp tp \<and> tp_src_port tp = LOCAL_UDP_RELAY_PORT then At_verdict accept_out
          else At_tracked sip dip tp)"
proof (cases "length payload < 20")
  case True
  then show ?thesis by (simp add: read_header_def header_of_def)
next
  case False
  obtain t where t: "parse_transport payload (unat (payload ! 0 AND 0x0F) * 4) (payload ! 9) = Return t"
    using parse_transport_returns by blast
  show ?thesis
    using False t by (cases t) (simp_all add: read_header_def header_of_def header_access [OF False] Let_def)
qed

text \<open>
  Without interruption, at most seven accesses bring a packet to the verdict and the state that
  \<open>process_packet\<close> says; the steps hang, or read outside the netlink buffer, when it does.
\<close>

lemma run_to_verdict:
  "packet_run cfg env payload 7 At_header st =
     obind (process_packet cfg env payload st) (\<lambda>(out, st'). Return (At_verdict out, st'))"
proof -
  have seven: "(7 :: nat) = Suc (Suc (Suc (Suc (Suc (Suc (Suc 0))))))" by simp
  have flow: "obind (process_flow cfg env sip dip tp st) (\<lambda>(out, st'). Return (At_verdict out, st')) =
     (if new_flow tp st
      then obind (choose_action cfg env sip dip (tp_src_port tp) (tp_dest_port tp) (\<not> tp_is_tcp tp) st)
             (conclude cfg env sip dip tp)
      else Return (At_verdict accept_out, st))" for sip dip tp
    by (auto simp: process_flow_new obind_assoc conclude_def case_prod_beta intro!: arg_cong2 [of _ _ _ _ obind])
  show ?thesis
    unfolding seven
    by (subst packet_run.simps(2))
      (auto simp: read_header_of process_packet_header flow run_tracked new_flow_def
        simp del: packet_run.simps(2) split: option.split)
qed

end
