(* ===== verification/Bridge.thy ===== *)
theory Bridge
  imports Main_Program Packet_Steps
begin

text \<open>
  The running program: the threads of \<open>main.rs\<close> over the state they share, as a step
  relation. Rules and configuration do not change after the start. The packet thread takes a
  packet from the queue, goes through the accesses of \<open>packet_step\<close> one by one and gives its
  verdict; between them anything else may happen: the cleanup of each store, an accepted
  connection, a half of a turn of the UDP relay. The clock does not go back. That is more than
  the threads can do, so what holds of every reachable state holds of the program.
\<close>

record system =
  nfq :: nfq_state
  handling :: "(bytes \<times> stage) option"
  udp :: udp_relay
  clock :: instant

text \<open>
  A half of a turn of the UDP relay is told by what it received, from a client or from the proxy,
  and by what it sent.
\<close>

datatype udp_input = From_local local_recv | From_remote "bytes option"

datatype event =
    Ev_receive bytes
  | Ev_access
  | Ev_packet bytes packet_out
  | Ev_clean
  | Ev_tunnel u16 u32 u16
  | Ev_assoc
  | Ev_udp udp_input "udp_out list"

definition initial_system :: "rule_engine \<Rightarrow> system" where
  "initial_system e = \<lparr>nfq = initial_state e, handling = None, udp = udp_relay_new, clock = 0\<rparr>"

inductive step :: "nfq_config \<Rightarrow> system \<Rightarrow> event \<Rightarrow> system \<Rightarrow> bool" for cfg where
  receive: "handling s = None \<Longrightarrow>
     step cfg s (Ev_receive payload) (s\<lparr>handling := Some (payload, At_header)\<rparr>)"
| access: "handling s = Some (payload, g) \<Longrightarrow> clock s \<le> t \<Longrightarrow>
     packet_step cfg w t payload g (nfq s) = Return (g', st) \<Longrightarrow>
     step cfg s Ev_access (s\<lparr>nfq := st, handling := Some (payload, g'), clock := t\<rparr>)"
| packet: "handling s = Some (payload, At_verdict out) \<Longrightarrow> clock s \<le> t \<Longrightarrow>
     step cfg s (Ev_packet payload out) (s\<lparr>handling := None, clock := t\<rparr>)"
| clean_tracker: "clock s \<le> t \<Longrightarrow>
     step cfg s Ev_clean
       (s\<lparr>nfq := (nfq s)\<lparr>tracker := cleanup_stale t (tracker (nfq s))\<rparr>, clock := t\<rparr>)"
| clean_pids: "clock s \<le> t \<Longrightarrow>
     step cfg s Ev_clean (s\<lparr>nfq := (nfq s)\<lparr>pids := pid_cleanup t (pids (nfq s))\<rparr>, clock := t\<rparr>)"
| tunnel: "accept_turn (Accepted q client (tracker (nfq s))) = Some task \<Longrightarrow>
     step cfg s (Ev_tunnel q (task_dest_ip task) (task_dest_port task)) s"
| assoc: "starts_udp_relay (proxy_cfg cfg) \<Longrightarrow> relay_addr (udp s) = None \<Longrightarrow>
     establish_udp_associate connect udp_bind (proxy_cfg cfg) = Inr (ctrl, u, addr) \<Longrightarrow>
     step cfg s Ev_assoc
       (s\<lparr>udp := \<lparr>control_sock = Some ctrl, send_sock = Some u, relay_addr = Some addr\<rparr>\<rparr>)"
| from_client: "starts_udp_relay (proxy_cfg cfg) \<Longrightarrow>
     relay_from_client (tracker (nfq s)) sent_ok ev (udp s) = (out, u) \<Longrightarrow>
     step cfg s (Ev_udp (From_local ev) out) (s\<lparr>udp := u\<rparr>)"
| from_proxy: "starts_udp_relay (proxy_cfg cfg) \<Longrightarrow>
     is_iteration (connections (tracker (nfq s))) iter \<Longrightarrow>
     relay_from_proxy iter remote (udp s) = Return out \<Longrightarrow>
     step cfg s (Ev_udp (From_remote remote) out) s"

inductive_cases step_packetE: "step cfg s (Ev_packet payload out) s'"
inductive_cases step_tunnelE: "step cfg s (Ev_tunnel q dip dport) s'"
inductive_cases step_udpE: "step cfg s (Ev_udp inp out) s'"

inductive_simps step_tunnel_iff: "step cfg s (Ev_tunnel q dip dport) s'"

lemma step_udp:
  assumes "step cfg s (Ev_udp inp out) s'"
  obtains (client) sent_ok ev u where "inp = From_local ev"
      and "relay_from_client (tracker (nfq s)) sent_ok ev (udp s) = (out, u)"
  | (proxy) iter remote where "inp = From_remote remote" and "is_iteration (connections (tracker (nfq s))) iter"
      and "relay_from_proxy iter remote (udp s) = Return out"
  using assms by (elim step_udpE) auto

inductive reachable :: "nfq_config \<Rightarrow> rule_engine \<Rightarrow> system \<Rightarrow> bool" for cfg e where
  start: "reachable cfg e (initial_system e)"
| more: "reachable cfg e s \<Longrightarrow> step cfg s ev s' \<Longrightarrow> reachable cfg e s'"

section \<open>What the policy allows to be proxied\<close>

text \<open>
  A flow of a program and protocol is to be proxied when the rules say \<open>Proxy\<close> for it and it
  is none of the exceptions. The tracker does not keep the protocol, so what the relays do with
  an entry is told by its destination, which is to be proxied for some program and protocol.
\<close>

definition flow_proxied :: "nfq_config \<Rightarrow> rule_engine \<Rightarrow> string \<Rightarrow> bool \<Rightarrow> u32 \<Rightarrow> u16 \<Rightarrow> bool" where
  "flow_proxied cfg e name is_udp dip dport =
     (match_rule e name dip dport is_udp = Proxy
      \<and> \<not> exempt (proxy_cfg cfg) (dns_via_proxy cfg) is_udp dip dport)"

definition proxied_flow :: "nfq_config \<Rightarrow> rule_engine \<Rightarrow> u32 \<Rightarrow> u16 \<Rightarrow> bool" where
  "proxied_flow cfg e dip dport = (\<exists>name is_udp. flow_proxied cfg e name is_udp dip dport)"

lemma flow_proxiedI:
  assumes "adjust_action (proxy_cfg cfg) dip dport is_udp (match_rule e name dip dport is_udp) = Proxy"
    and "dport = 53 \<longrightarrow> dns_via_proxy cfg"
  shows "flow_proxied cfg e name is_udp dip dport"
  using assms
  by (auto simp: flow_proxied_def adjust_action_exempt exempt_dns [of _ "dns_via_proxy cfg"] split: if_splits)

lemma proxied_flowI: "flow_proxied cfg e name is_udp dip dport \<Longrightarrow> proxied_flow cfg e dip dport"
  by (auto simp: proxied_flow_def)

lemma process_flow_Return:
  assumes "process_flow cfg env sip dip tp st = Return (out, st')"
  shows "(out = accept_out \<and> st' = st \<and> \<not> new_flow tp st)
    \<or> (new_flow tp st \<and> (\<exists>a log st1. choose_action cfg env sip dip (tp_src_port tp) (tp_dest_port tp) (\<not> tp_is_tcp tp) st
            = Return (a, log, st1)
         \<and> (out, st') = apply_action env sip dip tp
              (adjust_action (proxy_cfg cfg) dip (tp_dest_port tp) (\<not> tp_is_tcp tp) a) log st1))"
  using assms by (auto simp: process_flow_new obind_eq_Return split: if_splits)

text \<open>A packet changes the tracker only by an entry for its own flow, which the policy allows.\<close>

lemma process_packet_tracker:
  assumes "process_packet cfg env payload st = Return (out, st')"
  shows "engine st' = engine st
    \<and> (out_mark out = None \<and> tracker st' = tracker st
       \<or> (\<exists>sip dip tp. header_of payload = Some (sip, dip, tp) \<and> new_flow tp st
            \<and> (\<exists>name. flow_proxied cfg (engine st) name (\<not> tp_is_tcp tp) dip (tp_dest_port tp))
            \<and> out_verdict out = Accept
            \<and> out_mark out = Some (if tp_is_tcp tp then TCP_MARK else UDP_MARK)
            \<and> tracker st' = tracker_add (t_add env) (tp_src_port tp) sip dip (tp_dest_port tp) (tracker st)))"
proof (cases "\<exists>sip dip tp. header_of payload = Some (sip, dip, tp) \<and> has_active_rules (engine st)
    \<and> new_flow tp st")
  case False
  then have "out = accept_out \<and> st' = st"
    using assms by (auto simp: process_packet_header process_flow_new split: option.splits if_splits prod.splits)
  then show ?thesis by (simp add: accept_out_def)
next
  case True
  then obtain sip dip tp where h: "header_of payload = Some (sip, dip, tp)" and new: "new_flow tp st"
      and f: "process_flow cfg env sip dip tp st = Return (out, st')"
    using assms by (auto simp: process_packet_header)
  from process_flow_Return [OF f] new obtain a log st1 where
      c: "choose_action cfg env sip dip (tp_src_port tp) (tp_dest_port tp) (\<not> tp_is_tcp tp) st = Return (a, log, st1)"
      and o: "(out, st') = apply_action env sip dip tp
            (adjust_action (proxy_cfg cfg) dip (tp_dest_port tp) (\<not> tp_is_tcp tp) a) log st1"
    by blast
  note frame = choose_action_frame [OF c]
  show ?thesis
  proof (cases "adjust_action (proxy_cfg cfg) dip (tp_dest_port tp) (\<not> tp_is_tcp tp) a")
    case Proxy
    then have a: "a = Proxy" by (simp add: adjust_action_cases split: if_splits)
    obtain name where "a = match_rule (engine st) name dip (tp_dest_port tp) (\<not> tp_is_tcp tp)"
      using choose_action_not_direct [OF c] a by (metis rule_action.distinct(1))
    then have "flow_proxied cfg (engine st) name (\<not> tp_is_tcp tp) dip (tp_dest_port tp)"
      using Proxy a choose_action_dns [OF c] by (intro flow_proxiedI) simp_all
    then show ?thesis
      using h new o Proxy frame by (auto simp: apply_action_def)
  qed (use o frame in \<open>simp_all add: apply_action_def\<close>)
qed

section \<open>What the packet thread knows at each stage\<close>

definition verdict_ok :: "nfq_config \<Rightarrow> rule_engine \<Rightarrow> bytes \<Rightarrow> packet_out \<Rightarrow> bool" where
  "verdict_ok cfg e payload out =
     (case out_mark out of
        None \<Rightarrow> out_verdict out = Drop \<longrightarrow>
          (\<exists>sip dip tp name. header_of payload = Some (sip, dip, tp)
             \<and> (tp_dest_port tp = 53 \<longrightarrow> dns_via_proxy cfg)
             \<and> match_rule e name dip (tp_dest_port tp) (\<not> tp_is_tcp tp) = Block)
      | Some m \<Rightarrow> out_verdict out = Accept \<and>
          (\<exists>sip dip tp name. header_of payload = Some (sip, dip, tp)
             \<and> flow_proxied cfg e name (\<not> tp_is_tcp tp) dip (tp_dest_port tp)
             \<and> m = (if tp_is_tcp tp then TCP_MARK else UDP_MARK)))"

definition stage_ok :: "nfq_config \<Rightarrow> rule_engine \<Rightarrow> bytes \<Rightarrow> stage \<Rightarrow> bool" where
  "stage_ok cfg e payload g =
     (let looking = (\<lambda>sip dip tp. header_of payload = Some (sip, dip, tp)
            \<and> (tp_dest_port tp = 53 \<longrightarrow> dns_via_proxy cfg)) in
      case g of
        At_header \<Rightarrow> True
      | At_tracked sip dip tp \<Rightarrow> header_of payload = Some (sip, dip, tp)
      | At_cache sip dip tp \<Rightarrow> looking sip dip tp
      | At_lookup sip dip tp \<Rightarrow> looking sip dip tp
      | At_put sip dip tp p \<Rightarrow> looking sip dip tp
      | At_name sip dip tp p \<Rightarrow> looking sip dip tp
      | At_add sip dip tp log \<Rightarrow> header_of payload = Some (sip, dip, tp)
          \<and> (\<exists>name. flow_proxied cfg e name (\<not> tp_is_tcp tp) dip (tp_dest_port tp))
      | At_verdict out \<Rightarrow> verdict_ok cfg e payload out)"

lemma verdict_ok_accept [simp]: "verdict_ok cfg e payload accept_out"
  by (simp add: verdict_ok_def accept_out_def)

lemma after_direct_ok: "stage_ok cfg e payload (after_action (proxy_cfg cfg) sip dip tp Direct log)"
  by (simp add: stage_ok_def after_action_def adjust_action_cases verdict_ok_def)

lemma after_match_ok:
  assumes "header_of payload = Some (sip, dip, tp)" and "tp_dest_port tp = 53 \<longrightarrow> dns_via_proxy cfg"
  shows "stage_ok cfg e payload
    (after_action (proxy_cfg cfg) sip dip tp (match_rule e name dip (tp_dest_port tp) (\<not> tp_is_tcp tp)) log)"
proof (cases "adjust_action (proxy_cfg cfg) dip (tp_dest_port tp) (\<not> tp_is_tcp tp)
    (match_rule e name dip (tp_dest_port tp) (\<not> tp_is_tcp tp))")
  case Proxy
  with assms flow_proxiedI [OF Proxy] show ?thesis by (auto simp: stage_ok_def after_action_def)
next
  case Block
  then have "match_rule e name dip (tp_dest_port tp) (\<not> tp_is_tcp tp) = Block"
    by (simp add: adjust_action_cases split: if_splits)
  with Block assms show ?thesis by (auto simp: stage_ok_def after_action_def verdict_ok_def)
qed (simp add: stage_ok_def after_action_def verdict_ok_def)

lemma packet_step_ok:
  assumes "packet_step cfg w t payload g st = Return (g', st')" and "stage_ok cfg (engine st) payload g"
  shows "stage_ok cfg (engine st) payload g'"
proof (cases g)
  case At_header
  then show ?thesis
    using assms by (auto simp: read_header_of stage_ok_def split: option.splits if_splits)
next
  case (At_tracked sip dip tp)
  then show ?thesis
    using assms by (auto simp: after_direct_ok) (auto simp: stage_ok_def)
next
  case (At_name sip dip tp p)
  then show ?thesis
    using assms after_match_ok [of payload sip dip tp cfg "engine st"]
    by (auto simp: after_direct_ok Let_def stage_ok_def [of _ _ _ "At_name sip dip tp p"] split: option.splits if_splits)
qed (use assms in \<open>auto simp: stage_ok_def verdict_ok_def obind_eq_Return split: option.splits if_splits\<close>)

lemma packet_step_stores:
  assumes "packet_step cfg w t payload g st = Return (g', st')"
  shows "engine st' = engine st \<and> (tracker st' = tracker st
    \<or> (\<exists>sip dip tp log. g = At_add sip dip tp log
        \<and> tracker st' = tracker_add t (tp_src_port tp) sip dip (tp_dest_port tp) (tracker st)))"
  using assms by (cases g) (auto simp: obind_eq_Return)

text \<open>
  From the tracker's answer on, a packet that goes on has a source port without an entry: only
  the packet thread adds entries, and it does so at the end of this packet.
\<close>

fun stage_port :: "stage \<Rightarrow> u16 option" where
  "stage_port At_header = None"
| "stage_port (At_tracked sip dip tp) = None"
| "stage_port (At_cache sip dip tp) = Some (tp_src_port tp)"
| "stage_port (At_lookup sip dip tp) = Some (tp_src_port tp)"
| "stage_port (At_put sip dip tp p) = Some (tp_src_port tp)"
| "stage_port (At_name sip dip tp p) = Some (tp_src_port tp)"
| "stage_port (At_add sip dip tp log) = Some (tp_src_port tp)"
| "stage_port (At_verdict out) = None"

definition port_free :: "stage \<Rightarrow> connection_tracker \<Rightarrow> bool" where
  "port_free g tr = (\<forall>q. stage_port g = Some q \<longrightarrow> connections tr q = None)"

lemma stage_port_after: "stage_port (after_action c sip dip tp a log) \<in> {None, Some (tp_src_port tp)}"
  by (simp add: after_action_def split: rule_action.split)

lemma packet_step_port:
  assumes "packet_step cfg w t payload g st = Return (g', st')" and "port_free g (tracker st)"
  shows "port_free g' (tracker st')"
proof (cases g)
  case At_header
  then show ?thesis
    using assms by (auto simp: read_header_of port_free_def split: option.splits if_splits)
next
  case (At_tracked sip dip tp)
  then show ?thesis
    using assms(1) stage_port_after [of "proxy_cfg cfg" sip dip tp Direct "[]"]
    by (auto simp: port_free_def accept_out_def is_tracked_def dom_def split: if_splits)
next
  case (At_name sip dip tp p)
  obtain a log where "pid_decision cfg w dip tp p st = (a, log)" by (cases rule: prod.exhaust)
  with At_name assms stage_port_after [of "proxy_cfg cfg" sip dip tp a log] show ?thesis
    by (auto simp: step_name port_free_def simp del: packet_step.simps)
qed (use assms in \<open>auto simp: port_free_def obind_eq_Return split: option.splits if_splits\<close>)

section \<open>Invariants of the reachable states\<close>

definition system_ok :: "nfq_config \<Rightarrow> rule_engine \<Rightarrow> system \<Rightarrow> bool" where
  "system_ok cfg e s =
     (engine (nfq s) = e \<and> wf_tracker (tracker (nfq s)) \<and> wf_udp_relay (udp s)
      \<and> (\<forall>payload g. handling s = Some (payload, g) \<longrightarrow>
           stage_ok cfg e payload g \<and> port_free g (tracker (nfq s)))
      \<and> (\<forall>q info. connections (tracker (nfq s)) q = Some info \<longrightarrow>
           proxied_flow cfg e (orig_dest_ip info) (orig_dest_port info) \<and> last_activity info \<le> clock s))"

lemma system_ok_initial: "system_ok cfg e (initial_system e)"
  by (simp add: system_ok_def initial_system_def initial_state_def tracker_new_def)
    (simp add: wf_tracker_def)

lemma system_ok_access:
  assumes ok: "system_ok cfg e s" and h: "handling s = Some (payload, g)" and t: "clock s \<le> t"
    and p: "packet_step cfg w t payload g (nfq s) = Return (g', st)"
  shows "system_ok cfg e (s\<lparr>nfq := st, handling := Some (payload, g'), clock := t\<rparr>)"
proof -
  have e: "engine (nfq s) = e" and g: "stage_ok cfg e payload g"
    using ok h by (auto simp: system_ok_def)
  have g': "stage_ok cfg e payload g'" using packet_step_ok [OF p] g by (simp add: e)
  have free: "port_free g' (tracker st)" using packet_step_port [OF p] ok h by (simp add: system_ok_def)
  from packet_step_stores [OF p] show ?thesis
  proof (elim conjE disjE exE)
    assume "engine st = engine (nfq s)" "tracker st = tracker (nfq s)"
    with ok t g' free show ?thesis by (auto simp: system_ok_def) (meson order_trans)
  next
    fix sip dip tp log
    assume "engine st = engine (nfq s)" and "g = At_add sip dip tp log"
      "tracker st = tracker_add t (tp_src_port tp) sip dip (tp_dest_port tp) (tracker (nfq s))"
    moreover from this g have "proxied_flow cfg e dip (tp_dest_port tp)"
      by (auto simp: stage_ok_def intro: proxied_flowI)
    ultimately show ?thesis
      using ok t g' free by (auto simp: system_ok_def tracker_add_def wf_tracker_def) (meson order_trans)+
  qed
qed

lemma system_ok_step: "step cfg s ev s' \<Longrightarrow> system_ok cfg e s \<Longrightarrow> system_ok cfg e s'"
proof (induction rule: step.induct)
  case (receive s payload)
  then show ?case by (auto simp: system_ok_def) (simp_all add: stage_ok_def port_free_def)
next
  case (access s payload g t w g' st)
  then show ?case by (blast intro: system_ok_access)
next
  case (packet s payload out t)
  then show ?case by (auto simp: system_ok_def) (meson order_trans)
next
  case (clean_tracker s t)
  have "port_free g (cleanup_stale t (tracker (nfq s)))" if "port_free g (tracker (nfq s))" for g
    using that by (auto simp: port_free_def cleanup_stale_def map_retain_None)
  with clean_tracker show ?case
    by (auto simp: system_ok_def cleanup_stale_def map_retain_Some wf_tracker_def) (meson order_trans)+
next
  case (clean_pids s t)
  then show ?case by (auto simp: system_ok_def) (meson order_trans)
next
  case (assoc s connect udp_bind ctrl u addr)
  then show ?case by (simp add: system_ok_def wf_udp_relay_def)
next
  case (from_client s sent_ok ev out u)
  then show ?case
    using wf_relay_from_client [of "udp s" "tracker (nfq s)" sent_ok ev] by (simp add: system_ok_def)
qed simp_all

lemma reachable_ok: "reachable cfg e s \<Longrightarrow> system_ok cfg e s"
  by (induction rule: reachable.induct) (auto intro: system_ok_initial system_ok_step)

lemma tracked_proxied:
  "system_ok cfg e s \<Longrightarrow> tracker_get (tracker (nfq s)) q = Some (dip, dport) \<Longrightarrow> proxied_flow cfg e dip dport"
  by (auto simp: system_ok_def tracker_get_def)

section \<open>What the steps of reachable states do\<close>

lemma tunnel_proxied:
  assumes "reachable cfg e s" and "step cfg s (Ev_tunnel q dip dport) s'"
  shows "proxied_flow cfg e dip dport"
proof -
  from assms(2) obtain task client where
      "accept_turn (Accepted q client (tracker (nfq s))) = Some task"
      and d: "dip = task_dest_ip task" "dport = task_dest_port task"
    unfolding step_tunnel_iff by auto
  then have "tracker_get (tracker (nfq s)) q = Some (dip, dport)"
    by (auto split: option.splits)
  with reachable_ok [OF assms(1)] show ?thesis by (rule tracked_proxied)
qed

lemma datagram_proxied:
  assumes "reachable cfg e s" and "step cfg s (Ev_udp inp out) s'" and "To_proxy u addr packet \<in> set out"
  shows "\<exists>dip dport. parse_socks5_udp_packet packet = Some (dip, dport, 10) \<and> proxied_flow cfg e dip dport"
  using assms(2)
proof (cases rule: step_udp)
  case (client sent_ok ev u')
  obtain dgram q dip dport where t: "tracker_get (tracker (nfq s)) q = Some (dip, dport)"
      and p: "packet = build_socks5_udp_packet dip dport (take UDP_BUF_LEN dgram)"
    by (rule relay_from_client_out [OF client(2) assms(3)]) auto
  have "proxied_flow cfg e dip dport"
    by (rule tracked_proxied [OF reachable_ok [OF assms(1)] t])
  then show ?thesis unfolding p parse_build_udp by blast
next
  case (proxy iter remote)
  show ?thesis by (rule relay_from_proxy_out [OF proxy(3) assms(3)]) simp
qed

lemma verdict_obeys:
  assumes "reachable cfg e s" and "step cfg s (Ev_packet payload out) s'"
  shows "verdict_ok cfg e payload out"
  using reachable_ok [OF assms(1)] assms(2)
  by (auto simp: system_ok_def stage_ok_def elim!: step_packetE)

section \<open>A recorded flow keeps its destination\<close>

inductive runs :: "nfq_config \<Rightarrow> system \<Rightarrow> system \<Rightarrow> bool" for cfg where
  stop: "runs cfg s s"
| go: "runs cfg s s' \<Longrightarrow> step cfg s' ev s'' \<Longrightarrow> runs cfg s s''"

lemma runs_reachable: "runs cfg s s' \<Longrightarrow> reachable cfg e s \<Longrightarrow> reachable cfg e s'"
  by (induction rule: runs.induct) (auto intro: reachable.more)

lemma step_clock: "step cfg s ev s' \<Longrightarrow> clock s \<le> clock s'"
  by (induction rule: step.induct) simp_all

lemma entry_kept:
  assumes "step cfg s ev s'" and "system_ok cfg e s"
    and "connections (tracker (nfq s)) q = Some info" and "clock s' < last_activity info + 60000 * 1000000"
  shows "connections (tracker (nfq s')) q = Some info"
  using assms
proof (induction rule: step.induct)
  case (access s payload g t w g' st)
  from packet_step_stores [OF access(3)] show ?case
  proof (elim conjE disjE exE)
    fix sip dip tp log
    assume g: "g = At_add sip dip tp log"
      and st: "tracker st = tracker_add t (tp_src_port tp) sip dip (tp_dest_port tp) (tracker (nfq s))"
    have "port_free g (tracker (nfq s))" using access(1,4) by (auto simp: system_ok_def)
    then have "connections (tracker (nfq s)) (tp_src_port tp) = None" by (simp add: g port_free_def)
    then have "q \<noteq> tp_src_port tp" using access(5) by auto
    then show ?thesis using access(5) by (simp add: st tracker_add_def)
  qed (use access(5) in simp)
next
  case (clean_tracker s t)
  then have "t < last_activity info + 60000 * 1000000" by simp
  then have "elapsed_ms t (last_activity info) < CONNECTION_TIMEOUT_MS"
    using elapsed_ms_less_iff [of 60000 t "last_activity info"] by (simp add: CONNECTION_TIMEOUT_MS_def)
  with clean_tracker show ?case by (simp add: cleanup_stale_def map_retain_Some)
qed simp_all

lemma entry_kept_runs:
  assumes "runs cfg s s'" and "reachable cfg e s"
    and "connections (tracker (nfq s)) q = Some info" and "clock s' < last_activity info + 60000 * 1000000"
  shows "connections (tracker (nfq s')) q = Some info"
  using assms
proof (induction rule: runs.induct)
  case (go s s' ev s'')
  have "clock s' < last_activity info + 60000 * 1000000"
    using go.prems(3) step_clock [OF go.hyps(2)] by linarith
  with go have "connections (tracker (nfq s')) q = Some info" by blast
  moreover have "system_ok cfg e s'" using runs_reachable [OF go.hyps(1) go.prems(1)] by (rule reachable_ok)
  ultimately show ?case using entry_kept [OF go.hyps(2)] go.prems(3) by blast
qed

section \<open>A packet gets its verdict\<close>

inductive trace :: "nfq_config \<Rightarrow> system \<Rightarrow> event list \<Rightarrow> system \<Rightarrow> bool" for cfg where
  none: "trace cfg s [] s"
| event: "step cfg s ev s' \<Longrightarrow> trace cfg s' evs s'' \<Longrightarrow> trace cfg s (ev # evs) s''"

text \<open>How many accesses a packet may still be away from its verdict.\<close>

fun stage_rank :: "stage \<Rightarrow> nat" where
  "stage_rank At_header = 7"
| "stage_rank (At_tracked sip dip tp) = 6"
| "stage_rank (At_cache sip dip tp) = 5"
| "stage_rank (At_lookup sip dip tp) = 4"
| "stage_rank (At_put sip dip tp p) = 3"
| "stage_rank (At_name sip dip tp p) = 2"
| "stage_rank (At_add sip dip tp log) = 1"
| "stage_rank (At_verdict out) = 0"

lemma rank_after_action: "stage_rank (after_action c sip dip tp a log) \<le> 1"
  by (simp add: after_action_def split: rule_action.split)

lemma packet_step_rank:
  assumes "packet_step cfg w t payload g st = Return (g', st')"
  shows "stage_rank g' \<le> stage_rank g - 1"
proof (cases g)
  case At_header
  then show ?thesis using assms by (auto simp: read_header_of split: option.splits if_splits)
next
  case (At_tracked sip dip tp)
  then show ?thesis
    using assms rank_after_action [of "proxy_cfg cfg" sip dip tp Direct "[]"] by (auto split: if_splits)
next
  case (At_name sip dip tp p)
  obtain a log where "pid_decision cfg w dip tp p st = (a, log)" by (cases rule: prod.exhaust)
  with At_name assms rank_after_action [of "proxy_cfg cfg" sip dip tp a log] show ?thesis
    by (auto simp: step_name simp del: packet_step.simps)
qed (use assms in \<open>auto simp: obind_eq_Return split: option.splits if_splits\<close>)

lemma packet_step_returns:
  assumes "\<And>sip sport u. \<exists>r. get_pid_via_netlink w sip sport u = Return r"
  shows "\<exists>g' st'. packet_step cfg w t payload g st = Return (g', st')"
proof (cases g)
  case (At_lookup sip dip tp)
  obtain r where "get_pid_via_netlink w sip (tp_src_port tp) (\<not> tp_is_tcp tp) = Return r" using assms by blast
  with At_lookup show ?thesis by (simp add: lookup_pid_def)
qed (simp_all add: read_header_of)

lemma step_handling:
  assumes "step cfg s ev s'" and "handling s = Some (payload, g)" and "\<And>out. ev \<noteq> Ev_packet payload out"
  shows "\<exists>g'. handling s' = Some (payload, g')
    \<and> stage_rank g' \<le> stage_rank g - (if ev = Ev_access then 1 else 0)"
  using assms by (induction rule: step.induct) (auto dest: packet_step_rank)

lemma trace_handling:
  assumes "trace cfg s evs s'" and "handling s = Some (payload, g)" and "\<forall>out. Ev_packet payload out \<notin> set evs"
  shows "\<exists>g'. handling s' = Some (payload, g') \<and> stage_rank g' \<le> stage_rank g - count_list evs Ev_access"
  using assms
proof (induction arbitrary: g rule: trace.induct)
  case (event s ev s' evs s'')
  from event.prems(2) have "\<And>out. ev \<noteq> Ev_packet payload out" by auto
  from step_handling [OF event.hyps(1) event.prems(1) this] obtain g1
    where g1: "handling s' = Some (payload, g1)" "stage_rank g1 \<le> stage_rank g - (if ev = Ev_access then 1 else 0)"
    by blast
  from event.IH [OF g1(1)] event.prems(2) obtain g' where
      "handling s'' = Some (payload, g')" "stage_rank g' \<le> stage_rank g1 - count_list evs Ev_access" by auto
  with g1(2) show ?case by (intro exI [of _ g']) (auto split: if_splits)
qed simp

lemma rank_0: "stage_rank g = 0 \<Longrightarrow> \<exists>out. g = At_verdict out"
  by (cases g) simp_all

section \<open>A packet without interruption\<close>

text \<open>Whatever one call of \<open>process_packet\<close> does, the program can do.\<close>

lemma run_reachable:
  assumes "packet_run cfg env payload n g (nfq s) = Return (At_verdict out, st)" and "env_ordered env"
    and "reachable cfg e s" and "handling s = Some (payload, g)" and "clock s \<le> time_of env g"
  shows "\<exists>t' \<le> t_add env. reachable cfg e (s\<lparr>nfq := st, handling := Some (payload, At_verdict out), clock := t'\<rparr>)"
  using assms
proof (induction n arbitrary: g s)
  case 0
  then have "s\<lparr>nfq := st, handling := Some (payload, At_verdict out), clock := clock s\<rparr> = s"
    and "clock s \<le> t_add env" by (auto simp: time_of_def intro!: system.equality)
  with 0 show ?case by metis
next
  case (Suc n)
  then obtain g' st' where p: "packet_step cfg (world env) (time_of env g) payload g (nfq s) = Return (g', st')"
      and r: "packet_run cfg env payload n g' st' = Return (At_verdict out, st)"
    by (auto simp: obind_eq_Return)
  let ?s = "s\<lparr>nfq := st', handling := Some (payload, g'), clock := time_of env g\<rparr>"
  have "reachable cfg e ?s"
    using Suc.prems(3) step.access [OF Suc.prems(4,5) p] by (rule reachable.more)
  moreover have "clock ?s \<le> time_of env g'" using time_of_mono [OF Suc.prems(2) p] by simp
  ultimately show ?case using Suc.IH [of g' ?s] r Suc.prems(2) by simp
qed

lemma verdict_reachable:
  assumes "process_packet cfg env payload (nfq s) = Return (out, st)" and "env_ordered env"
    and "reachable cfg e s" and "handling s = None" and "clock s \<le> t_get env"
  shows "\<exists>t' \<le> t_add env. reachable cfg e (s\<lparr>nfq := st, handling := Some (payload, At_verdict out), clock := t'\<rparr>)"
proof -
  let ?s0 = "s\<lparr>handling := Some (payload, At_header)\<rparr>"
  have "reachable cfg e ?s0" using assms(3) step.receive [OF assms(4)] by (rule reachable.more)
  moreover have "packet_run cfg env payload 7 At_header (nfq ?s0) = Return (At_verdict out, st)"
    by (simp add: run_to_verdict assms(1))
  ultimately show ?thesis
    using run_reachable [of cfg env payload 7 At_header ?s0 out st e] assms(2,5) by (auto simp: time_of_def)
qed

lemma packet_reachable:
  assumes "process_packet cfg env payload (nfq s) = Return (out, st)" and "env_ordered env"
    and "reachable cfg e s" and "handling s = None" and "clock s \<le> t_get env" and "t_add env \<le> t"
  shows "reachable cfg e (s\<lparr>nfq := st, clock := t\<rparr>)"
proof -
  obtain t' where t': "t' \<le> t_add env"
      and r: "reachable cfg e (s\<lparr>nfq := st, handling := Some (payload, At_verdict out), clock := t'\<rparr>)"
    using verdict_reachable [OF assms(1-5)] by blast
  have "step cfg (s\<lparr>nfq := st, handling := Some (payload, At_verdict out), clock := t'\<rparr>) (Ev_packet payload out)
      (s\<lparr>nfq := st, handling := Some (payload, At_verdict out), clock := t'\<rparr>\<lparr>handling := None, clock := t\<rparr>)"
    using t' assms(6) by (intro step.packet) simp_all
  moreover have "s\<lparr>nfq := st, handling := None, clock := t\<rparr> = s\<lparr>nfq := st, clock := t\<rparr>"
    using assms(4) by (intro system.equality) simp_all
  ultimately show ?thesis using reachable.more [OF r] by simp
qed

end
