(* ===== verification/Nft_Semantics.thy ===== *)
theory Nft_Semantics
  imports Netfilter
begin

text \<open>
  What the installed rules mean. An expression of a rule loads the register, compares it or
  ends the rule; a rule is typed when every comparison and redirect finds in the register a
  value of its width and every terminal expression is the last. A typed rule is never stuck,
  and the verdict of a chain is that of its first rule that ends a packet's way.

  The kernel that evaluates the rules is not code of the repository. This is a reading of the
  documented meaning of the expressions that the batch uses, inside one chain and for a given
  protocol and mark; hook, priority and family of a chain say when it is asked, not what it
  answers, and are not part of it.
\<close>

section \<open>Evaluation\<close>

text \<open>
  \<open>Stuck\<close>: a comparison with a value of another width, or a redirect to a register that does
  not hold a port. The kernel compares the bytes of the register.
\<close>

datatype rule_result = No_verdict | To_queue u16 | Redirect "u16 option" | Stuck

fun eval_exprs :: "u8 \<Rightarrow> u32 \<Rightarrow> bytes option \<Rightarrow> nft_expr list \<Rightarrow> rule_result" where
  "eval_exprs proto mark r [] = No_verdict"
| "eval_exprs proto mark r (Meta_L4Proto # es) = eval_exprs proto mark (Some [proto]) es"
| "eval_exprs proto mark r (Meta_Mark False # es) = eval_exprs proto mark (Some (u32_to_ne_bytes mark)) es"
| "eval_exprs proto mark r (Meta_Mark True # es) =
     (case map_option u32_from_ne_bytes r of
        Some (Some m) \<Rightarrow> eval_exprs proto m r es
      | _ \<Rightarrow> Stuck)"
| "eval_exprs proto mark r (Cmp_Eq_u8 c # es) =
     (if map_option length r \<noteq> Some 1 then Stuck
      else if r = Some [c] then eval_exprs proto mark r es else No_verdict)"
| "eval_exprs proto mark r (Cmp_Eq_u32 c # es) =
     (if map_option length r \<noteq> Some 4 then Stuck
      else if r = Some (u32_to_ne_bytes c) then eval_exprs proto mark r es else No_verdict)"
| "eval_exprs proto mark r (Immediate_u16 p Reg1 # es) = eval_exprs proto mark (Some (u16_to_ne_bytes p)) es"
| "eval_exprs proto mark r (Queue n # es) = To_queue n"
| "eval_exprs proto mark r (Redir None # es) = Redirect None"
| "eval_exprs proto mark r (Redir (Some Reg1) # es) =
     (case map_option u16_from_be_bytes r of
        Some (Some p) \<Rightarrow> Redirect (Some p)
      | _ \<Rightarrow> Stuck)"

text \<open>The rules of a chain are tried in the order of the batch; the policy is to accept.\<close>

fun chain_verdict :: "nft_msg list \<Rightarrow> nft_chain \<Rightarrow> u8 \<Rightarrow> u32 \<Rightarrow> rule_result" where
  "chain_verdict [] ch proto mark = No_verdict"
| "chain_verdict (Add_msg (Rule_obj r) # ms) ch proto mark =
     (if rule_chain r = ch then
        (case eval_exprs proto mark None (exprs r) of
           No_verdict \<Rightarrow> chain_verdict ms ch proto mark
         | v \<Rightarrow> v)
      else chain_verdict ms ch proto mark)"
| "chain_verdict (_ # ms) ch proto mark = chain_verdict ms ch proto mark"

section \<open>Types\<close>

text \<open>The type of the register is the width of its value in bytes, \<open>None\<close> before it is loaded.\<close>

fun typed :: "nat option \<Rightarrow> nft_expr list \<Rightarrow> bool" where
  "typed t [] = True"
| "typed t (Meta_L4Proto # es) = typed (Some 1) es"
| "typed t (Meta_Mark False # es) = typed (Some 4) es"
| "typed t (Meta_Mark True # es) = (t = Some 4 \<and> typed t es)"
| "typed t (Cmp_Eq_u8 c # es) = (t = Some 1 \<and> typed t es)"
| "typed t (Cmp_Eq_u32 c # es) = (t = Some 4 \<and> typed t es)"
| "typed t (Immediate_u16 p Reg1 # es) = typed (Some 2) es"
| "typed t (Queue n # es) = (es = [])"
| "typed t (Redir None # es) = (es = [])"
| "typed t (Redir (Some Reg1) # es) = (t = Some 2 \<and> es = [])"

fun is_redir :: "nft_expr \<Rightarrow> bool" where
  "is_redir (Redir r) = True"
| "is_redir _ = False"

text \<open>A redirect belongs into a chain of type nat.\<close>

definition rule_typed :: "nft_rule \<Rightarrow> bool" where
  "rule_typed r = (typed None (exprs r)
     \<and> (list_ex is_redir (exprs r) \<longrightarrow> chain_kind (rule_chain r) = Nat_chain))"

fun msg_typed :: "nft_msg \<Rightarrow> bool" where
  "msg_typed (Add_msg (Rule_obj r)) = rule_typed r"
| "msg_typed _ = True"

lemma length_u32_to_ne [simp]: "length (u32_to_ne_bytes w) = 4"
  by (simp add: u32_to_ne_bytes_def)

lemma length_u16_to_ne [simp]: "length (u16_to_ne_bytes w) = 2"
  by (simp add: u16_to_ne_bytes_def)

text \<open>Typed expressions keep the register at the type they say and are never stuck.\<close>

lemma typed_not_stuck:
  "typed t es \<Longrightarrow> map_option length r = t \<Longrightarrow> eval_exprs proto mark r es \<noteq> Stuck"
proof (induction proto mark r es arbitrary: t rule: eval_exprs.induct)
  case (4 proto mark r es)
  then obtain bs where r: "r = Some bs" "length bs = 4" by auto
  then obtain m where "u32_from_ne_bytes bs = Some m" using u32_from_ne_bytes_Some_iff [of bs] by auto
  with 4 r show ?case by auto
next
  case (10 proto mark r es)
  then obtain bs where r: "r = Some bs" "length bs = 2" by auto
  then obtain p where "u16_from_be_bytes bs = Some p" using u16_from_be_bytes_Some_iff [of bs] by auto
  with r show ?case by simp
qed auto

lemma typed_rules_not_stuck:
  "list_all msg_typed batch \<Longrightarrow> chain_verdict batch ch proto mark \<noteq> Stuck"
proof (induction batch ch proto mark rule: chain_verdict.induct)
  case (2 r ms ch proto mark)
  then have "eval_exprs proto mark None (exprs r) \<noteq> Stuck"
    by (intro typed_not_stuck [of None]) (simp_all add: rule_typed_def)
  with 2 show ?case by (auto split: rule_result.split)
qed simp_all

section \<open>The installed table\<close>

lemma port_of_to_be16: "u16_from_be_bytes (u16_to_ne_bytes (to_be16 p)) = Some p"
  by (simp add: to_be16_bytes)

lemma u32_to_ne_inj: "u32_to_ne_bytes a = u32_to_ne_bytes b \<longleftrightarrow> a = b"
  by (metis option.inject u32_ne_roundtrip)

lemma mangle_verdict:
  "chain_verdict (setup_batch tp up q) mangle_chain proto mark
     = (if proto = 6 \<or> proto = 17 then To_queue q else No_verdict)"
  by (simp add: setup_batch_def queue_rule_def redir_rule_def mangle_chain_def nat_chain_def)

lemma nat_verdict:
  "chain_verdict (setup_batch tp up q) nat_chain proto mark
     = (if proto = 6 \<and> mark = 1 then Redirect (Some tp)
        else if proto = 17 \<and> mark = 2 then Redirect (Some up) else No_verdict)"
  by (simp add: setup_batch_def queue_rule_def redir_rule_def mangle_chain_def nat_chain_def
      u32_to_ne_inj port_of_to_be16)

text \<open>C12: the batch that the setup sends is well ordered and well typed: a chain or rule comes after
  what it refers to, every comparison and redirect finds a value of its width in the register and
  redirects stand in a chain of type nat, so no packet gets stuck in a rule. Its chains queue exactly
  the TCP and UDP packets, and redirect exactly TCP with mark 1 and UDP with mark 2, each to its
  relay's port.\<close>

theorem installed_table_typed:
  "well_ordered [] (setup_batch tp up q) \<and> list_all msg_typed (setup_batch tp up q)
   \<and> chain_verdict (setup_batch tp up q) ch proto mark \<noteq> Stuck
   \<and> chain_verdict (setup_batch tp up q) mangle_chain proto mark
       = (if proto = 6 \<or> proto = 17 then To_queue q else No_verdict)
   \<and> chain_verdict (setup_batch tp up q) nat_chain proto mark
       = (if proto = 6 \<and> mark = 1 then Redirect (Some tp)
          else if proto = 17 \<and> mark = 2 then Redirect (Some up) else No_verdict)"
proof -
  have "list_all msg_typed (setup_batch tp up q)"
    by (simp add: setup_batch_def queue_rule_def redir_rule_def rule_typed_def nat_chain_def)
  with typed_rules_not_stuck show ?thesis
    by (simp add: setup_batch_well_ordered mangle_verdict nat_verdict)
qed

end
