(* ===== verification/Build_Script.thy ===== *)
theory Build_Script
  imports Rust_Str
begin

text \<open>
  \<open>linux/build.rs\<close>: the build probes three system libraries, hands cargo a flag and the link
  paths of each one found, and is aborted when one is missing. \<open>probe lib\<close> is what pkg-config
  answers: the link paths, or \<open>None\<close>. Non-ASCII characters of the messages are their UTF-8 bytes.
\<close>

definition build_libs :: "(string \<times> string) list" where
  "build_libs =
     [(''libnetfilter_queue'', ''NFQUEUE packet interception''),
      (''libnftnl'', ''nftables Netlink API''),
      (''libmnl'', ''Netlink message helper'')]"

definition cfg_line :: "string \<Rightarrow> string" where
  "cfg_line lib = ''cargo:rustc-cfg=has_'' @ List.map (\<lambda>c. if c = CHR ''-'' then CHR ''_'' else c) lib"

definition link_line :: "string \<Rightarrow> string" where
  "link_line path = ''cargo:rustc-link-search=native='' @ path"

text \<open>What is printed for cargo, and the libraries that are missing, in order.\<close>

fun probe_libs ::
  "(string \<Rightarrow> string list option) \<Rightarrow> (string \<times> string) list \<Rightarrow> string list \<times> (string \<times> string) list"
where
  "probe_libs probe [] = ([], [])"
| "probe_libs probe ((lib, desc) # libs) =
     (case probe_libs probe libs of
        (out, missing) \<Rightarrow>
          (case probe lib of
             Some link_paths \<Rightarrow> (cfg_line lib # map link_line link_paths @ out, missing)
           | None \<Rightarrow> (out, (lib, desc) # missing)))"

definition missing_line :: "string \<times> string \<Rightarrow> string" where
  "missing_line m = (case m of (lib, desc) \<Rightarrow>
     ''  '' @ [CHR 0xE2, CHR 0x9C, CHR 0x97] @ '' '' @ lib @ '' '' @ [CHR 0xE2, CHR 0x80, CHR 0x94] @ '' '' @ desc)"

definition missing_report :: "(string \<times> string) list \<Rightarrow> string list" where
  "missing_report missing =
     [[CHR 0x0A] @ ''=== Missing system libraries ===''] @ map missing_line missing
     @ [[CHR 0x0A] @ ''Install with:'',
        ''  Debian/Ubuntu:  sudo apt install libnetfilter-queue-dev libnftnl-dev libmnl-dev'',
        ''  Fedora/RHEL:    sudo dnf install libnetfilter_queue-devel libnftnl-devel libmnl-devel'',
        ''  Arch:           sudo pacman -S libnetfilter_queue libnftnl libmnl'' @ [CHR 0x0A]]"

definition build_main :: "(string \<Rightarrow> string list option) \<Rightarrow> unit outcome \<times> string list \<times> string list" where
  "build_main probe =
     (case probe_libs probe build_libs of
        (out, missing) \<Rightarrow>
          if missing \<noteq> [] then (Panic, out, missing_report missing) else (Return (), out, []))"

lemma probe_libs_missing: "snd (probe_libs probe libs) = filter (\<lambda>m. probe (fst m) = None) libs"
  by (induction probe libs rule: probe_libs.induct) (auto split: prod.splits option.splits)

lemma probe_libs_flags:
  "filter (\<lambda>l. \<exists>lib. l = cfg_line lib) (fst (probe_libs probe libs))
     = map (cfg_line \<circ> fst) (filter (\<lambda>m. probe (fst m) \<noteq> None) libs)"
proof -
  have "link_line p \<noteq> cfg_line lib" for p lib by (simp add: link_line_def cfg_line_def)
  then show ?thesis
    by (induction probe libs rule: probe_libs.induct) (auto simp: filter_empty_conv split: prod.splits option.splits)
qed

text \<open>The build is aborted exactly when one of the libraries is not found, and then each of them is named.\<close>

lemma build_main_missing:
  "\<exists>out. build_main probe =
    (let missing = filter (\<lambda>m. probe (fst m) = None) build_libs
     in if missing \<noteq> [] then (Panic, out, missing_report missing) else (Return (), out, []))"
proof -
  obtain out missing where "probe_libs probe build_libs = (out, missing)" by (cases rule: prod.exhaust)
  with probe_libs_missing [of probe build_libs] show ?thesis
    by (intro exI [of _ out]) (auto simp: build_main_def Let_def)
qed

lemma build_aborted_iff: "fst (build_main probe) = Panic \<longleftrightarrow> (\<exists>m \<in> set build_libs. probe (fst m) = None)"
  using build_main_missing [of probe] by (auto simp: Let_def filter_empty_conv split: if_splits)

lemma build_missing_named:
  "m \<in> set build_libs \<Longrightarrow> probe (fst m) = None \<Longrightarrow> missing_line m \<in> set (snd (snd (build_main probe)))"
  using build_main_missing [of probe] by (auto simp: Let_def missing_report_def filter_empty_conv split: if_splits)

lemma build_flags:
  "filter (\<lambda>l. \<exists>lib. l = cfg_line lib) (fst (snd (build_main probe)))
     = map (cfg_line \<circ> fst) (filter (\<lambda>m. probe (fst m) \<noteq> None) build_libs)"
  using probe_libs_flags [of probe build_libs] by (auto simp: build_main_def split: prod.splits)

end
