(* ===== verification/Unit_Tests.thy ===== *)
theory Unit_Tests
  imports Cli
begin

text \<open>
  The unit tests of \<open>rule.rs\<close> and of the command line crate, as boolean definitions over the
  model: what the code's authors expect of single inputs holds of the definitions here.
\<close>

definition ip_of :: "u32 \<Rightarrow> u32 \<Rightarrow> u32 \<Rightarrow> u32 \<Rightarrow> u32" where
  "ip_of a b c d = a OR push_bit 8 b OR push_bit 16 c OR push_bit 24 d"

definition test_match_process_pattern :: bool where
  "test_match_process_pattern =
     (match_process_pattern ''*'' ''/usr/bin/curl''
      \<and> match_process_pattern ''curl'' ''/usr/bin/curl''
      \<and> match_process_pattern ''curl'' ''curl''
      \<and> match_process_pattern ''cur*'' ''/usr/bin/curl''
      \<and> match_process_pattern ''*rl'' ''/usr/bin/curl''
      \<and> \<not> match_process_pattern ''wget'' ''/usr/bin/curl''
      \<and> match_process_pattern ''fire*'' ''/usr/bin/firefox''
      \<and> match_process_pattern ''*fox'' ''/usr/bin/firefox'')"

definition test_match_process_list :: bool where
  "test_match_process_list =
     (match_process_list ''curl;wget'' ''/usr/bin/curl''
      \<and> match_process_list ''curl;wget'' ''/usr/bin/wget''
      \<and> \<not> match_process_list ''curl;wget'' ''/usr/bin/firefox''
      \<and> match_process_list ''*'' ''/usr/bin/anything'')"

definition test_match_ip_pattern :: bool where
  "test_match_ip_pattern =
     (let ip = ip_of 192 168 1 100 in
      match_ip_pattern ''*'' ip
      \<and> match_ip_pattern ''192.168.1.100'' ip
      \<and> match_ip_pattern ''192.168.*.*'' ip
      \<and> match_ip_pattern ''192.168.1.50-200'' ip
      \<and> \<not> match_ip_pattern ''10.0.0.1'' ip)"

definition test_match_port_pattern :: bool where
  "test_match_port_pattern =
     (match_port_pattern ''*'' 443
      \<and> match_port_pattern ''443'' 443
      \<and> match_port_pattern ''80-8080'' 443
      \<and> \<not> match_port_pattern ''80'' 443
      \<and> \<not> match_port_pattern ''1-80'' 443)"

definition test_match_port_list :: bool where
  "test_match_port_list =
     (match_port_list ''80;443'' 443
      \<and> match_port_list ''80,443'' 443
      \<and> match_port_list ''80-8080'' 443
      \<and> \<not> match_port_list ''80;8080'' 443)"

definition test_parse_rule_str :: bool where
  "test_parse_rule_str = (parse_rule_str ''curl:*:*:TCP:PROXY'' = Inr (''curl'', ''*'', ''*'', Tcp, Proxy))"

definition test_is_broadcast_or_multicast :: bool where
  "test_is_broadcast_or_multicast =
     (let loopback = ip_of 127 0 0 1; multicast = ip_of 224 0 0 1; normal = ip_of 8 8 8 8 in
      is_broadcast_or_multicast loopback \<and> is_broadcast_or_multicast multicast
      \<and> \<not> is_broadcast_or_multicast normal)"

definition test_format_ip :: bool where
  "test_format_ip = (let ip = ip_of 192 168 1 100 in format_ip ip = ''192.168.1.100'')"

definition test_rule_engine :: bool where
  "test_rule_engine =
     (let engine = rule_engine_new in
      case add_rule ''curl'' ''*'' ''*'' Tcp Proxy engine of
        (rid, engine) \<Rightarrow>
          rid > 0 \<and> has_active_rules engine
          \<and> match_rule engine ''/usr/bin/curl'' 0x08080808 443 False = Proxy
          \<and> match_rule engine ''/usr/bin/wget'' 0x08080808 443 False = Direct
          \<and> (case disable_rule rid engine of (_, engine) \<Rightarrow> \<not> has_active_rules engine))"

definition test_parse_proxy_url_socks5 :: bool where
  "test_parse_proxy_url_socks5 =
     (case parse_proxy_url ''socks5://127.0.0.1:1080'' of
        Inl _ \<Rightarrow> False
      | Inr parsed \<Rightarrow> pp_type parsed = Socks5 \<and> pp_host parsed = ''127.0.0.1'' \<and> pp_port parsed = 1080
          \<and> pp_username parsed = None)"

definition test_parse_proxy_url_http_with_auth :: bool where
  "test_parse_proxy_url_http_with_auth =
     (case parse_proxy_url ''http://proxy.com:8080:user:pass'' of
        Inl _ \<Rightarrow> False
      | Inr parsed \<Rightarrow> pp_type parsed = Http \<and> pp_host parsed = ''proxy.com'' \<and> pp_port parsed = 8080
          \<and> pp_username parsed = Some ''user'' \<and> pp_password parsed = Some ''pass'')"

definition test_parse_proxy_url_invalid :: bool where
  "test_parse_proxy_url_invalid =
     ((case parse_proxy_url ''invalid'' of Inl _ \<Rightarrow> True | Inr _ \<Rightarrow> False)
      \<and> (case parse_proxy_url ''ftp://host:80'' of Inl _ \<Rightarrow> True | Inr _ \<Rightarrow> False))"

section \<open>They pass\<close>

lemma rule_tests_process: "test_match_process_pattern"
  by (simp add: test_match_process_pattern_def eval_defs)

lemma rule_tests_process_list: "test_match_process_list"
  by (simp add: test_match_process_list_def match_process_list_def plain_char_def ws_ascii_def)
    (simp add: eval_defs)

lemma rule_tests_ip: "test_match_ip_pattern"
  by (simp add: test_match_ip_pattern_def ip_of_def eval_defs)

lemma rule_tests_port: "test_match_port_pattern"
  by (simp add: test_match_port_pattern_def eval_defs)

lemma rule_tests_port_list: "test_match_port_list"
  by (simp add: test_match_port_list_def match_port_list_def port_sep_def plain_char_def ws_ascii_def)
    (simp add: eval_defs)

lemma rule_tests_parse: "test_parse_rule_str"
  by (simp add: test_parse_rule_str_def eval_defs)

lemma rule_tests_broadcast: "test_is_broadcast_or_multicast"
  by (simp add: test_is_broadcast_or_multicast_def ip_of_def eval_defs)

lemma rule_tests_format: "test_format_ip"
  by (simp add: test_format_ip_def ip_of_def eval_defs)

lemma rule_tests_engine: "test_rule_engine"
proof -
  have trim: "trim ''curl'' = ''curl''" by (simp add: plain_char_def ws_ascii_def)
  have "match_process_list ''curl'' ''/usr/bin/curl''" "\<not> match_process_list ''curl'' ''/usr/bin/wget''"
    by (simp_all add: match_process_list_def trim) (simp_all add: eval_defs)
  moreover have "match_ip_list ''*'' ip" "match_port_list ''*'' q" for ip q
    by (simp_all add: match_ip_list_def match_port_list_def)
  moreover have "\<not> is_wildcard_process \<lparr>rule_id = 1, process_name = ''curl'', target_hosts = ''*'',
      target_ports = ''*'', protocol = Tcp, action = Proxy, enabled = en\<rparr>" for en
    by (simp add: eval_defs)
  ultimately show ?thesis
    by (simp add: test_rule_engine_def rule_engine_new_def add_rule_def disable_rule_def
        has_active_rules_def match_rule_def)
qed

lemma cli_tests_socks5: "test_parse_proxy_url_socks5"
  by (simp add: test_parse_proxy_url_socks5_def eval_defs)

lemma cli_tests_auth: "test_parse_proxy_url_http_with_auth"
  by (simp add: test_parse_proxy_url_http_with_auth_def eval_defs)

lemma cli_tests_invalid: "test_parse_proxy_url_invalid"
  by (simp add: test_parse_proxy_url_invalid_def eval_defs)

end
