(* ===== verification/Lookup_Props.thy ===== *)
theory Lookup_Props
  imports Process
begin

text \<open>
  What the two sources of the process lookup mean. The answer to the netlink dump, a stream of
  datagrams of well-formed messages, is searched for the first socket of the asked address and
  port before an end or error message. The text of \<open>/proc/net/udp\<close> and \<open>/proc/net/udp6\<close>, as the
  kernel prints its table, is searched for the first socket of the asked port, whatever its
  address, that has an inode.
\<close>

section \<open>The process that holds a socket\<close>

text \<open>
  An entry of \<open>/proc\<close> holds a socket when its name begins with a digit, its owner is the
  socket's, as far as both are known, and one of its descriptors is a link to the inode. The
  process is the first such entry, whose name is its number.
\<close>

definition holds_socket :: "u64 \<Rightarrow> u32 \<Rightarrow> proc_entry \<Rightarrow> bool" where
  "holds_socket inode uid e =
     ((case to_string_lossy (entry_name e) of c # _ \<Rightarrow> 48 \<le> code c \<and> code c \<le> 57 | [] \<Rightarrow> False)
      \<and> (uid = 0xFFFFFFFF \<or> entry_uid e \<in> {None, Some uid})
      \<and> (case entry_fds e of
           None \<Rightarrow> False
         | Some links \<Rightarrow>
             Some (''socket:['' @ show_nat (unat inode) @ '']'') \<in> set (map (map_option to_string_lossy) links)))"

definition socket_holder :: "os \<Rightarrow> u64 \<Rightarrow> u32 \<Rightarrow> u32 option" where
  "socket_holder w inode uid =
     Option.bind (proc_dir w) (\<lambda>es. Option.bind (List.find (holds_socket inode uid) es)
       (\<lambda>e. parse_u32 (to_string_lossy (entry_name e))))"

lemma owns_link_mem: "owns_link expected links \<longleftrightarrow> Some expected \<in> set (map (map_option to_string_lossy) links)"
  by (induction links) (auto simp: owns_link_def split: option.splits)

lemma find_pid_in_holder:
  "find_pid_in es (socket_link inode) uid =
     Option.bind (List.find (holds_socket inode uid) es) (\<lambda>e. parse_u32 (to_string_lossy (entry_name e)))"
proof (induction es)
  case (Cons e es)
  have "holds_socket inode uid e \<longleftrightarrow>
      to_string_lossy (entry_name e) \<noteq> [] \<and> is_ascii_digit (hd (to_string_lossy (entry_name e)))
      \<and> \<not> (uid \<noteq> U32_MAX \<and> (case entry_uid e of Some u \<Rightarrow> u \<noteq> uid | None \<Rightarrow> False))
      \<and> (case entry_fds e of None \<Rightarrow> False | Some links \<Rightarrow> owns_link (socket_link inode) links)"
    by (auto simp: holds_socket_def owns_link_mem socket_link_def U32_MAX_def is_ascii_digit_def
        split: list.splits option.splits)
  with Cons show ?case by (auto simp: Let_def split: option.splits)
qed simp

lemma find_pid_holder: "find_pid_from_inode w inode uid = socket_holder w inode uid"
  by (simp add: find_pid_from_inode_def socket_holder_def find_pid_in_holder split: option.split)

section \<open>The netlink dump\<close>

lemma scan_msgs_append:
  "scan_msgs (ms @ ns) sip sport =
     (case scan_msgs ms sip sport of Scan_more \<Rightarrow> scan_msgs ns sip sport | r \<Rightarrow> r)"
  by (induction ms) auto

lemma scan_msgs_not_ub: "scan_msgs ms sip sport \<noteq> Scan_ub"
  by (induction ms) auto

definition ends_dump :: "bytes \<Rightarrow> bool" where
  "ends_dump m = (rd16 m 4 = NLMSG_DONE \<or> rd16 m 4 = NLMSG_ERROR)"

definition socket_msg :: "u32 \<Rightarrow> u16 \<Rightarrow> bytes \<Rightarrow> bool" where
  "socket_msg sip sport m = (rd16 m 4 = SOCK_DIAG_BY_FAMILY \<and> rd32 m 24 = sip \<and> rd16_be m 20 = sport)"

definition dump_answer :: "scan_result \<Rightarrow> (u32 \<times> u32) option" where
  "dump_answer r = (case r of Scan_found inode uid \<Rightarrow> Some (inode, uid) | _ \<Rightarrow> None)"

lemma scan_msgs_find:
  "dump_answer (scan_msgs ms sip sport) =
     map_option (\<lambda>m. (rd32 m 84, rd32 m 80))
       (List.find (socket_msg sip sport) (takeWhile (\<lambda>m. \<not> ends_dump m) ms))"
  by (induction ms) (auto simp: dump_answer_def ends_dump_def socket_msg_def diag_matches_def)

lemma wf_msgs_nonempty: "ms \<noteq> [] \<Longrightarrow> list_all wf_msg ms \<Longrightarrow> concat ms \<noteq> []"
  by (cases ms) (auto simp: wf_msg_def)

text \<open>The buffer keeps its length, and each datagram is searched from its own beginning.\<close>

lemma nl_recv_dump:
  assumes "\<forall>ms \<in> set dgs. ms \<noteq> [] \<and> list_all wf_msg ms \<and> length (concat ms) \<le> length buf"
  shows "nl_recv_loop buf (map concat dgs) sip sport = Return (dump_answer (scan_msgs (concat dgs) sip sport))"
  using assms
proof (induction dgs arbitrary: buf)
  case Nil
  then show ?case by (simp add: dump_answer_def)
next
  case (Cons ms dgs)
  then have len: "length (concat ms) \<le> length buf" and ne: "concat ms \<noteq> []" and wf: "list_all wf_msg ms"
    using wf_msgs_nonempty [of ms] by auto
  let ?buf = "concat ms @ drop (length (concat ms)) buf"
  have scan: "nl_scan ?buf (length (concat ms)) 0 sip sport = Some (scan_msgs ms sip sport)"
    using nl_scan_msgs [OF wf, of "[]"] by simp
  have "length ?buf = length buf" using len by simp
  then have IH: "nl_recv_loop ?buf (map concat dgs) sip sport = Return (dump_answer (scan_msgs (concat dgs) sip sport))"
    using Cons by (intro Cons.IH) (simp del: length_append)
  have "take (length buf) (concat ms) = concat ms" using len by simp
  with ne scan IH scan_msgs_not_ub [of ms sip sport] show ?case
    by (auto simp: Let_def scan_msgs_append dump_answer_def simp del: drop_append split: scan_result.split)
qed

lemma u32_to_u64_zero: "(ucast (x :: u32) :: u64) = 0 \<longleftrightarrow> x = 0"
proof
  assume "(ucast x :: u64) = 0"
  then have "unat (ucast x :: u64) = 0" by simp
  moreover have "unat (ucast x :: u64) = unat x"
    by (simp add: unsigned_ucast_eq take_bit_nat_eq_self_iff) (use unat_u32_less [of x] in linarith)
  ultimately show "x = 0" by (simp add: unat_eq_0)
qed simp

text \<open>C24: when the kernel answers the lookup with datagrams of well-formed messages that fit the
  buffer, the unsafe walk stays in the buffer and ends, and the process found is the first in
  \<open>/proc\<close> that holds the inode of the first socket message, before an end or error message, whose
  source address and port are the asked ones; there is none when no such message comes, its inode is
  zero or no process holds it.\<close>

theorem netlink_dump:
  assumes "nl_socket w" and "nl_send w" and "nl_dump w (diag_request is_udp) = map concat dgs"
    and "\<forall>ms \<in> set dgs. ms \<noteq> [] \<and> list_all wf_msg ms \<and> length (concat ms) \<le> NL_BUF_LEN"
  shows "get_pid_via_netlink w sip sport is_udp = Return
    (case List.find (socket_msg sip sport) (takeWhile (\<lambda>m. \<not> ends_dump m) (concat dgs)) of
       None \<Rightarrow> None
     | Some m \<Rightarrow> if rd32 m 84 = 0 then None else socket_holder w (ucast (rd32 m 84)) (rd32 m 80))"
proof -
  have "nl_recv_loop (replicate NL_BUF_LEN 0) (map concat dgs) sip sport
      = Return (map_option (\<lambda>m. (rd32 m 84, rd32 m 80))
          (List.find (socket_msg sip sport) (takeWhile (\<lambda>m. \<not> ends_dump m) (concat dgs))))"
    using nl_recv_dump [of dgs "replicate NL_BUF_LEN 0"] assms(4) by (simp add: scan_msgs_find)
  with assms(1-3) show ?thesis
    by (simp add: get_pid_via_netlink_def u32_to_u64_zero find_pid_holder split: option.split)
qed

theorem netlink_dump_witness:
  "get_pid_via_netlink (example_os\<lparr>nl_dump := (\<lambda>_. map concat [[example_msg], [example_msg, example_msg]])\<rparr>) 0x0500000A 40000 True
     = Return (Some 4242)"
proof -
  let ?w = "example_os\<lparr>nl_dump := (\<lambda>_. map concat [[example_msg], [example_msg, example_msg]])\<rparr>"
  have "socket_holder ?w 777 1000 = Some 4242"
    using example_pid by (simp add: find_pid_holder [symmetric] find_pid_from_inode_def)
  then show ?thesis
    by (subst netlink_dump [where dgs = "[[example_msg], [example_msg, example_msg]]"])
      (simp_all add: example_msg_wf example_msg_fields socket_msg_def ends_dump_def NL_BUF_LEN_def
        NLMSG_DONE_def NLMSG_ERROR_def SOCK_DIAG_BY_FAMILY_def, simp_all add: example_os_def)
qed

section \<open>The table of UDP sockets\<close>

text \<open>Hexadecimal digits as the kernel prints a port: four, upper case.\<close>

definition hex_char :: "nat \<Rightarrow> char" where
  "hex_char d = char_of (if d < 10 then 48 + d else 55 + d)"

definition hex4 :: "u16 \<Rightarrow> string" where
  "hex4 p = (let n = unat p in
     [hex_char (n div 4096), hex_char (n div 256 mod 16), hex_char (n div 16 mod 16), hex_char (n mod 16)])"

lemma code_hex_char: "d < 16 \<Longrightarrow> code (hex_char d) = (if d < 10 then 48 + d else 55 + d)"
  by (simp add: hex_char_def)

lemma to_digit_hex: "d < 16 \<Longrightarrow> to_digit 16 (hex_char d) = Some d"
  by (auto simp: to_digit_def code_hex_char)

lemma hex_char_plain: "d < 16 \<Longrightarrow> plain_char (hex_char d)"
  by (auto simp: plain_char_def ws_ascii_def code_hex_char)

lemma hex4_digits: "unat (p :: u16) div 4096 < 16" "unat p div 256 mod 16 < 16" "unat p div 16 mod 16 < 16" "unat p mod 16 < 16"
  using unat_u16_less [of p] by (simp_all add: div_less_iff_less_mult)

lemma plain_hex4 [simp]: "plain (hex4 p)"
  using hex4_digits [of p] by (simp add: hex4_def Let_def hex_char_plain)

lemma hex4_parts:
  fixes n :: nat
  assumes "n < 65536"
  shows "n div 4096 * 16 + n div 256 mod 16 = n div 256"
    and "n div 256 * 16 + n div 16 mod 16 = n div 16" and "n div 16 * 16 + n mod 16 = n"
proof -
  show "n div 4096 * 16 + n div 256 mod 16 = n div 256"
    using div_mult_mod_eq [of "n div 256" 16] by (simp add: div_mult2_eq [symmetric])
  show "n div 256 * 16 + n div 16 mod 16 = n div 16"
    using div_mult_mod_eq [of "n div 16" 16] by (simp add: div_mult2_eq [symmetric])
  show "n div 16 * 16 + n mod 16 = n" by simp
qed

lemma parse_hex4 [simp]: "parse_u16_hex (hex4 p) = Some p"
proof -
  let ?n = "unat p"
  note d = hex4_digits [of p]
  have bounds: "?n div 4096 \<le> 65535" "?n div 256 \<le> 65535" "?n div 16 \<le> 65535" "?n \<le> 65535"
    using unat_u16_le [of p] by (meson div_le_dividend le_trans unat_u16_le)+
  have "parse_digits 16 65535 0 (hex4 p) = Some ?n"
    unfolding hex4_def Let_def parse_digits.simps
    using d bounds hex4_parts [OF unat_u16_less [of p]]
    by (simp only: to_digit_hex [OF d(1)] to_digit_hex [OF d(2)] to_digit_hex [OF d(3)] to_digit_hex [OF d(4)]
        option.case mult_zero_left add_0 if_True)
  moreover have "code (hd (hex4 p)) \<noteq> 43"
    using d(1) by (simp add: hex4_def Let_def code_hex_char)
  then have "hd (hex4 p) \<noteq> CHR ''+''" by auto
  moreover have "length (hex4 p) = 4" by (simp add: hex4_def Let_def)
  then have "hex4 p \<noteq> []" "hex4 p \<noteq> ''+''" "hex4 p \<noteq> ''-''" by auto
  ultimately show ?thesis by (simp add: parse_u16_hex_def from_str_radix_def)
qed

lemma parse_u64_show [simp]: "parse_u64 (show_nat (unat (i :: u64))) = Some i"
proof -
  have "unat i < 2 ^ LENGTH(64)" by (rule unsigned_less)
  then show ?thesis by (simp add: parse_u64_def from_str_radix_show_nat)
qed

text \<open>
  A row: the slot, the local address and port, five columns, the owner, the timeout, the inode
  and further columns. In its line any number of spaces may stand before the first column and
  after the last one (the kernel fills the lines of the IPv4 table up to 127 columns), and at
  least one between two columns: \<open>gaps\<close> says how many more.
\<close>

record udp_row =
  row_slot :: string
  row_addr :: string
  row_port :: u16
  row_mid :: "string list"
  row_uid :: u32
  row_timeout :: string
  row_inode :: u64
  row_rest :: "string list"

definition row_fields :: "udp_row \<Rightarrow> string list" where
  "row_fields r =
     [row_slot r, row_addr r @ '':'' @ hex4 (row_port r)] @ row_mid r
     @ [show_nat (unat (row_uid r)), row_timeout r, show_nat (unat (row_inode r))] @ row_rest r"

definition wf_row :: "udp_row \<Rightarrow> bool" where
  "wf_row r = (length (row_mid r) = 5 \<and> CHR '':'' \<notin> set (row_addr r)
     \<and> list_all (\<lambda>w. plain w \<and> w \<noteq> []) (row_fields r))"

definition pad_join :: "(nat \<times> string) list \<Rightarrow> string" where
  "pad_join ws = concat (map (\<lambda>(k, w). replicate (Suc k) CHR '' '' @ w) ws)"

record udp_line =
  lead :: nat
  line_row :: udp_row
  gaps :: "nat list"
  trail :: nat

definition row_line :: "udp_line \<Rightarrow> string" where
  "row_line x = replicate (lead x) CHR '' '' @ hd (row_fields (line_row x))
     @ pad_join (zip (gaps x) (tl (row_fields (line_row x)))) @ replicate (trail x) CHR '' ''"

definition wf_line :: "udp_line \<Rightarrow> bool" where
  "wf_line x = (wf_row (line_row x) \<and> Suc (length (gaps x)) = length (row_fields (line_row x)))"

definition udp_table :: "string \<Rightarrow> udp_line list \<Rightarrow> string" where
  "udp_table header rows = concat (map (\<lambda>l. l @ [CHR 0x0A]) (header # map row_line rows))"

lemma split_ws_plain: "plain w \<Longrightarrow> split_ws_pieces cur (w @ s) = split_ws_pieces (rev w @ cur) s"
  by (induction w arbitrary: cur) (auto simp: plain_char_def)

lemma split_ws_spaces:
  "split_ws_pieces cur (replicate (Suc k) CHR '' '' @ s) = rev cur # replicate k [] @ split_ws_pieces [] s"
  by (induction k arbitrary: cur) (simp_all add: ws_ascii_def)

lemma split_ws_lead:
  "filter (\<lambda>w. w \<noteq> []) (split_ws_pieces [] (replicate k CHR '' '' @ s))
     = filter (\<lambda>w. w \<noteq> []) (split_ws_pieces [] s)"
  by (cases k) (simp_all only: split_ws_spaces, simp_all)

lemma split_pad_join:
  "list_all (\<lambda>(k, w). plain w \<and> w \<noteq> []) ws \<Longrightarrow>
   filter (\<lambda>w. w \<noteq> []) (split_ws_pieces cur (pad_join ws @ replicate n CHR '' ''))
     = filter (\<lambda>w. w \<noteq> []) [rev cur] @ map snd ws"
proof (induction ws arbitrary: cur)
  case Nil
  show ?case
  proof (cases n)
    case (Suc k)
    then show ?thesis using split_ws_spaces [of cur k "[]"] by (simp add: pad_join_def)
  qed (simp add: pad_join_def)
next
  case (Cons x ws)
  obtain k w where x: "x = (k, w)" by (cases x)
  have "pad_join (x # ws) @ replicate n CHR '' ''
      = replicate (Suc k) CHR '' '' @ w @ pad_join ws @ replicate n CHR '' ''"
    by (simp add: pad_join_def x)
  moreover have w: "plain w" "w \<noteq> []" using Cons.prems by (simp_all add: x)
  ultimately show ?case
    using Cons.IH [of "rev w"] Cons.prems
    by (simp only: split_ws_spaces split_ws_plain [of w "[]"]) (simp add: x)
qed

lemma split_row_line:
  assumes "wf_line x"
  shows "split_whitespace (row_line x) = row_fields (line_row x)"
proof -
  obtain f fs where f: "row_fields (line_row x) = f # fs" by (simp add: row_fields_def)
  with assms have w: "plain f" "f \<noteq> []" "list_all (\<lambda>w. plain w \<and> w \<noteq> []) fs" and len: "length (gaps x) = length fs"
    by (simp_all add: wf_line_def wf_row_def)
  have "list_all (\<lambda>(k, w). plain w \<and> w \<noteq> []) (zip (gaps x) fs)"
    using w(3) by (auto simp: list_all_iff dest: set_zip_rightD)
  from split_pad_join [OF this, of "rev f" "trail x"] w len show ?thesis
    by (simp add: split_whitespace_def row_line_def f split_ws_lead split_ws_plain)
qed

lemma row_fields_nth:
  assumes "wf_row r"
  shows "10 \<le> length (row_fields r)" and "row_fields r ! 1 = row_addr r @ '':'' @ hex4 (row_port r)"
    and "row_fields r ! 7 = show_nat (unat (row_uid r))" and "row_fields r ! 9 = show_nat (unat (row_inode r))"
proof -
  have "length (row_mid r) = 5" using assms by (simp add: wf_row_def)
  then obtain a b c d e where "row_mid r = [a, b, c, d, e]"
    by (auto simp: length_Suc_conv eval_nat_numeral)
  then show "10 \<le> length (row_fields r)" "row_fields r ! 1 = row_addr r @ '':'' @ hex4 (row_port r)"
      "row_fields r ! 7 = show_nat (unat (row_uid r))" "row_fields r ! 9 = show_nat (unat (row_inode r))"
    by (simp_all add: row_fields_def)
qed

lemma scan_rows:
  assumes "list_all wf_line rows"
  shows "scan_udp_lines w sport (map (Some \<circ> row_line) rows) =
    map_option (\<lambda>r. socket_holder w (row_inode r) (row_uid r))
      (List.find (\<lambda>r. row_port r = sport \<and> row_inode r \<noteq> 0) (map line_row rows))"
  using assms
proof (induction rows)
  case (Cons x rows)
  let ?r = "line_row x"
  have wf: "wf_line x" "wf_row ?r" using Cons.prems by (auto simp: wf_line_def)
  note f = row_fields_nth [OF wf(2)]
  have "split_once CHR '':'' (row_fields ?r ! 1) = Some (row_addr ?r, hex4 (row_port ?r))"
    unfolding f(2) using wf(2) split_once_append [of "CHR '':''" "row_addr ?r"] by (simp add: wf_row_def)
  with Cons f wf(1) show ?case by (simp add: Let_def split_row_line unwrap_or_def find_pid_holder)
qed simp

text \<open>Reading the lines of a text of ASCII lines.\<close>

definition text_line :: "string \<Rightarrow> bool" where
  "text_line l = list_all (\<lambda>c. code c < 128 \<and> code c \<noteq> 10 \<and> code c \<noteq> 13) l"

lemma utf8_valid_ascii: "list_all (\<lambda>b. unat b < 128) bs \<Longrightarrow> utf8_valid bs"
  by (induction bs) (subst utf8_valid.simps, simp add: utf8_step_ascii)+

lemma buf_line_text: "text_line l \<Longrightarrow> buf_line l ended = Some l"
proof -
  assume t: "text_line l"
  then have "utf8_valid (str_bytes l)"
    by (intro utf8_valid_ascii) (auto simp: str_bytes_def list_all_iff text_line_def unat_of_nat_u8)
  moreover have "l \<noteq> [] \<Longrightarrow> code (last l) \<noteq> 13"
    using t last_in_set [of l] by (auto simp: text_line_def list_all_iff)
  ultimately show ?thesis by (auto simp: buf_line_def)
qed

lemma buf_lines_text:
  "list_all text_line ls \<Longrightarrow> buf_lines (concat (map (\<lambda>l. l @ [CHR 0x0A]) ls)) = map Some ls"
proof (induction ls)
  case Nil
  then show ?case by (simp add: buf_lines_def)
next
  case (Cons l ls)
  let ?rest = "concat (map (\<lambda>l. l @ [CHR 0x0A]) ls)"
  have t: "text_line l" using Cons.prems by simp
  have "str_split (\<lambda>c. code c = 10) (l @ CHR 0x0A # ?rest) = l # str_split (\<lambda>c. code c = 10) ?rest"
    using t by (intro str_split_first) (auto simp: text_line_def list_all_iff)
  then show ?case
    using Cons t by (cases "str_split (\<lambda>c. code c = 10) ?rest") (simp_all add: buf_lines_def buf_line_text)
qed

lemma text_line_plain: "plain w \<Longrightarrow> text_line w"
  by (auto simp: plain_def text_line_def list_all_iff plain_char_def ws_ascii_def)

lemma text_line_append [simp]: "text_line (a @ b) \<longleftrightarrow> text_line a \<and> text_line b"
  by (simp add: text_line_def)

lemma text_line_pad_join: "list_all (\<lambda>(k, w). plain w) ws \<Longrightarrow> text_line (pad_join ws)"
proof (induction ws)
  case (Cons x ws)
  have "text_line (replicate k CHR '' '')" for k by (simp add: text_line_def list_all_iff)
  from this [of "Suc (fst x)"] Cons show ?case
    by (cases x) (simp add: pad_join_def text_line_plain del: replicate_Suc)
qed (simp add: pad_join_def text_line_def)

lemma text_line_row:
  assumes "wf_line x"
  shows "text_line (row_line x)"
proof -
  have spaces: "text_line (replicate k CHR '' '')" for k by (simp add: text_line_def list_all_iff)
  obtain f fs where f: "row_fields (line_row x) = f # fs" by (simp add: row_fields_def)
  with assms have "plain f" and fs: "list_all (\<lambda>w. plain w \<and> w \<noteq> []) fs" by (simp_all add: wf_line_def wf_row_def)
  have "list_all (\<lambda>(k, w). plain w) (zip (gaps x) fs)"
    using fs by (auto simp: list_all_iff dest: set_zip_rightD)
  with \<open>plain f\<close> show ?thesis
    by (simp add: row_line_def f spaces text_line_plain text_line_pad_join)
qed

lemma scan_table:
  assumes "list_all wf_line rows" and "text_line header"
  shows "scan_udp_lines w sport (drop 1 (buf_lines (udp_table header rows))) =
    map_option (\<lambda>r. socket_holder w (row_inode r) (row_uid r))
      (List.find (\<lambda>r. row_port r = sport \<and> row_inode r \<noteq> 0) (map line_row rows))"
proof -
  have "list_all text_line (header # map row_line rows)"
    using assms text_line_row by (auto simp: list_all_iff)
  then have "buf_lines (udp_table header rows) = map Some (header # map row_line rows)"
    unfolding udp_table_def by (rule buf_lines_text)
  with scan_rows [OF assms(1)] show ?thesis by simp
qed

text \<open>C25: on the tables of UDP sockets as the kernel prints them, padded or not, the fallback finds
  the first process in \<open>/proc\<close> that holds the inode of the first socket, in the IPv4 table and then in
  the IPv6 table, that has the asked port and an inode other than zero; there is none when no socket
  has or no process holds it. The address is not compared.\<close>

theorem udp_table_lookup:
  assumes "proc_net_udp w = Some (udp_table h4 rows4)" and "proc_net_udp6 w = Some (udp_table h6 rows6)"
    and "list_all wf_line rows4" and "list_all wf_line rows6" and "text_line h4" and "text_line h6"
  shows "get_pid_from_proc_net_udp w sport =
    (case List.find (\<lambda>r. row_port r = sport \<and> row_inode r \<noteq> 0) (map line_row rows4 @ map line_row rows6) of
       None \<Rightarrow> None
     | Some r \<Rightarrow> socket_holder w (row_inode r) (row_uid r))"
  using assms(1,2) scan_table [OF assms(3,5), of w sport] scan_table [OF assms(4,6), of w sport]
  by (simp add: get_pid_from_proc_net_udp_def find_append split: option.split)

text \<open>A line of the IPv4 table as the kernel prints it, 127 columns wide.\<close>

definition example_line :: udp_line where
  "example_line = \<lparr>lead = 4, line_row = \<lparr>row_slot = ''7:'', row_addr = ''0100007F'', row_port = 40000,
     row_mid = [''00000000:0000'', ''07'', ''00000000:00000000'', ''00:00000000'', ''00000000''],
     row_uid = 1000, row_timeout = ''0'', row_inode = 777, row_rest = [''2'', ''0000000000000000'', ''0'']\<rparr>,
     gaps = [0, 0, 0, 0, 0, 0, 1, 7, 0, 0, 0, 0], trail = 11\<rparr>"

lemma example_line_text:
  "row_line example_line = ''    7: 0100007F:9C40 00000000:0000 07 00000000:00000000 00:00000000 00000000  1000        0 777 2 0000000000000000 0'' @ replicate 11 CHR '' ''"
  "length (row_line example_line) = 127"
proof -
  have hex: "hex4 40000 = ''9C40''" by (simp add: hex4_def hex_char_def) (simp add: char_of_def bit_0)
  have num: "show_nat (unat (1000 :: u32)) = ''1000''" "show_nat (unat (777 :: u64)) = ''777''"
    by (simp_all add: show_nat.simps digit_char_def) (simp_all add: char_of_def bit_0)
  have fill: "replicate 4 CHR '' '' = ''    ''" "replicate 8 CHR '' '' = ''        ''" "replicate (Suc (Suc 0)) CHR '' '' = ''  ''"
      "replicate (Suc 0) CHR '' '' = '' ''"
    by (simp_all add: eval_nat_numeral)
  show t: "row_line example_line = ''    7: 0100007F:9C40 00000000:0000 07 00000000:00000000 00:00000000 00000000  1000        0 777 2 0000000000000000 0'' @ replicate 11 CHR '' ''"
    by (simp only: example_line_def row_line_def row_fields_def pad_join_def udp_row.simps udp_line.simps hex num)
      (simp add: fill del: replicate_Suc)
  show "length (row_line example_line) = 127" unfolding t by simp
qed

lemma example_line_wf: "wf_line example_line"
proof -
  have "wf_row (line_row example_line)"
    by (simp add: wf_row_def row_fields_def) (simp add: example_line_def plain_char_def ws_ascii_def)
  then show ?thesis by (simp add: wf_line_def) (simp add: example_line_def row_fields_def)
qed

definition example_udp_header :: string where
  "example_udp_header = ''   sl  local_address rem_address   st tx_queue rx_queue tr tm->when retrnsmt   uid  timeout inode ref pointer drops ''"

theorem udp_table_lookup_witness:
  "get_pid_from_proc_net_udp (example_os\<lparr>proc_net_udp := Some (udp_table example_udp_header [example_line]),
     proc_net_udp6 := Some (udp_table example_udp_header [])\<rparr>) 40000 = Some 4242"
proof -
  let ?w = "example_os\<lparr>proc_net_udp := Some (udp_table example_udp_header [example_line]),
     proc_net_udp6 := Some (udp_table example_udp_header [])\<rparr>"
  have h: "text_line example_udp_header" by (simp add: text_line_def example_udp_header_def)
  have wf: "list_all wf_line [example_line]" by (simp add: example_line_wf)
  have "get_pid_from_proc_net_udp ?w 40000 =
    (case List.find (\<lambda>r. row_port r = 40000 \<and> row_inode r \<noteq> 0) (map line_row [example_line] @ map line_row ([] :: udp_line list)) of
       None \<Rightarrow> None | Some r \<Rightarrow> socket_holder ?w (row_inode r) (row_uid r))"
    by (rule udp_table_lookup [OF _ _ wf _ h h]) simp_all
  also have "\<dots> = socket_holder example_os 777 1000"
    by (simp add: example_line_def socket_holder_def)
  finally show ?thesis by (simp only: example_pid find_pid_holder [symmetric])
qed

end
