(* ===== verification/Policy.thy ===== *)
theory Policy
  imports Main_Program
begin

text \<open>
  The policy a user writes on the command line, and what it means, without texts: a list of
  rules of process, address and port patterns. Printed in the documented form and given as the
  \<open>--rule\<close> arguments, it is loaded into a table that decides every flow as the policy says.
\<close>

section \<open>Policies\<close>

datatype proc_spec = Any_proc | Named string | Begins string | Ends string

record policy_rule =
  pol_procs :: "proc_spec list"
  pol_hosts :: "ip_spec list"
  pol_ports :: "port_spec list"
  pol_proto :: rule_protocol
  pol_action :: rule_action

fun proc_sem :: "proc_spec \<Rightarrow> string \<Rightarrow> bool" where
  "proc_sem Any_proc path = True"
| "proc_sem (Named w) path = eq_ignore_ascii_case (pattern_target w path) w"
| "proc_sem (Begins w) path = (\<exists>a b. pattern_target w path = a @ b \<and> eq_ignore_ascii_case a w
     \<and> (b = [] \<or> \<not> is_cont_byte (hd b)))"
| "proc_sem (Ends w) path = (\<exists>a b. pattern_target w path = a @ b \<and> eq_ignore_ascii_case b w
     \<and> (a = [] \<or> \<not> is_cont_byte (hd b)))"

text \<open>An empty list of patterns is no restriction.\<close>

definition policy_covers :: "string \<Rightarrow> u32 \<Rightarrow> u16 \<Rightarrow> bool \<Rightarrow> policy_rule \<Rightarrow> bool" where
  "policy_covers path ip p is_udp r =
     (protocol_covers (pol_proto r) is_udp
      \<and> (pol_procs r = [] \<or> list_ex (\<lambda>s. proc_sem s path) (pol_procs r))
      \<and> (pol_hosts r = [] \<or> list_ex (\<lambda>s. ip_sem s ip) (pol_hosts r))
      \<and> (pol_ports r = [] \<or> list_ex (\<lambda>s. port_sem s p) (pol_ports r)))"

text \<open>A rule without any restriction is a default: it decides when no other rule does.\<close>

definition policy_default :: "policy_rule \<Rightarrow> bool" where
  "policy_default r =
     (pol_procs r \<in> {[], [Any_proc]} \<and> pol_hosts r \<in> {[], [Any_ip]} \<and> pol_ports r \<in> {[], [Any_port]})"

definition policy_decide :: "policy_rule list \<Rightarrow> string \<Rightarrow> u32 \<Rightarrow> u16 \<Rightarrow> bool \<Rightarrow> rule_action" where
  "policy_decide ps path ip p is_udp =
     (case List.find (\<lambda>r. policy_covers path ip p is_udp r \<and> \<not> policy_default r) ps of
        Some r \<Rightarrow> pol_action r
      | None \<Rightarrow>
          (case List.find (\<lambda>r. policy_covers path ip p is_udp r \<and> policy_default r) ps of
             Some r \<Rightarrow> pol_action r
           | None \<Rightarrow> Direct))"

section \<open>Their texts\<close>

fun show_proc :: "proc_spec \<Rightarrow> string" where
  "show_proc Any_proc = ''*''"
| "show_proc (Named w) = w"
| "show_proc (Begins w) = w @ ''*''"
| "show_proc (Ends w) = CHR ''*'' # w"

definition show_procs :: "proc_spec list \<Rightarrow> string" where
  "show_procs ss = str_join CHR '';'' (map show_proc ss)"

definition rule_text :: "policy_rule \<Rightarrow> string" where
  "rule_text r = str_join CHR '':'' [show_procs (pol_procs r), show_ip_list (pol_hosts r),
     show_port_list (pol_ports r), show_protocol (pol_proto r), show_action (pol_action r)]"

text \<open>
  A name is a non-empty ASCII word without the characters of the syntax, and no name by itself
  is the word for any process.
\<close>

definition wf_name :: "string \<Rightarrow> bool" where
  "wf_name w = (w \<noteq> [] \<and> plain w \<and> CHR ''*'' \<notin> set w \<and> CHR '';'' \<notin> set w \<and> CHR '':'' \<notin> set w)"

fun wf_proc :: "proc_spec \<Rightarrow> bool" where
  "wf_proc Any_proc = True"
| "wf_proc (Named w) = (wf_name w \<and> \<not> eq_ignore_ascii_case w ''ANY'')"
| "wf_proc (Begins w) = wf_name w"
| "wf_proc (Ends w) = wf_name w"

definition wf_policy :: "policy_rule \<Rightarrow> bool" where
  "wf_policy r = list_all wf_proc (pol_procs r)"

section \<open>Process patterns\<close>

lemma show_proc_chars:
  "wf_proc s \<Longrightarrow> plain (show_proc s) \<and> show_proc s \<noteq> [] \<and> CHR '';'' \<notin> set (show_proc s) \<and> CHR '':'' \<notin> set (show_proc s)"
  by (cases s) (auto simp: wf_name_def plain_char_def ws_ascii_def)

lemma match_proc_show:
  assumes "wf_proc s"
  shows "match_process_pattern (show_proc s) path = proc_sem s path"
proof -
  have ends: "hd w \<noteq> CHR ''*'' \<and> last w \<noteq> CHR ''*'' \<and> w \<noteq> []" if "wf_name w" for w
    using that hd_in_set [of w] last_in_set [of w] unfolding wf_name_def by metis
  show ?thesis
    using assms ends by (cases s) (auto simp: match_process_exact match_process_prefix match_process_suffix procs.star_pat)
qed

lemma match_procs_show:
  assumes "list_all wf_proc ss" and "ss \<noteq> []"
  shows "match_process_list (show_procs ss) path \<longleftrightarrow> list_ex (\<lambda>s. proc_sem s path) ss"
proof -
  have "match_process_list (show_procs ss) path \<longleftrightarrow> (\<exists>w \<in> set (map show_proc ss). match_process_pattern w path)"
    unfolding show_procs_def
    by (rule procs.match_list_join) (use assms show_proc_chars in \<open>auto simp: list_all_iff\<close>)
  with assms(1) match_proc_show show ?thesis by (auto simp: list_all_iff list_ex_iff)
qed

lemma any_word_chars: "eq_ignore_ascii_case w ''ANY'' \<Longrightarrow> CHR ''*'' \<notin> set w \<and> CHR '';'' \<notin> set w"
proof -
  assume "eq_ignore_ascii_case w ''ANY''"
  then have eq: "map ascii_lower w = map ascii_lower ''ANY''" by (simp add: eq_ignore_ascii_case_def)
  have "set (map (\<lambda>c. code (ascii_lower c)) w) = set (map code (map ascii_lower w))" by auto
  also have "\<dots> = {97, 110, 121}" unfolding eq by (simp add: ascii_lower_def)
  finally have low: "code (ascii_lower c) \<in> {97, 110, 121}" if "c \<in> set w" for c
    using that by auto
  have "code (ascii_lower CHR ''*'') = 42" "code (ascii_lower CHR '';'') = 59" by (simp_all add: ascii_lower_def)
  with low show ?thesis by fastforce
qed

lemma show_procs_star: "list_all wf_proc ss \<Longrightarrow> ss \<noteq> [] \<Longrightarrow> show_procs ss = ''*'' \<longleftrightarrow> ss = [Any_proc]"
proof
  assume wf: "list_all wf_proc ss" and ne: "ss \<noteq> []" and eq: "show_procs ss = ''*''"
  have "map show_proc ss = [''*'']"
    by (rule str_join_singleton_char [OF eq [unfolded show_procs_def]])
      (use wf ne show_proc_chars in \<open>auto simp: list_all_iff\<close>)
  then obtain s where s: "ss = [s]" "show_proc s = ''*''" by auto
  with wf show "ss = [Any_proc]" by (cases s) (auto simp: wf_name_def append_eq_Cons_conv)
qed (simp add: show_procs_def)

lemma show_procs_any: "list_all wf_proc ss \<Longrightarrow> \<not> eq_ignore_ascii_case (show_procs ss) ''ANY''"
proof
  assume wf: "list_all wf_proc ss" and any: "eq_ignore_ascii_case (show_procs ss) ''ANY''"
  note no = any_word_chars [OF any]
  show False
  proof (cases ss)
    case Nil
    then show ?thesis using any eq_ignore_ascii_case_length [OF any] by (simp add: show_procs_def)
  next
    case (Cons s ss')
    show ?thesis
    proof (cases ss')
      case Nil
      with Cons wf any no show ?thesis by (cases s) (auto simp: show_procs_def)
    next
      case (Cons s' ss'')
      with \<open>ss = s # ss'\<close> no show ?thesis by (simp add: show_procs_def)
    qed
  qed
qed

section \<open>The rule that a text is loaded as\<close>

definition or_star :: "string \<Rightarrow> string" where
  "or_star s = (if s = [] then ''*'' else s)"

definition policy_parts :: "policy_rule \<Rightarrow> string \<times> string \<times> string \<times> rule_protocol \<times> rule_action" where
  "policy_parts r = (or_star (show_procs (pol_procs r)), or_star (show_ip_list (pol_hosts r)),
     or_star (show_port_list (pol_ports r)), pol_proto r, pol_action r)"

lemma show_ports_no_colon: "CHR '':'' \<notin> set (show_port_list ss)"
proof -
  have "CHR '':'' \<notin> set (show_port_spec s)" for s by (cases s) auto
  then show ?thesis unfolding show_port_list_def by (auto dest!: set_str_join)
qed

lemma show_hosts_no_colon: "CHR '':'' \<notin> set (show_ip_list ss)"
proof -
  have "CHR '':'' \<notin> set (show_octet s)" for s by (cases s) auto
  then have "CHR '':'' \<notin> set (show_ip_spec s)" for s by (cases s) auto
  then show ?thesis unfolding show_ip_list_def by (auto dest!: set_str_join)
qed

lemma show_procs_no_colon: "list_all wf_proc ss \<Longrightarrow> CHR '':'' \<notin> set (show_procs ss)"
  using show_proc_chars by (auto simp: show_procs_def list_all_iff dest!: set_str_join)

lemma parse_rule_text: "wf_policy r \<Longrightarrow> parse_rule_str (rule_text r) = Inr (policy_parts r)"
  unfolding rule_text_def wf_policy_def
  by (subst parse_shown_rule)
    (simp_all add: show_procs_no_colon show_hosts_no_colon show_ports_no_colon policy_parts_def or_star_def)

lemma str_join_map_Nil: "(\<And>s. s \<in> set ss \<Longrightarrow> f s \<noteq> []) \<Longrightarrow> str_join c (map f ss) = [] \<longleftrightarrow> ss = []"
  using str_join_nonempty [of "map f ss" c] by (cases ss) auto

lemma shown_list_nonempty:
  "show_procs [] = []" "show_ip_list [] = []" "show_port_list [] = []"
  "list_all wf_proc ss \<Longrightarrow> ss \<noteq> [] \<Longrightarrow> show_procs ss \<noteq> []"
  "hs \<noteq> [] \<Longrightarrow> show_ip_list hs \<noteq> []" "qs \<noteq> [] \<Longrightarrow> show_port_list qs \<noteq> []"
  unfolding show_procs_def show_ip_list_def show_port_list_def
  using show_proc_chars by (simp_all add: list_all_iff str_join_map_Nil show_ip_chars show_port_chars)

lemma show_hosts_star: "hs \<noteq> [] \<Longrightarrow> show_ip_list hs = ''*'' \<longleftrightarrow> hs = [Any_ip]"
proof
  assume ne: "hs \<noteq> []" and eq: "show_ip_list hs = ''*''"
  have "map show_ip_spec hs = [''*'']"
    by (rule str_join_singleton_char [OF eq [unfolded show_ip_list_def]]) (use ne show_ip_chars in auto)
  then obtain s where "hs = [s]" "show_ip_spec s = ''*''" by auto
  then show "hs = [Any_ip]" using show_dotted_not_star by (cases s) simp_all
qed (simp add: show_ip_list_def)

lemma show_ports_star: "qs \<noteq> [] \<Longrightarrow> show_port_list qs = ''*'' \<longleftrightarrow> qs = [Any_port]"
proof
  assume ne: "qs \<noteq> []" and eq: "show_port_list qs = ''*''"
  have "map show_port_spec qs = [''*'']"
    by (rule str_join_singleton_char [OF eq [unfolded show_port_list_def]]) (use ne show_port_chars in auto)
  then obtain s where s: "qs = [s]" "show_port_spec s = ''*''" by auto
  then show "qs = [Any_port]" by (cases s) (auto simp: show_nat_not_star append_eq_Cons_conv)
qed (simp add: show_port_list_def)

lemma wildcard_rule:
  assumes "wf_policy r"
  shows "is_wildcard_process (rule_of_parts i (policy_parts r)) \<longleftrightarrow> pol_procs r \<in> {[], [Any_proc]}"
  using assms show_procs_star [of "pol_procs r"] show_procs_any [of "pol_procs r"]
    shown_list_nonempty(4) [of "pol_procs r"]
  by (cases "pol_procs r = []")
    (auto simp: wf_policy_def is_wildcard_process_def rule_of_parts_def policy_parts_def or_star_def
      shown_list_nonempty(1))

lemma rule_hosts: "match_ip_list (or_star (show_ip_list hs)) ip \<longleftrightarrow> hs = [] \<or> list_ex (\<lambda>s. ip_sem s ip) hs"
  by (cases "hs = []")
    (auto simp: or_star_def shown_list_nonempty hosts.star_list address_list_meaning list_ex_iff)

lemma rule_ports: "match_port_list (or_star (show_port_list qs)) p \<longleftrightarrow> qs = [] \<or> list_ex (\<lambda>s. port_sem s p) qs"
  by (cases "qs = []")
    (auto simp: or_star_def shown_list_nonempty ports.star_list port_list_meaning list_ex_iff)

lemma rule_procs:
  assumes "list_all wf_proc ss"
  shows "match_process_list (or_star (show_procs ss)) path \<longleftrightarrow> ss = [] \<or> list_ex (\<lambda>s. proc_sem s path) ss"
  using assms
  by (cases "ss = []") (auto simp: or_star_def shown_list_nonempty procs.star_list match_procs_show)

lemma loaded_rule_covers:
  assumes wf: "wf_policy r"
  shows "covers path ip p is_udp (rule_of_parts i (policy_parts r)) = policy_covers path ip p is_udp r"
proof -
  let ?r = "rule_of_parts i (policy_parts r)"
  have f: "enabled ?r" "protocol ?r = pol_proto r" "process_name ?r = or_star (show_procs (pol_procs r))"
      "target_hosts ?r = or_star (show_ip_list (pol_hosts r))" "target_ports ?r = or_star (show_port_list (pol_ports r))"
    by (simp_all add: rule_of_parts_def policy_parts_def)
  have "is_wildcard_process ?r \<Longrightarrow> pol_procs r = [] \<or> list_ex (\<lambda>s. proc_sem s path) (pol_procs r)"
    using wf by (auto simp: wildcard_rule)
  with wf show ?thesis
    by (auto simp: covers_def policy_covers_def f rule_hosts rule_ports rule_procs wf_policy_def)
qed

lemma loaded_rule_default:
  assumes "wf_policy r"
  shows "catch_all (rule_of_parts i (policy_parts r)) = policy_default r"
  unfolding catch_all_def policy_default_def wildcard_rule [OF assms]
  using show_hosts_star [of "pol_hosts r"] show_ports_star [of "pol_ports r"]
  by (cases "pol_hosts r = []"; cases "pol_ports r = []")
    (auto simp: rule_of_parts_def policy_parts_def or_star_def shown_list_nonempty)

section \<open>Loading\<close>

lemma load_rules_parsed:
  "map parse_rule_str ss = map Inr qs \<Longrightarrow> \<exists>e'. load_rules ss e = Inr e'"
proof (induction ss arbitrary: qs e)
  case (Cons s ss)
  then obtain q qs' where "qs = q # qs'" "parse_rule_str s = Inr q" "map parse_rule_str ss = map Inr qs'"
    by (cases qs) auto
  then show ?case using Cons.IH by (cases q) simp
qed simp

lemma first_action_rules:
  assumes "length is = length ps"
    and "\<And>i r. r \<in> set ps \<Longrightarrow> P (rule_of_parts i (policy_parts r)) = Q r"
  shows "first_action P (map (\<lambda>(i, q). rule_of_parts (f i) q) (zip is (map policy_parts ps)))
    = map_option pol_action (List.find Q ps)"
  using assms
proof (induction "is" ps rule: list_induct2)
  case (Cons i "is" r ps)
  have "action (rule_of_parts j (policy_parts r)) = pol_action r" for j
    by (simp add: rule_of_parts_def policy_parts_def)
  with Cons show ?case by simp
qed simp

lemma loaded_policy:
  assumes "list_all wf_policy ps"
  shows "\<exists>e. load_rules (map rule_text ps) rule_engine_new = Inr e
    \<and> (\<forall>path ip p is_udp. match_rule e path ip p is_udp = policy_decide ps path ip p is_udp)"
proof -
  have parsed: "map parse_rule_str (map rule_text ps) = map Inr (map policy_parts ps)"
    using assms parse_rule_text by (auto simp: list_all_iff)
  from load_rules_parsed [OF parsed] obtain e where l: "load_rules (map rule_text ps) rule_engine_new = Inr e"
    by blast
  from loaded_rules [OF l] obtain qs where q: "map parse_rule_str (map rule_text ps) = map Inr qs"
      and rs: "rules e = map (\<lambda>(i, q). rule_of_parts (1 + of_nat i) q) (zip [0..<length qs] qs)" by blast
  have "map (Inr :: _ \<Rightarrow> rule_error + _) qs = map Inr (map policy_parts ps)"
    by (rule trans [OF q [symmetric] parsed])
  then have qs: "qs = map policy_parts ps" by (simp only: inj_map_eq_map [OF inj_Inr])
  have "match_rule e path ip p is_udp = policy_decide ps path ip p is_udp" for path ip p is_udp
  proof -
    have first: "first_action P (rules e) = map_option pol_action (List.find Q ps)"
      if "\<And>i r. wf_policy r \<Longrightarrow> P (rule_of_parts i (policy_parts r)) = Q r" for P Q
      unfolding rs qs by (rule first_action_rules) (use that assms in \<open>auto simp: list_all_iff\<close>)
    show ?thesis
      unfolding match_rule_decide decide_def policy_decide_def
      by (subst (1 2) first) (auto simp: loaded_rule_covers loaded_rule_default unwrap_or_def split: option.split)
  qed
  with l show ?thesis by blast
qed

text \<open>C10: a policy given on the command line in the documented form, with words for names and any
  number of process, address and port patterns in each rule, is loaded without error, and the table
  decides every flow of every program as the policy says: by the first rule that covers it and
  restricts something, else by the first rule without restrictions, else it goes directly.\<close>

theorem command_line_policy:
  assumes "list_all wf_policy ps"
  shows "\<exists>e. load_rules (map rule_text ps) rule_engine_new = Inr e
    \<and> (\<forall>path ip p is_udp. match_rule e path ip p is_udp = policy_decide ps path ip p is_udp)"
  using assms by (rule loaded_policy)

definition example_policy :: "policy_rule list" where
  "example_policy =
     [\<lparr>pol_procs = [], pol_hosts = [], pol_ports = [], pol_proto = Both, pol_action = Block\<rparr>,
      \<lparr>pol_procs = [Named ''curl'', Begins ''fire''], pol_hosts = [Dotted (Exact_octet 10) Any_octet Any_octet Any_octet],
       pol_ports = [Exact_port 80, Port_range 8000 9000], pol_proto = Tcp, pol_action = Proxy\<rparr>]"

theorem command_line_policy_witness:
  "\<exists>e. load_rules (map rule_text example_policy) rule_engine_new = Inr e
    \<and> match_rule e ''/usr/bin/curl'' 0x0500000A 8080 False = Proxy
    \<and> match_rule e ''/usr/bin/curl'' 0x0500000A 8080 True = Block"
proof -
  have "list_all wf_policy example_policy"
    by (simp add: example_policy_def wf_policy_def wf_name_def plain_char_def ws_ascii_def)
      (simp add: eq_ignore_ascii_case_def)
  from command_line_policy [OF this] obtain e where l: "load_rules (map rule_text example_policy) rule_engine_new = Inr e"
      and m: "match_rule e path ip p is_udp = policy_decide example_policy path ip p is_udp" for path ip p is_udp
    by blast
  have "proc_sem (Named ''curl'') ''/usr/bin/curl''"
    by (simp add: pattern_target_def file_name_def eval_defs)
  then have "policy_decide example_policy ''/usr/bin/curl'' 0x0500000A 8080 False = Proxy"
    by (simp add: policy_decide_def example_policy_def policy_covers_def policy_default_def
        protocol_covers_def ip_sem_def ip_octets_def del: proc_sem.simps)
  moreover have "policy_decide example_policy ''/usr/bin/curl'' 0x0500000A 8080 True = Block"
    by (simp add: policy_decide_def example_policy_def policy_covers_def policy_default_def protocol_covers_def)
  ultimately show ?thesis using l m by metis
qed

end
