(* ===== verification/Spec2Isabelle.thy ===== *)
theory Spec2Isabelle
  imports Bridge Nft_Semantics Console Build_Script Unit_Tests Lookup_Props Policy
begin

text \<open>
  ProxyBridge redirects the TCP and UDP traffic of chosen programs through a SOCKS5 or HTTP
  proxy. An nftables table sends the machine's outgoing TCP and UDP packets to a queue; the packet
  processor finds the process behind each new flow, asks the rule table for a verdict, and drops
  the packet, lets it through, or marks it and records its original destination under its source
  port. Marked packets are redirected to two local relays, which look the destination up by the
  client's port and carry the flow through the proxy.

  The theories follow the code, one per component:

  \<^item> \<open>Prelude\<close>, \<open>Bytes\<close>, \<open>Rust_Str\<close>, \<open>Str_Facts\<close>: machine integers, outcomes (return, panic, endless
    loop, undefined behaviour), byte order conversions, and the standard library's string
    functions on UTF-8 byte strings, with the facts the components share.
  \<^item> \<open>Config\<close>: \<open>config.rs\<close>, the constants, enumerations and \<open>ProxyConfig\<close>.
  \<^item> \<open>Patterns\<close>, \<open>Pattern_Props\<close>, \<open>Rule_Engine\<close>: \<open>rule.rs\<close>. \<open>match_process_list\<close>,
    \<open>match_ip_list\<close>, \<open>match_port_list\<close> and the single-pattern matchers; \<open>RuleEngine\<close> is the record
    \<open>rule_engine\<close>, its methods are functions on it, and the static \<open>NEXT_RULE_ID\<close> is a field.
  \<^item> \<open>Connection\<close>: \<open>connection.rs\<close>, \<open>ConnectionTracker\<close> and \<open>PidCache\<close> as maps with time stamps.
  \<^item> \<open>Net_Stream\<close>, \<open>Socks5\<close>, \<open>Http_Connect\<close>: a TCP connection as the handshakes see it, and
    \<open>proxy/socks5.rs\<close> and \<open>proxy/http.rs\<close> on it.
  \<^item> \<open>Process\<close>, \<open>Lookup_Props\<close>: \<open>process.rs\<close>, from a source address and port to a process and its
    program, and what the netlink dump and the tables of UDP sockets mean to it.
  \<^item> \<open>Nfqueue\<close>: \<open>nfqueue.rs\<close>; \<open>process_packet\<close> is the body of the loop of \<open>run_nfqueue\<close>.
  \<^item> \<open>Packet_Steps\<close>: the same loop body at the grain of its accesses to shared state; a \<open>stage\<close> is
    where it stands, \<open>packet_step\<close> goes on to the next access; the running program is made of these.
  \<^item> \<open>Netfilter\<close>, \<open>Nft_Semantics\<close>: \<open>netfilter.rs\<close>, the batches, the two expressions nftnl lacks and
    the loop that reads the acknowledgements; what the installed rules do to a packet, and their types.
  \<^item> \<open>Tcp_Relay\<close>, \<open>Udp_Relay\<close>: \<open>relay/tcp.rs\<close> and \<open>relay/udp.rs\<close>.
  \<^item> \<open>Cli\<close>, \<open>Main_Program\<close>, \<open>Console\<close>: the arguments and the URL parser of the command line crate,
    \<open>main.rs\<close>, and the lines both print.
  \<^item> \<open>Policy\<close>: what a list of \<open>--rule\<close> arguments means without texts.
  \<^item> \<open>Bridge\<close>: the running program, all threads over the shared stores, as a step relation with its
    reachable states.
  \<^item> \<open>Build_Script\<close>, \<open>Unit_Tests\<close>: \<open>linux/build.rs\<close>, and the repository's unit tests as definitions
    that hold of the model.

  Interfaces are locales, each interpreted on the code's own definitions: \<open>pattern_list\<close> (a list of
  patterns is the union of its parts; for processes, addresses and ports), \<open>flow_policy\<close> (what the
  packet processor needs of the rule engine), \<open>timed_store\<close> (put, purge and wipe of time-stamped
  entries; for the tracker and the PID cache) and \<open>handshake\<close> (only append to what is sent, only
  consume from the front of what arrives; for both proxy protocols).

  What is shown. The rule table: its loop implements an abstract first-match meaning with
  catch-all rules last, its operations keep it well formed, text patterns denote abstract ones, and
  a policy given on the command line decides every flow as it says (\<open>Rule_Engine\<close>, \<open>Pattern_Props\<close>,
  \<open>Policy\<close>). The stores: exact lifetimes, nothing invented or lost. The handshakes: exactly which
  bytes of the proxy make them succeed, what they send, what a server reads from it and what they
  leave to the tunnel. The lookup: the unsafe walk over the datagrams of a netlink answer stays in
  the buffer and ends on well-formed messages, and finds the first socket asked for; so does the
  scan of the tables of UDP sockets as the kernel prints them. The packet processor never panics and
  drops only what a blocking rule covers for the process behind its source; its accesses one by
  one, undisturbed, are \<open>process_packet\<close>. The firewall rules are well typed and redirect exactly the marked packets. The
  UDP relay recovers from an outage of the proxy. The printed output does not tell the password.
  This theory joins the components: a new flow gets what the rules say; a marked packet is
  redirected to the relay that finds its destination; and in every reachable state, with the
  threads interleaved between their accesses, every packet gets its verdict, verdicts obey the
  rules for the packet's own destination and protocol, the relays carry to the proxy only
  destinations the rules say to proxy, a recorded flow keeps its destination for its 60 seconds,
  and the data of a reply goes to a client with a recorded flow to its source. A program started
  with a policy on its command line so obeys it. The exceptions that are never proxied are stated
  once, apart from the code, as \<open>exempt\<close> in \<open>Nfqueue\<close>. The tracker keeps no protocol, so what is
  shown of tunnels and datagrams is about destinations, for some program and protocol.

  Where the code does something its comments do not say, the lemma that shows it stands beside the
  component: a malformed octet means 255 (\<open>Pattern_Props\<close>), the address of a CONNECT reply may
  leak into the tunnel and long credentials are cut (\<open>Socks5\<close>), a netlink message of length zero
  stops the packet thread (\<open>Process\<close>), a failed start leaves the table behind (\<open>Main_Program\<close>), a
  tracked port bypasses the rules and the IP version is ignored (\<open>Nfqueue\<close>).

  Bounds. Every function is total. The only loop of the code that may not end by itself, the walk
  over a netlink answer, is a \<open>partial_function\<close> whose \<open>None\<close> is the endless loop; there is no fuel.
  The service loops run over the list of what their turns meet, which ends when \<open>running\<close> is
  found false; an acknowledgement that never comes is the outcome \<open>Hang\<close>.

  Assumptions. The target is little-endian with a 64-bit \<open>usize\<close>. Strings are the bytes of their
  UTF-8 encoding; \<open>to_uppercase\<close>, whose result is only compared with ASCII words, is exact for
  the characters whose upper case is ASCII, and the upper case of other text, which only an error
  message shows, is an argument of \<open>Console\<close>. In \<open>Bridge\<close> each locked operation of a store is one
  step, a packet is a step for each of its accesses, an accepted connection is one step and a turn
  of the UDP relay one for each of its halves. Errors are constructors; \<open>Console\<close> has the texts of
  those the repository words itself.

  Not modelled: clap and env_logger; the inside of nfq, nftnl, mnl, pkg-config, tokio and the
  kernel, whose answers are arguments (\<open>os\<close>, \<open>exchange\<close>, \<open>main_env\<close>, \<open>udp_env\<close>, \<open>connect\<close>,
  \<open>copy\<close>, \<open>alloc\<close>, \<open>probe\<close>, \<open>l4proto\<close>, the base64 encoder); a failing allocation of an expression during the
  setup; the alignment of references into the netlink buffer; the poisoning of locks.
\<close>

section \<open>A packet and the firewall\<close>

lemma header_proto:
  assumes "header_of payload = Some (sip, dip, tp)"
  shows "payload ! 9 = (if tp_is_tcp tp then 6 else 17)"
  using assms
  by (auto simp: header_of_def parse_transport_def obind_eq_Return IPPROTO_TCP_def IPPROTO_UDP_def
      split: if_splits outcome.splits option.splits)

lemma redirect_table:
  "map_of (redirects (setup_batch tp up q)) (6, 1) = Some (u16_to_be_bytes tp)"
  "map_of (redirects (setup_batch tp up q)) (17, 2) = Some (u16_to_be_bytes up)"
  by (simp_all add: setup_redirects)

text \<open>C6: a packet that opens a flow of another process, whose program is known, is decided as the
  rules say: it is dropped exactly when their verdict is to block; it is marked for a relay, and its
  destination recorded under its source port, exactly when the verdict is to proxy it and it is none
  of the exceptions, written out in \<open>exempt\<close>: loopback, link-local, multicast and addresses ending
  in 255, DHCP, UDP without SOCKS5, no usable proxy; it is let through as it is otherwise. When it goes
  to DNS and DNS is kept off the proxy, it is let through whatever the rules say.\<close>

theorem new_flow_follows_rules:
  assumes "header_of payload = Some (sip, dip, tp)" and "new_flow tp st"
    and "get_pid_from_connection (t_get env) (t_put env) (world env) sip (tp_src_port tp) (\<not> tp_is_tcp tp) (pids st)
      = Return (p, c)"
    and "p \<noteq> 0" and "p \<noteq> current_pid cfg" and "get_process_name (world env) p = Some name"
    and "a = (if tp_dest_port tp = 53 \<and> \<not> dns_via_proxy cfg then Direct
      else match_rule (engine st) name dip (tp_dest_port tp) (\<not> tp_is_tcp tp))"
    and "proxied \<longleftrightarrow> a = Proxy \<and> \<not> exempt (proxy_cfg cfg) (dns_via_proxy cfg) (\<not> tp_is_tcp tp) dip (tp_dest_port tp)"
  shows "\<exists>out st'. process_packet cfg env payload st = Return (out, st')
    \<and> (out_verdict out = Drop \<longleftrightarrow> a = Block)
    \<and> out_mark out = (if proxied then Some (if tp_is_tcp tp then TCP_MARK else UDP_MARK) else None)
    \<and> tracker_get (tracker st') (tp_src_port tp) = (if proxied then Some (dip, tp_dest_port tp) else None)"
proof -
  have untracked: "tracker_get (tracker st) (tp_src_port tp) = None"
    using assms(2) by (simp add: new_flow_def is_tracked_def tracker_get_def)
  have proxied: "proxied \<longleftrightarrow> adjust_action (proxy_cfg cfg) dip (tp_dest_port tp) (\<not> tp_is_tcp tp) a = Proxy"
    unfolding assms(8) using assms(7)
    by (auto simp: adjust_action_exempt exempt_dns [of _ "dns_via_proxy cfg"] split: if_splits)
  show ?thesis
  proof (cases "has_active_rules (engine st)")
    case False
    then have "a = Direct" unfolding assms(7) using engine.idle_direct by simp
    with False assms(1) untracked assms(8) show ?thesis
      by (simp add: process_packet_header accept_out_def)
  next
    case True
    obtain log c' where c: "choose_action cfg env sip dip (tp_src_port tp) (tp_dest_port tp) (\<not> tp_is_tcp tp) st
        = Return (a, log, st\<lparr>pids := c'\<rparr>)"
    proof (cases "tp_dest_port tp = 53 \<and> \<not> dns_via_proxy cfg")
      case True
      then have "choose_action cfg env sip dip (tp_src_port tp) (tp_dest_port tp) (\<not> tp_is_tcp tp) st
          = Return (a, [], st\<lparr>pids := pids st\<rparr>)"
        using assms(7) by (simp add: choose_action_def)
      then show ?thesis by (rule that)
    next
      case False
      then show ?thesis using assms(3-7) that by (auto simp: choose_action_def Let_def)
    qed
    have "process_packet cfg env payload st = Return (apply_action env sip dip tp
        (adjust_action (proxy_cfg cfg) dip (tp_dest_port tp) (\<not> tp_is_tcp tp) a) log (st\<lparr>pids := c'\<rparr>))"
      using True assms(1,2) by (simp add: process_packet_header process_flow_new c)
    then show ?thesis
      using untracked proxied
      by (cases a) (auto simp: apply_action_def adjust_action_exempt split: if_splits)
  qed
qed

theorem new_flow_follows_rules_witness:
  "\<exists>out st'. process_packet example_cfg example_env example_syn (example_state Proxy) = Return (out, st')
    \<and> out_mark out = Some TCP_MARK \<and> tracker_get (tracker st') 40000 = Some (0x22D8B85D, 80)"
proof -
  have new: "new_flow example_tp (example_state Proxy)"
    by (simp add: new_flow_def example_tp_def example_state_def is_tracked_def tracker_new_def LOCAL_PROXY_PORT_def)
  have pid: "get_pid_from_connection (t_get example_env) (t_put example_env) (world example_env) 0x0500000A
      (tp_src_port example_tp) (\<not> tp_is_tcp example_tp) (pids (example_state Proxy)) = Return (4242, example_cache)"
    using example_lookup [of 1 2 False]
    by (simp add: example_env_def example_tp_def example_state_def example_cache_def)
  have name: "get_process_name (world example_env) 4242 = Some ''/usr/bin/curl''"
    using example_name by (simp add: example_env_def)
  have tp: "tp_src_port example_tp = 40000" "tp_dest_port example_tp = 80" "tp_is_tcp example_tp"
    by (simp_all add: example_tp_def)
  have own: "current_pid example_cfg = 99" by (simp add: example_cfg_def)
  have free: "\<not> exempt (proxy_cfg example_cfg) (dns_via_proxy example_cfg) False 0x22D8B85D 80"
    by (simp add: exempt_def special_address_def u32_to_ne_bytes_def example_cfg_def)
  from new_flow_follows_rules [OF example_header new pid _ _ name refl refl, of example_cfg]
  show ?thesis
    by (simp add: tp own free example_match) blast
qed

text \<open>C7: a packet of IP version 4 that the processor marks is one the firewall rules send to the queue,
  and the mark it gets is the one for which they redirect its protocol to the port of its relay, in
  network byte order: to the TCP relay for TCP and to the UDP relay for UDP. No rule redirects a
  packet without a mark, or this protocol and mark elsewhere, and the queue's chain comes before the
  redirecting one at the same hook. \<open>l4proto\<close> is what the kernel compares as the protocol of a
  packet: in version 4, the protocol field of its header.\<close>

theorem marked_packet_is_redirected:
  assumes "process_packet cfg env payload st = Return (out, st')" and "out_mark out = Some m"
    and "\<And>pkt. 20 \<le> length pkt \<Longrightarrow> drop_bit 4 (pkt ! 0) = 4 \<Longrightarrow> l4proto pkt = pkt ! 9"
    and "drop_bit 4 (payload ! 0) = 4"
    and "batch = setup_batch LOCAL_PROXY_PORT LOCAL_UDP_RELAY_PORT NFQUEUE_NUM"
  shows "\<exists>sip dip tp imm. header_of payload = Some (sip, dip, tp)
    \<and> Add_msg (Rule_obj \<lparr>rule_chain = mangle_chain,
          exprs = [Meta_L4Proto, Cmp_Eq_u8 (l4proto payload), Queue NFQUEUE_NUM]\<rparr>) \<in> set batch
    \<and> Add_msg (Rule_obj \<lparr>rule_chain = nat_chain,
          exprs = [Meta_L4Proto, Cmp_Eq_u8 (l4proto payload), Meta_Mark False, Cmp_Eq_u32 m,
            Immediate_u16 imm Reg1, Redir (Some Reg1)]\<rparr>) \<in> set batch
    \<and> u16_to_ne_bytes imm = u16_to_be_bytes (if tp_is_tcp tp then LOCAL_PROXY_PORT else LOCAL_UDP_RELAY_PORT)
    \<and> (\<forall>r. Add_msg (Rule_obj r) \<in> set batch \<and> rule_chain r = nat_chain \<longrightarrow>
          (\<exists>proto mark port. exprs r = [Meta_L4Proto, Cmp_Eq_u8 proto, Meta_Mark False, Cmp_Eq_u32 mark,
              Immediate_u16 port Reg1, Redir (Some Reg1)]
            \<and> mark \<noteq> 0 \<and> (proto = l4proto payload \<and> mark = m \<longrightarrow> port = imm)))
    \<and> fst (chain_hook mangle_chain) = fst (chain_hook nat_chain)
    \<and> snd (chain_hook mangle_chain) < snd (chain_hook nat_chain)"
proof -
  from process_packet_tracker [OF assms(1)] assms(2) obtain sip dip tp where
      h: "header_of payload = Some (sip, dip, tp)" and m: "m = (if tp_is_tcp tp then TCP_MARK else UDP_MARK)"
    by auto
  have "20 \<le> length payload" using h by (auto simp: header_of_def split: if_splits)
  from assms(3) [OF this assms(4)] header_proto [OF h]
  have proto: "l4proto payload = (if tp_is_tcp tp then 6 else 17)" by simp
  let ?imm = "to_be16 (if tp_is_tcp tp then LOCAL_PROXY_PORT else LOCAL_UDP_RELAY_PORT)"
  show ?thesis
    unfolding assms(5) proto m
    by (intro exI [of _ sip] exI [of _ dip] exI [of _ tp] exI [of _ ?imm])
      (auto simp: h setup_batch_def queue_rule_def redir_rule_def mangle_chain_def nat_chain_def
        to_be16_bytes TCP_MARK_def UDP_MARK_def)
qed

definition example_out :: "packet_out \<times> nfq_state" where
  "example_out = apply_action example_env 0x0500000A 0x22D8B85D example_tp Proxy []
     ((example_state Proxy)\<lparr>pids := example_cache\<rparr>)"

lemma example_proxied:
  "process_packet example_cfg example_env example_syn (example_state Proxy) = Return (fst example_out, snd example_out)"
proof -
  have "example_cfg\<lparr>current_pid := 99\<rparr> = example_cfg" by (simp add: example_cfg_def)
  with example_packet [of 99 Proxy] show ?thesis by (simp add: example_out_def)
qed

lemma example_out_fields:
  "out_mark (fst example_out) = Some TCP_MARK" "out_verdict (fst example_out) = Accept"
  "engine (snd example_out) = engine (example_state Proxy)"
  "tracker (snd example_out) = tracker_add 3 40000 0x0500000A 0x22D8B85D 80 tracker_new"
  by (simp_all add: example_out_def apply_action_def example_tp_def example_env_def example_state_def)

theorem marked_packet_is_redirected_witness:
  "Add_msg (Rule_obj \<lparr>rule_chain = mangle_chain,
     exprs = [Meta_L4Proto, Cmp_Eq_u8 (example_syn ! 9), Queue NFQUEUE_NUM]\<rparr>)
     \<in> set (setup_batch LOCAL_PROXY_PORT LOCAL_UDP_RELAY_PORT NFQUEUE_NUM)"
proof -
  have "drop_bit 4 (example_syn ! 0) = 4" by (simp add: example_syn_fields)
  from marked_packet_is_redirected [OF example_proxied example_out_fields(1) _ this refl, of "\<lambda>pkt. pkt ! 9"]
  show ?thesis by blast
qed

text \<open>C8: the relay that the marked packet's connection reaches finds the flow's original
  destination: an accepted connection from the flow's source port gets a task for exactly that
  address and port, also after a cleanup within 60 seconds.\<close>

theorem marked_flow_gets_tunnel:
  assumes "process_packet cfg env payload st = Return (out, st')" and "out_mark out = Some m"
    and "now < t_add env + 60000 * 1000000"
  shows "\<exists>sip dip tp. header_of payload = Some (sip, dip, tp)
    \<and> accept_turn (Accepted (tp_src_port tp) client (cleanup_stale now (tracker st')))
      = Some \<lparr>task_client = client, task_dest_ip = dip, task_dest_port = tp_dest_port tp\<rparr>"
proof -
  from process_packet_tracker [OF assms(1)] assms(2) obtain sip dip tp where
      h: "header_of payload = Some (sip, dip, tp)"
      and t: "tracker st' = tracker_add (t_add env) (tp_src_port tp) sip dip (tp_dest_port tp) (tracker st)"
    by auto
  have "elapsed_ms now (t_add env) < CONNECTION_TIMEOUT_MS"
    using assms(3) by (simp add: elapsed_ms_less_iff CONNECTION_TIMEOUT_MS_def)
  then have "tracker_get (cleanup_stale now (tracker st')) (tp_src_port tp) = Some (dip, tp_dest_port tp)"
    by (simp add: t tracker_get_def cleanup_stale_def map_retain_def tracker_add_def)
  with h show ?thesis by auto
qed

theorem marked_flow_gets_tunnel_witness:
  "\<exists>sip dip tp. header_of example_syn = Some (sip, dip, tp)
    \<and> accept_turn (Accepted (tp_src_port tp) example_client (cleanup_stale 30000000000 (tracker (snd example_out))))
      = Some \<lparr>task_client = example_client, task_dest_ip = dip, task_dest_port = tp_dest_port tp\<rparr>"
  by (rule marked_flow_gets_tunnel [OF example_proxied example_out_fields(1)]) (simp add: example_env_def)

section \<open>The running program\<close>

definition example_engine :: rule_engine where
  "example_engine = engine (example_state Proxy)"

definition example_system :: system where
  "example_system = (initial_system example_engine)\<lparr>nfq := snd example_out, clock := 3\<rparr>"

lemma example_reachable: "reachable example_cfg example_engine example_system"
proof -
  have init: "nfq (initial_system example_engine) = example_state Proxy"
    by (simp add: initial_system_def initial_state_def example_engine_def example_state_def)
  have "process_packet example_cfg example_env example_syn (nfq (initial_system example_engine))
      = Return (fst example_out, snd example_out)"
    using example_proxied by (simp add: init)
  then show ?thesis
    unfolding example_system_def
    by (rule packet_reachable)
      (use reachable.start [of example_cfg example_engine] in
        \<open>simp_all add: initial_system_def example_env_def env_ordered_def\<close>)
qed

lemma example_tracked: "tracker_get (tracker (nfq example_system)) 40000 = Some (0x22D8B85D, 80)"
  by (simp add: example_system_def example_out_fields)

text \<open>C2: in every state the program can reach, the TCP relay opens a tunnel only to a destination
  that the rules say to proxy for some program, that is neither broadcast nor multicast, and is
  not DNS when DNS is kept off the proxy.\<close>

theorem only_policy_reaches_proxy:
  assumes "reachable cfg e s" and "step cfg s (Ev_tunnel q dip dport) s'"
  shows "proxied_flow cfg e dip dport"
  using assms by (rule tunnel_proxied)

theorem only_policy_reaches_proxy_witness: "proxied_flow example_cfg example_engine 0x22D8B85D 80"
proof -
  have "accept_turn (Accepted 40000 example_client (tracker (nfq example_system)))
      = Some \<lparr>task_client = example_client, task_dest_ip = 0x22D8B85D, task_dest_port = 80\<rparr>"
    by (simp add: example_tracked)
  from step.tunnel [OF this, of example_cfg]
  have "step example_cfg example_system (Ev_tunnel 40000 0x22D8B85D 80) example_system" by simp
  with example_reachable show ?thesis by (rule only_policy_reaches_proxy)
qed

text \<open>C3: every datagram the UDP relay sends to the proxy, in every reachable state, is addressed
  inside to a destination that the rules say to proxy for some program.\<close>

theorem udp_datagrams_follow_policy:
  assumes "reachable cfg e s" and "step cfg s (Ev_udp inp out) s'" and "To_proxy u addr packet \<in> set out"
  shows "\<exists>dip dport. parse_socks5_udp_packet packet = Some (dip, dport, 10) \<and> proxied_flow cfg e dip dport"
  using assms by (rule datagram_proxied)

definition example_relay :: "tcp_stream \<Rightarrow> system" where
  "example_relay ctrl = example_system\<lparr>udp := \<lparr>control_sock = Some ctrl, send_sock = Some 40001,
     relay_addr = Some ([127, 0, 0, 1], 1080)\<rparr>\<rparr>"

lemma example_socks5: "starts_udp_relay (proxy_cfg example_cfg)"
  by (simp add: starts_udp_relay_def example_cfg_def)

lemma example_relay_reachable: "\<exists>ctrl. reachable example_cfg example_engine (example_relay ctrl)"
proof -
  let ?peer = "\<lparr>rx = [[5, 0], [5, 0, 0, 1, 127, 0, 0, 1, 4, 56]], rx_reset = False, tx = [], tx_room = None\<rparr>"
  have "associate_accepted (use_auth None None) [5, 0] [5, 0, 0, 1, 127, 0, 0, 1, 4, 56] 0x0100007F 1080"
    by (simp add: associate_accepted_def negotiation_accepted_def)
  from associate_complete [OF _ this, of ?peer] obtain ctrl where
      "socks5_udp_associate None None ?peer = (Inr (0x0100007F, 1080), ctrl)" by auto
  then have "establish_udp_associate (\<lambda>_. Some ?peer) (Some 40001) (proxy_cfg example_cfg)
      = Inr (ctrl, 40001, ([127, 0, 0, 1], 1080))"
    by (simp add: establish_udp_associate_def example_cfg_def u32_to_ne_bytes_def)
  moreover have "relay_addr (udp example_system) = None"
    by (simp add: example_system_def initial_system_def udp_relay_new_def)
  ultimately have "step example_cfg example_system Ev_assoc (example_relay ctrl)"
    unfolding example_relay_def using example_socks5 by (intro step.assoc)
  with example_reachable show ?thesis by (blast intro: reachable.more)
qed

lemma example_relay_tracker: "tracker (nfq (example_relay ctrl)) = tracker_add 3 40000 0x0500000A 0x22D8B85D 80 tracker_new"
  by (simp add: example_relay_def example_system_def example_out_fields)

theorem udp_datagrams_follow_policy_witness: "\<exists>dip dport. proxied_flow example_cfg example_engine dip dport"
proof -
  obtain ctrl where r: "reachable example_cfg example_engine (example_relay ctrl)"
    using example_relay_reachable ..
  let ?out = "[To_proxy 40001 ([127, 0, 0, 1], 1080) (build_socks5_udp_packet 0x22D8B85D 80 [1])]"
  have "relay_from_client (tracker (nfq (example_relay ctrl))) True (From_client [1] 40000) (udp (example_relay ctrl))
      = (?out, udp (example_relay ctrl))"
    by (simp add: relay_from_client_def example_relay_tracker) (simp add: example_relay_def UDP_BUF_LEN_def)
  from step.from_client [OF example_socks5 this]
  have "step example_cfg (example_relay ctrl) (Ev_udp (From_local (From_client [1] 40000)) ?out) (example_relay ctrl)" by simp
  from udp_datagrams_follow_policy [OF r this] show ?thesis by auto
qed

text \<open>C4: in every reachable state, a datagram that the UDP relay hands to a local client is the only one
  of its turn and the data of the datagram that it has just received from the proxy, whose header
  names the destination recorded for that client's port at that moment. Conversely, once a socket is
  bound, the data of a well-formed datagram that fits the buffer is handed to a client for whose port
  its source is recorded, if there is any.\<close>

theorem udp_replies_reach_tracked_client:
  assumes "reachable cfg e s" and "step cfg s (Ev_udp inp out) s'"
  shows "(To_client addr data \<in> set out \<longrightarrow>
      (\<exists>dgram rsv sip sport q. inp = From_remote (Some dgram) \<and> out = [To_client addr data]
        \<and> length rsv = 2
        \<and> take 65536 dgram = rsv @ [0, 1] @ u32_to_ne_bytes sip @ u16_to_be_bytes sport @ data
        \<and> addr = ([127, 0, 0, 1], q) \<and> tracker_get (tracker (nfq s)) q = Some (sip, sport)))
    \<and> (inp = From_remote (Some (rsv' @ [0, 1] @ u32_to_ne_bytes ip @ u16_to_be_bytes p @ content))
        \<and> length rsv' = 2 \<and> length content \<le> 65526
        \<and> send_sock (udp s) \<noteq> None \<and> tracker_get (tracker (nfq s)) q' = Some (ip, p) \<longrightarrow>
      (\<exists>q. out = [To_client ([127, 0, 0, 1], q) content] \<and> tracker_get (tracker (nfq s)) q = Some (ip, p)))"
  using assms(2)
proof (cases rule: step_udp)
  case (client sent_ok ev u')
  then show ?thesis by (auto elim: relay_from_client_out)
next
  case (proxy iter remote)
  have wf: "wf_tracker (tracker (nfq s))" using reachable_ok [OF assms(1)] by (simp add: system_ok_def)
  note found = find_by_dest_tracked [OF wf proxy(2)]
  show ?thesis
  proof (intro conjI impI)
    assume "To_client addr data \<in> set out"
    then obtain dgram sip sport q where r: "remote = Some dgram"
        and p: "parse_socks5_udp_packet (take UDP_BUF_LEN dgram) = Some (sip, sport, 10)"
        and f: "find_by_dest iter sip sport = Some q"
        and x: "addr = ([127, 0, 0, 1], q)" "data = drop 10 (take UDP_BUF_LEN dgram)"
      by (rule relay_from_proxy_out [OF proxy(3)]) auto
    have "\<exists>u. send_sock (udp s) = Some u"
      using proxy(3) \<open>To_client addr data \<in> set out\<close> by (auto simp: relay_from_proxy_def split: option.splits)
    then obtain u where "send_sock (udp s) = Some u" ..
    from relay_from_proxy_delivers [OF this p f] proxy(3) r x have "out = [To_client addr data]" by simp
    with parsed_udp_bytes [OF p] found [OF f] proxy(1) r x
    show "\<exists>dgram rsv sip sport q. inp = From_remote (Some dgram) \<and> out = [To_client addr data]
        \<and> length rsv = 2
        \<and> take 65536 dgram = rsv @ [0, 1] @ u32_to_ne_bytes sip @ u16_to_be_bytes sport @ data
        \<and> addr = ([127, 0, 0, 1], q) \<and> tracker_get (tracker (nfq s)) q = Some (sip, sport)"
      unfolding UDP_BUF_LEN_def by blast
  next
    let ?dgram = "rsv' @ [0, 1] @ u32_to_ne_bytes ip @ u16_to_be_bytes p @ content"
    assume *: "inp = From_remote (Some ?dgram) \<and> length rsv' = 2 \<and> length content \<le> 65526
        \<and> send_sock (udp s) \<noteq> None \<and> tracker_get (tracker (nfq s)) q' = Some (ip, p)"
    then obtain u where u: "send_sock (udp s) = Some u" by blast
    from * have all: "take UDP_BUF_LEN ?dgram = ?dgram" by (simp add: UDP_BUF_LEN_def)
    obtain q where q: "find_by_dest iter ip p = Some q"
      using find_by_dest_complete [OF proxy(2)] * by blast
    have "relay_from_proxy iter (Some ?dgram) (udp s) = Return [To_client ([127, 0, 0, 1], q) content]"
      using relay_from_proxy_delivers [OF u _ q, of ?dgram] parse_udp_bytes [of rsv' ip p content] *
      unfolding all by simp
    with proxy(1,3) * found [OF q]
    show "\<exists>q. out = [To_client ([127, 0, 0, 1], q) content] \<and> tracker_get (tracker (nfq s)) q = Some (ip, p)"
      by auto
  qed
qed

theorem udp_replies_reach_tracked_client_witness:
  "\<exists>ctrl q sip sport. tracker_get (tracker (nfq (example_relay ctrl))) q = Some (sip, sport)
    \<and> take 65536 (build_socks5_udp_packet 0x22D8B85D 80 [7]) = [0, 0, 0, 1] @ u32_to_ne_bytes sip @ u16_to_be_bytes sport @ [7]"
proof -
  obtain ctrl where r: "reachable example_cfg example_engine (example_relay ctrl)"
    using example_relay_reachable ..
  let ?info = "\<lparr>src_ip = 0x0500000A, src_port = 40000, orig_dest_ip = 0x22D8B85D, orig_dest_port = 80, last_activity = 3\<rparr>"
  let ?dgram = "build_socks5_udp_packet 0x22D8B85D 80 [7]"
  have it: "is_iteration (connections (tracker (nfq (example_relay ctrl)))) [(40000, ?info)]"
    by (simp add: is_iteration_def example_relay_tracker tracker_add_def tracker_new_def)
  have all: "take UDP_BUF_LEN ?dgram = ?dgram" by (simp add: build_socks5_udp_packet_def UDP_BUF_LEN_def)
  have "send_sock (udp (example_relay ctrl)) = Some 40001" by (simp add: example_relay_def)
  from relay_from_proxy_delivers [OF this, of ?dgram, unfolded all, OF parse_build_udp, of "[(40000, ?info)]" 40000]
  have "relay_from_proxy [(40000, ?info)] (Some ?dgram) (udp (example_relay ctrl))
      = Return [To_client ([127, 0, 0, 1], 40000) [7]]"
    by (simp add: build_udp_payload)
  note reply = udp_replies_reach_tracked_client [OF r step.from_proxy [OF example_socks5 it this], THEN conjunct1, THEN mp]
  have "To_client ([127, 0, 0, 1], 40000) [7] \<in> set [To_client ([127, 0, 0, 1], 40000) [7]]" by simp
  from reply [OF this] obtain rsv sip sport q where *: "tracker_get (tracker (nfq (example_relay ctrl))) q = Some (sip, sport)"
      "length rsv = 2" "take 65536 ?dgram = rsv @ [0, 1] @ u32_to_ne_bytes sip @ u16_to_be_bytes sport @ [7]"
    by blast
  obtain a b where "rsv = [a, b]" using *(2) by (rule two_bytes)
  with *(3) have "rsv = [0, 0]" by (simp add: build_socks5_udp_packet_def)
  with * show ?thesis by auto
qed

text \<open>C5: whatever happens between the accesses of the packet thread, the verdict it gives on a packet
  obeys the rules for the packet's own destination and protocol: it drops one only when the rules say
  for some program to block it, and not when it goes to DNS that is kept off the proxy; it marks one,
  with the mark of its protocol and to be let through, only when they say for some program to proxy
  it and it is none of the exceptions.\<close>

theorem verdicts_follow_rules:
  assumes "reachable cfg e s" and "step cfg s (Ev_packet payload out) s'"
  shows "(out_verdict out = Drop \<longrightarrow> out_mark out = None \<and>
      (\<exists>sip dip tp name. header_of payload = Some (sip, dip, tp)
         \<and> (tp_dest_port tp = 53 \<longrightarrow> dns_via_proxy cfg)
         \<and> match_rule e name dip (tp_dest_port tp) (\<not> tp_is_tcp tp) = Block))
    \<and> (\<forall>m. out_mark out = Some m \<longrightarrow> out_verdict out = Accept \<and>
      (\<exists>sip dip tp name. header_of payload = Some (sip, dip, tp)
         \<and> match_rule e name dip (tp_dest_port tp) (\<not> tp_is_tcp tp) = Proxy
         \<and> \<not> exempt (proxy_cfg cfg) (dns_via_proxy cfg) (\<not> tp_is_tcp tp) dip (tp_dest_port tp)
         \<and> m = (if tp_is_tcp tp then TCP_MARK else UDP_MARK)))"
  using verdict_obeys [OF assms]
  by (cases "out_mark out"; cases "out_verdict out") (simp_all add: verdict_ok_def flow_proxied_def)

theorem verdicts_follow_rules_witness:
  "\<exists>sip dip tp name. header_of example_syn = Some (sip, dip, tp)
    \<and> match_rule example_engine name dip (tp_dest_port tp) (\<not> tp_is_tcp tp) = Proxy"
proof -
  have start: "reachable example_cfg example_engine (initial_system example_engine)" by (rule reachable.start)
  have "process_packet example_cfg example_env example_syn (nfq (initial_system example_engine))
      = Return (fst example_out, snd example_out)"
    using example_proxied by (simp add: initial_system_def initial_state_def example_engine_def example_state_def)
  from verdict_reachable [OF this _ start] obtain t' where r: "reachable example_cfg example_engine
      ((initial_system example_engine)\<lparr>nfq := snd example_out,
         handling := Some (example_syn, At_verdict (fst example_out)), clock := t'\<rparr>)"
    by (auto simp: initial_system_def example_env_def env_ordered_def)
  from verdicts_follow_rules [OF r step.packet [of _ _ _ t']] show ?thesis
    by (simp add: example_out_fields) blast
qed

text \<open>C9: a flow that is recorded keeps its destination for 60 seconds, whatever the threads do
  meanwhile: the entry stays as it is, a connection accepted from its source port gets a tunnel to
  that destination and no other, and a datagram that a client sends from the port goes to the proxy
  with it.\<close>

theorem flow_keeps_destination:
  assumes "reachable cfg e s" and "connections (tracker (nfq s)) q = Some info" and "runs cfg s s'"
    and "clock s' < last_activity info + 60000 * 1000000"
  shows "connections (tracker (nfq s')) q = Some info
    \<and> (step cfg s' (Ev_tunnel q dip dport) s'' \<longrightarrow> dip = orig_dest_ip info \<and> dport = orig_dest_port info)
    \<and> accept_turn (Accepted q client (tracker (nfq s')))
        = Some \<lparr>task_client = client, task_dest_ip = orig_dest_ip info, task_dest_port = orig_dest_port info\<rparr>
    \<and> (send_sock (udp s') = Some u \<and> relay_addr (udp s') = Some addr \<longrightarrow>
         fst (relay_from_client (tracker (nfq s')) True (From_client dgram q) (udp s'))
           = [To_proxy u addr (build_socks5_udp_packet (orig_dest_ip info) (orig_dest_port info) (take UDP_BUF_LEN dgram))])"
proof -
  have kept: "connections (tracker (nfq s')) q = Some info"
    by (rule entry_kept_runs [OF assms(3,1,2,4)])
  then have t: "tracker_get (tracker (nfq s')) q = Some (orig_dest_ip info, orig_dest_port info)"
    by (simp add: tracker_get_def)
  then have a: "accept_turn (Accepted q client (tracker (nfq s')))
      = Some \<lparr>task_client = client, task_dest_ip = orig_dest_ip info, task_dest_port = orig_dest_port info\<rparr>" for client
    by simp
  with kept t show ?thesis
    by (auto simp: step_tunnel_iff relay_from_client_def Let_def)
qed

theorem flow_keeps_destination_witness:
  "\<exists>info. runs example_cfg example_system (example_system\<lparr>nfq := (nfq example_system)\<lparr>tracker :=
       cleanup_stale 50000000000 (tracker (nfq example_system))\<rparr>, clock := 50000000000\<rparr>)
    \<and> orig_dest_ip info = 0x22D8B85D
    \<and> connections (cleanup_stale 50000000000 (tracker (nfq example_system))) 40000 = Some info"
proof -
  let ?s = "example_system\<lparr>nfq := (nfq example_system)\<lparr>tracker :=
       cleanup_stale 50000000000 (tracker (nfq example_system))\<rparr>, clock := 50000000000\<rparr>"
  let ?info = "\<lparr>src_ip = 0x0500000A, src_port = 40000, orig_dest_ip = 0x22D8B85D, orig_dest_port = 80, last_activity = 3\<rparr>"
  have c: "clock example_system \<le> 50000000000" by (simp add: example_system_def)
  have r: "runs example_cfg example_system ?s" by (rule runs.go [OF runs.stop step.clean_tracker [OF c]])
  have e: "connections (tracker (nfq example_system)) 40000 = Some ?info"
    by (simp add: example_system_def example_out_fields tracker_add_def)
  have "clock ?s < last_activity ?info + 60000 * 1000000" by simp
  from flow_keeps_destination [OF example_reachable e r this] r show ?thesis
    by (intro exI [of _ ?info]) simp
qed



section \<open>From the command line to the traffic\<close>

text \<open>
  The policy and the exceptions allow a flow of a program and protocol to go to the proxy. The
  proxy is the one of \<open>--proxy\<close>, as \<open>prepare\<close> has read it.
\<close>

definition policy_allows ::
  "policy_rule list \<Rightarrow> cli_args \<Rightarrow> proxy_config \<Rightarrow> string \<Rightarrow> bool \<Rightarrow> u32 \<Rightarrow> u16 \<Rightarrow> bool"
where
  "policy_allows ps args pcfg path is_udp dip dport =
     (policy_decide ps path dip dport is_udp = Proxy
      \<and> \<not> exempt pcfg (arg_dns_via_proxy args) is_udp dip dport)"

lemma prepared_engine:
  assumes "prepare env args = Inr (pcfg, e)" and "arg_rule args = map rule_text ps" and "list_all wf_policy ps"
  shows "match_rule e path ip p is_udp = policy_decide ps path ip p is_udp"
proof -
  obtain cfg0 where "load_rules (arg_rule args) rule_engine_new = Inr e" using prepare_Inr [OF assms(1)] .
  with loaded_policy [OF assms(3)] assms(2) show ?thesis by auto
qed

lemma flow_allowed:
  assumes "prepare env args = Inr (pcfg, e)" and "arg_rule args = map rule_text ps" and "list_all wf_policy ps"
  shows "flow_proxied (nfq_config_of env args pcfg) e path is_udp dip dport
    = policy_allows ps args pcfg path is_udp dip dport"
  by (simp add: flow_proxied_def policy_allows_def prepared_engine [OF assms] nfq_config_of_def)

text \<open>C1: a program started with a policy as its \<open>--rule\<close> arguments obeys it, in every state it can
  reach, however its threads interleave. A packet is marked only when the policy proxies its
  destination for some program and the packet's protocol and it is none of the exceptions, all of
  them (special addresses, DNS kept off the proxy, DHCP, UDP without SOCKS5, no usable proxy), and it
  is dropped only when the policy blocks it for some program. A tunnel of the TCP relay and a datagram
  of the UDP relay go only to destinations that the policy proxies for some program and protocol for
  which they are none of the exceptions.\<close>

theorem program_obeys_policy:
  assumes "prepare env args = Inr (pcfg, e)" and "arg_rule args = map rule_text ps" and "list_all wf_policy ps"
    and "cfg = nfq_config_of env args pcfg" and "reachable cfg e s"
  shows "(step cfg s (Ev_tunnel q dip dport) s' \<longrightarrow> (\<exists>path is_udp. policy_allows ps args pcfg path is_udp dip dport))
    \<and> (step cfg s (Ev_udp inp dgrams) s' \<and> To_proxy u addr packet \<in> set dgrams \<longrightarrow>
         (\<exists>uip uport path is_udp. parse_socks5_udp_packet packet = Some (uip, uport, 10)
            \<and> policy_allows ps args pcfg path is_udp uip uport))
    \<and> (step cfg s (Ev_packet payload out) s' \<and> out_mark out \<noteq> None \<longrightarrow>
         (\<exists>sip mip tp path. header_of payload = Some (sip, mip, tp)
            \<and> policy_allows ps args pcfg path (\<not> tp_is_tcp tp) mip (tp_dest_port tp)
            \<and> out_verdict out = Accept \<and> out_mark out = Some (if tp_is_tcp tp then TCP_MARK else UDP_MARK)))
    \<and> (step cfg s (Ev_packet payload out) s' \<and> out_verdict out = Drop \<longrightarrow>
         (\<exists>sip mip tp path. header_of payload = Some (sip, mip, tp)
            \<and> (tp_dest_port tp = 53 \<longrightarrow> arg_dns_via_proxy args)
            \<and> policy_decide ps path mip (tp_dest_port tp) (\<not> tp_is_tcp tp) = Block))"
proof -
  note allowed = flow_allowed [OF assms(1-3), folded assms(4)]
  have dest: "proxied_flow cfg e d dp \<longleftrightarrow> (\<exists>path is_udp. policy_allows ps args pcfg path is_udp d dp)" for d dp
    by (simp add: proxied_flow_def allowed)
  have dns: "dns_via_proxy cfg = arg_dns_via_proxy args" by (simp add: assms(4) nfq_config_of_def)
  note verdict = verdict_obeys [OF assms(5), unfolded verdict_ok_def allowed prepared_engine [OF assms(1-3)] dns]
  show ?thesis
  proof (intro conjI impI)
    assume "step cfg s (Ev_tunnel q dip dport) s'"
    from tunnel_proxied [OF assms(5) this] show "\<exists>path is_udp. policy_allows ps args pcfg path is_udp dip dport"
      by (simp only: dest)
  next
    assume "step cfg s (Ev_udp inp dgrams) s' \<and> To_proxy u addr packet \<in> set dgrams"
    then have "step cfg s (Ev_udp inp dgrams) s'" and "To_proxy u addr packet \<in> set dgrams" by simp_all
    from datagram_proxied [OF assms(5) this]
    show "\<exists>uip uport path is_udp. parse_socks5_udp_packet packet = Some (uip, uport, 10)
        \<and> policy_allows ps args pcfg path is_udp uip uport"
      unfolding dest by blast
  next
    assume "step cfg s (Ev_packet payload out) s' \<and> out_mark out \<noteq> None"
    with verdict show "\<exists>sip mip tp path. header_of payload = Some (sip, mip, tp)
        \<and> policy_allows ps args pcfg path (\<not> tp_is_tcp tp) mip (tp_dest_port tp)
        \<and> out_verdict out = Accept \<and> out_mark out = Some (if tp_is_tcp tp then TCP_MARK else UDP_MARK)"
      by fastforce
  next
    assume "step cfg s (Ev_packet payload out) s' \<and> out_verdict out = Drop"
    with verdict show "\<exists>sip mip tp path. header_of payload = Some (sip, mip, tp)
        \<and> (tp_dest_port tp = 53 \<longrightarrow> arg_dns_via_proxy args)
        \<and> policy_decide ps path mip (tp_dest_port tp) (\<not> tp_is_tcp tp) = Block"
      by (fastforce split: option.splits)
  qed
qed

definition proxy_everything :: "policy_rule list" where
  "proxy_everything = [\<lparr>pol_procs = [Any_proc], pol_hosts = [Any_ip], pol_ports = [Any_port],
     pol_proto = Both, pol_action = Proxy\<rparr>]"

definition proxy_args :: cli_args where
  "proxy_args = example_args\<lparr>arg_rule := map rule_text proxy_everything\<rparr>"

lemma proxy_rule_text: "rule_text (hd proxy_everything) = ''*:*:*:BOTH:PROXY''"
  by (simp add: proxy_everything_def rule_text_def show_procs_def show_ip_list_def show_port_list_def)

lemma proxy_prepared: "prepare example_main_env proxy_args = Inr (proxy_cfg example_cfg, example_engine)"
proof -
  have "parse_proxy_url (url_of Socks5 ''127.0.0.1'' 1080 None) = Inr \<lparr>pp_type = Socks5, pp_host = ''127.0.0.1'',
      pp_port = 1080, pp_username = None, pp_password = None\<rparr>"
    using parse_url_of [of 1080 "''127.0.0.1''" None Socks5] by simp
  then have u: "proxy_of_url (arg_proxy proxy_args) = Inr ((proxy_cfg example_cfg)\<lparr>resolved_ip := None\<rparr>)"
    by (simp add: proxy_of_url_def proxy_args_def example_args_def proxy_config_new_def example_cfg_def)
  have r: "resolve_proxy example_main_env ((proxy_cfg example_cfg)\<lparr>resolved_ip := None\<rparr>) = Inr (proxy_cfg example_cfg)"
    by (simp add: resolve_proxy_def example_main_env_def example_cfg_def)
  have "parse_rule_str (rule_text (hd proxy_everything)) = Inr (''*'', ''*'', ''*'', Both, Proxy)"
    unfolding proxy_rule_text by (simp add: eval_defs)
  then have "load_rules (arg_rule proxy_args) rule_engine_new = Inr example_engine"
    by (simp add: proxy_args_def proxy_everything_def add_rule_def rule_engine_new_def example_engine_def example_state_def)
  with u r show ?thesis by (simp add: prepare_def) (simp add: example_main_env_def)
qed

lemma proxy_config_is: "example_cfg = nfq_config_of example_main_env proxy_args (proxy_cfg example_cfg)"
  by (simp add: nfq_config_of_def example_cfg_def example_main_env_def proxy_args_def example_args_def)

theorem program_obeys_policy_witness:
  "\<exists>path is_udp. policy_allows proxy_everything proxy_args (proxy_cfg example_cfg) path is_udp 0x22D8B85D 80"
proof -
  have wf: "list_all wf_policy proxy_everything" by (simp add: proxy_everything_def wf_policy_def)
  have rule: "arg_rule proxy_args = map rule_text proxy_everything" by (simp add: proxy_args_def)
  have "accept_turn (Accepted 40000 example_client (tracker (nfq example_system)))
      = Some \<lparr>task_client = example_client, task_dest_ip = 0x22D8B85D, task_dest_port = 80\<rparr>"
    by (simp add: example_tracked)
  from step.tunnel [OF this, of example_cfg]
  have "step example_cfg example_system (Ev_tunnel 40000 0x22D8B85D 80) example_system" by simp
  with program_obeys_policy [OF proxy_prepared rule wf proxy_config_is example_reachable] show ?thesis by blast
qed

end
